(* ===== verification/Prelude.thy ===== *)
theory Prelude
  imports Main "HOL-Library.AList" "HOL-Library.Char_ord" "HOL-Library.List_Lexorder"
begin

text \<open>
  Shared vocabulary of the development. Go strings and byte slices are HOL strings (lists of
  8-bit characters), compared bytewise; \<open>time.Time\<close> and \<open>time.Duration\<close> are integers counting
  nanoseconds. A Go map is an association list with distinct keys, read by \<open>get\<close>, written by
  \<open>put\<close> and shortened by \<open>del\<close>: the iteration order of a Go map is unspecified, and every
  result below that depends on an iteration is stated up to that order or after the sort the
  code performs. The theory also holds the collections the component theories add to: \<open>frame\<close>
  for facts saying which part of a state an operation leaves alone, \<open>outcome\<close> for the
  branches of an operation, \<open>inv_keep\<close> for preservation of an invariant.
\<close>

named_theorems frame \<open>what an operation does not change\<close>
named_theorems outcome \<open>results of an operation, branch by branch\<close>
named_theorems inv_keep \<open>preservation of invariants\<close>

type_synonym bytes = string
type_synonym time = int
type_synonym duration = int
type_synonym ('k, 'v) gomap = "('k \<times> 'v) list"

abbreviation get :: "('k, 'v) gomap \<Rightarrow> 'k \<Rightarrow> 'v option" where
  "get m k \<equiv> map_of m k"

abbreviation put :: "'k \<Rightarrow> 'v \<Rightarrow> ('k, 'v) gomap \<Rightarrow> ('k, 'v) gomap" where
  "put k v m \<equiv> AList.update k v m"

abbreviation del :: "'k \<Rightarrow> ('k, 'v) gomap \<Rightarrow> ('k, 'v) gomap" where
  "del k m \<equiv> AList.delete k m"

abbreviation keys :: "('k, 'v) gomap \<Rightarrow> 'k list" where
  "keys m \<equiv> map fst m"

text \<open>A map is well formed when no key occurs twice.\<close>

definition wf_map :: "('k, 'v) gomap \<Rightarrow> bool" where
  "wf_map m \<longleftrightarrow> distinct (keys m)"

text \<open>Time units.\<close>

abbreviation second :: duration where "second \<equiv> 1000000000"
abbreviation minute :: duration where "minute \<equiv> 60 * 1000000000"

text \<open>The zero \<open>time.Time\<close>: the first instant of year 1.\<close>

abbreviation zeroTime :: time where "zeroTime \<equiv> - 62135596800 * 1000000000"

section \<open>Association lists as maps\<close>

lemma get_put [simp]: "get (put k v m) k' = (if k' = k then Some v else get m k')"
  by (simp add: update_conv')

lemma get_del [simp]: "get (del k m) k' = (if k' = k then None else get m k')"
  by (simp add: delete_conv')

lemma set_keys_put [simp]: "fst ` set (put k v m) = insert k (fst ` set m)"
  by (simp add: dom_map_of_conv_image_fst [symmetric] update_conv')

lemma set_keys_del [simp]: "fst ` set (del k m) = fst ` set m - {k}"
  by (auto simp: dom_map_of_conv_image_fst [symmetric] delete_conv' split: if_splits)

lemma wf_map_Nil [simp]: "wf_map []"
  by (simp add: wf_map_def)

lemma wf_map_put [simp]: "wf_map m \<Longrightarrow> wf_map (put k v m)"
  by (simp add: wf_map_def distinct_update)

lemma wf_map_del [simp]: "wf_map m \<Longrightarrow> wf_map (del k m)"
  by (simp add: wf_map_def distinct_delete)

lemma get_None_iff: "get m k = None \<longleftrightarrow> k \<notin> fst ` set m"
  by (simp add: map_of_eq_None_iff)

lemma get_Some_iff: "wf_map m \<Longrightarrow> get m k = Some v \<longleftrightarrow> (k, v) \<in> set m"
  by (simp add: wf_map_def)

lemma get_Some_key: "get m k = Some v \<Longrightarrow> k \<in> fst ` set m"
  by (metis get_None_iff option.distinct(1))

lemma key_get: "k \<in> fst ` set m \<Longrightarrow> \<exists>v. get m k = Some v"
  by (metis get_None_iff not_None_eq)

text \<open>A right fold that stores \<open>g x\<close> under \<open>f x\<close> keeps the last binding of each key.\<close>

lemma get_fold_put:
  "get (fold (\<lambda>x m. put (f x) (g x) m) xs m) k =
     (case List.find (\<lambda>x. f x = k) (rev xs) of Some x \<Rightarrow> Some (g x) | None \<Rightarrow> get m k)"
proof (induction xs rule: rev_induct)
  case Nil
  then show ?case by simp
next
  case (snoc x xs)
  then show ?case by (simp split: option.splits)
qed

lemma wf_map_fold_put: "wf_map m \<Longrightarrow> wf_map (fold (\<lambda>x m. put (f x) (g x) m) xs m)"
  by (induction xs arbitrary: m) simp_all

lemma set_keys_fold_put:
  "fst ` set (fold (\<lambda>x m. put (f x) (g x) m) xs m) = fst ` set m \<union> f ` set xs"
  by (induction xs arbitrary: m) auto

section \<open>Lists and results\<close>

lemma distinct_filter_neq: "distinct xs \<Longrightarrow> distinct (filter (\<lambda>y. y \<noteq> x) xs)"
  by simp

lemma sorted_keys_unique:
  "set xs = set ys \<Longrightarrow> distinct xs \<Longrightarrow> distinct ys \<Longrightarrow> sort xs = sort (ys :: 'a :: linorder list)"
  by (metis sorted_list_of_set_sort_remdups distinct_remdups_id)

lemma find_Some_mem: "List.find P xs = Some x \<Longrightarrow> x \<in> set xs \<and> P x"
  by (auto simp: find_Some_iff)

end
