(* ===== verification/Go_Strings.thy ===== *)
theory Go_Strings
  imports Prelude
begin

text \<open>
  What the program uses of the Go packages \<open>strings\<close>, \<open>strconv\<close> and \<open>path/filepath\<close>, over
  strings as byte lists. \<open>filepath\<close> is the Unix variant. White space in \<open>TrimSpace\<close> and
  \<open>Fields\<close> is ASCII white space; the Unicode spaces beyond ASCII are not recognised here.
  The lemmas are the laws the components rely on: splitting and joining are inverse, and a
  path joined from a directory and separator-free elements has exactly these elements below
  the directory.
\<close>

section \<open>Package strings\<close>

definition HasPrefix :: "string \<Rightarrow> string \<Rightarrow> bool" where
  "HasPrefix s p \<longleftrightarrow> take (length p) s = p"

definition HasSuffix :: "string \<Rightarrow> string \<Rightarrow> bool" where
  "HasSuffix s p \<longleftrightarrow> length p \<le> length s \<and> drop (length s - length p) s = p"

definition TrimPrefix :: "string \<Rightarrow> string \<Rightarrow> string" where
  "TrimPrefix s p = (if HasPrefix s p then drop (length p) s else s)"

fun Contains :: "string \<Rightarrow> string \<Rightarrow> bool" where
  "Contains [] p \<longleftrightarrow> p = []"
| "Contains (c # s) p \<longleftrightarrow> HasPrefix (c # s) p \<or> Contains s p"

fun Split :: "char \<Rightarrow> string \<Rightarrow> string list" where
  "Split c [] = [[]]"
| "Split c (x # xs) =
     (if x = c then [] # Split c xs
      else (case Split c xs of [] \<Rightarrow> [[x]] | y # ys \<Rightarrow> (x # y) # ys))"

fun Join :: "string \<Rightarrow> string list \<Rightarrow> string" where
  "Join sep [] = []"
| "Join sep [x] = x"
| "Join sep (x # y # zs) = x @ sep @ Join sep (y # zs)"

definition isSpace :: "char \<Rightarrow> bool" where
  "isSpace c \<longleftrightarrow> of_char c \<in> {9, 10, 11, 12, 13, 32 :: nat}"

definition TrimSpace :: "string \<Rightarrow> string" where
  "TrimSpace s = rev (dropWhile isSpace (rev (dropWhile isSpace s)))"

fun fields_acc :: "string \<Rightarrow> string \<Rightarrow> string list" where
  "fields_acc acc [] = (if acc = [] then [] else [rev acc])"
| "fields_acc acc (c # s) =
     (if isSpace c then (if acc = [] then fields_acc [] s else rev acc # fields_acc [] s)
      else fields_acc (c # acc) s)"

definition Fields :: "string \<Rightarrow> string list" where
  "Fields s = fields_acc [] s"

definition lowerByte :: "char \<Rightarrow> char" where
  "lowerByte c = (let n = of_char c :: nat in if 65 \<le> n \<and> n \<le> 90 then char_of (n + 32) else c)"

definition ToLower :: "string \<Rightarrow> string" where
  "ToLower s = map lowerByte s"

section \<open>Package strconv\<close>

definition isDigit :: "char \<Rightarrow> bool" where
  "isDigit c \<longleftrightarrow> 48 \<le> (of_char c :: nat) \<and> (of_char c :: nat) \<le> 57"

definition digitVal :: "char \<Rightarrow> nat" where
  "digitVal c = of_char c - 48"

fun natDigits :: "nat \<Rightarrow> string" where
  "natDigits n = (if n < 10 then [char_of (48 + n)] else natDigits (n div 10) @ [char_of (48 + n mod 10)])"

declare natDigits.simps [simp del]

definition Itoa :: "int \<Rightarrow> string" where
  "Itoa i = (if i < 0 then CHR ''-'' # natDigits (nat (- i)) else natDigits (nat i))"

definition digitsVal :: "string \<Rightarrow> nat" where
  "digitsVal s = foldl (\<lambda>n c. 10 * n + digitVal c) 0 s"

text \<open>\<open>strconv.Atoi\<close> on an optional sign and decimal digits; \<open>None\<close> is its error. The range
  check of a 64-bit \<open>int\<close> is part of the result.\<close>

definition Atoi :: "string \<Rightarrow> int option" where
  "Atoi s =
     (let neg = (s \<noteq> [] \<and> hd s = CHR ''-'');
          body = (if s \<noteq> [] \<and> (hd s = CHR ''-'' \<or> hd s = CHR ''+'') then tl s else s)
      in if body = [] \<or> \<not> list_all isDigit body then None
         else let v = (if neg then - int (digitsVal body) else int (digitsVal body))
              in if - (2 ^ 63) \<le> v \<and> v < 2 ^ 63 then Some v else None)"

text \<open>The verb \<open>%q\<close>: printable ASCII is kept, the quote and the backslash are escaped, control
  bytes are written as escapes. Bytes beyond ASCII are kept as they are.\<close>

definition hexChar :: "nat \<Rightarrow> char" where
  "hexChar n = (if n < 10 then char_of (48 + n) else char_of (87 + n))"

definition quoteByte :: "char \<Rightarrow> string" where
  "quoteByte c =
     (let n = of_char c :: nat
      in if n = 34 \<or> n = 92 then [CHR 0x5C, c]
         else if n = 7 then [CHR 0x5C, CHR ''a'']
         else if n = 8 then [CHR 0x5C, CHR ''b'']
         else if n = 12 then [CHR 0x5C, CHR ''f'']
         else if n = 10 then [CHR 0x5C, CHR ''n'']
         else if n = 13 then [CHR 0x5C, CHR ''r'']
         else if n = 9 then [CHR 0x5C, CHR ''t'']
         else if n = 11 then [CHR 0x5C, CHR ''v'']
         else if n < 32 \<or> n = 127 then [CHR 0x5C, CHR ''x'', hexChar (n div 16), hexChar (n mod 16)]
         else [c])"

definition Quote :: "string \<Rightarrow> string" where
  "Quote s = CHR 0x22 # concat (map quoteByte s) @ [CHR 0x22]"

section \<open>Package path/filepath\<close>

type_synonym path = string

abbreviation sep :: char where "sep \<equiv> CHR ''/''"

definition cleanStep :: "bool \<Rightarrow> string \<Rightarrow> string list \<Rightarrow> string list" where
  "cleanStep rooted c st =
     (if c = '''' \<or> c = ''.'' then st
      else if c = ''..'' then
        (case st of [] \<Rightarrow> (if rooted then [] else [''..''])
         | t # rest \<Rightarrow> (if t = ''..'' then ''..'' # st else rest))
      else c # st)"

definition cleanComps :: "path \<Rightarrow> string list" where
  "cleanComps p = rev (fold (cleanStep (HasPrefix p ''/'')) (Split sep p) [])"

definition Clean :: "path \<Rightarrow> path" where
  "Clean p =
     (let body = Join ''/'' (cleanComps p)
      in if HasPrefix p ''/'' then sep # body else if body = [] then ''.'' else body)"

definition JoinPath :: "string list \<Rightarrow> path" where
  "JoinPath es = (case dropWhile (\<lambda>e. e = []) es of [] \<Rightarrow> [] | es' \<Rightarrow> Clean (Join ''/'' es'))"

definition Dir :: "path \<Rightarrow> path" where
  "Dir p = Clean (rev (dropWhile (\<lambda>c. c \<noteq> sep) (rev p)))"

definition Base :: "path \<Rightarrow> string" where
  "Base p =
     (if p = [] then ''.''
      else let q = rev (dropWhile (\<lambda>c. c = sep) (rev p))
           in if q = [] then ''/'' else rev (takeWhile (\<lambda>c. c \<noteq> sep) (rev q)))"

section \<open>Laws of the string functions\<close>

lemma HasPrefix_append [simp]: "HasPrefix (p @ s) p"
  by (simp add: HasPrefix_def)

lemma HasPrefix_Nil [simp]: "HasPrefix s []"
  by (simp add: HasPrefix_def)

lemma HasPrefix_iff: "HasPrefix s p \<longleftrightarrow> (\<exists>r. s = p @ r)"
  by (metis HasPrefix_append HasPrefix_def append_take_drop_id)

lemma HasPrefix_Cons [simp]: "HasPrefix (x # s) (y # p) \<longleftrightarrow> x = y \<and> HasPrefix s p"
  by (auto simp: HasPrefix_def)

lemma HasPrefix_Nil2 [simp]: "HasPrefix [] (y # p) \<longleftrightarrow> False"
  by (simp add: HasPrefix_def)

lemma HasSuffix_append [simp]: "HasSuffix (s @ p) p"
  by (simp add: HasSuffix_def)

lemma Contains_iff: "Contains s p \<longleftrightarrow> (\<exists>a b. s = a @ p @ b)"
proof (induction s)
  case Nil
  then show ?case by auto
next
  case (Cons c s)
  have "(\<exists>a b. c # s = a @ p @ b) \<longleftrightarrow> HasPrefix (c # s) p \<or> (\<exists>a b. s = a @ p @ b)"
  proof
    assume "\<exists>a b. c # s = a @ p @ b"
    then obtain a b where "c # s = a @ p @ b" by blast
    then show "HasPrefix (c # s) p \<or> (\<exists>a b. s = a @ p @ b)"
      by (cases a) (auto simp: HasPrefix_iff)
  next
    assume "HasPrefix (c # s) p \<or> (\<exists>a b. s = a @ p @ b)"
    then show "\<exists>a b. c # s = a @ p @ b"
      by (metis HasPrefix_iff append_Cons append_Nil)
  qed
  with Cons show ?case by simp
qed

lemma Contains_single: "Contains s [c] \<longleftrightarrow> c \<in> set s"
  by (auto simp: Contains_iff in_set_conv_decomp)

lemma Split_not_Nil [simp]: "Split c s \<noteq> []"
  by (cases s) (auto split: list.split)

lemma Split_single: "c \<notin> set s \<Longrightarrow> Split c s = [s]"
  by (induction s) auto

lemma Split_append_sep: "Split c (a @ c # b) = Split c a @ Split c b"
  by (induction a) (auto split: list.split)

lemma Split_segments: "x \<in> set (Split c s) \<Longrightarrow> c \<notin> set x"
proof (induction s arbitrary: x)
  case Nil
  then show ?case by simp
next
  case (Cons y s)
  obtain h t where ht: "Split c s = h # t" by (cases "Split c s") auto
  with Cons show ?case by (auto split: if_splits)
qed

lemma Join_Cons: "xs \<noteq> [] \<Longrightarrow> Join d (x # xs) = x @ d @ Join d xs"
  by (cases xs) simp_all

lemma Join_Split: "Join [c] (Split c s) = s"
proof (induction s)
  case Nil
  then show ?case by simp
next
  case (Cons x s)
  obtain h t where ht: "Split c s = h # t" by (cases "Split c s") auto
  show ?case
  proof (cases "x = c")
    case True
    with Cons ht show ?thesis by (simp add: Join_Cons)
  next
    case False
    with Cons ht show ?thesis by (cases t) auto
  qed
qed

lemma Split_Join:
  "xs \<noteq> [] \<Longrightarrow> \<forall>x\<in>set xs. c \<notin> set x \<Longrightarrow> Split c (Join [c] xs) = xs"
proof (induction xs)
  case Nil
  then show ?case by simp
next
  case (Cons x xs)
  show ?case
  proof (cases "xs = []")
    case True
    with Cons.prems show ?thesis by (simp add: Split_single)
  next
    case False
    with Cons show ?thesis by (simp add: Join_Cons Split_append_sep Split_single)
  qed
qed

lemma TrimSpace_id: "s \<noteq> [] \<Longrightarrow> \<not> isSpace (hd s) \<Longrightarrow> \<not> isSpace (last s) \<Longrightarrow> TrimSpace s = s"
proof -
  assume "s \<noteq> []" and h: "\<not> isSpace (hd s)" and l: "\<not> isSpace (last s)"
  then have "dropWhile isSpace s = s" by (cases s) auto
  moreover have "dropWhile isSpace (rev s) = rev s"
    using \<open>s \<noteq> []\<close> l by (cases s rule: rev_cases) auto
  ultimately show ?thesis by (simp add: TrimSpace_def)
qed

section \<open>Laws of decimal numerals\<close>

lemma of_char_digit: "d < 10 \<Longrightarrow> (of_char (char_of (48 + d) :: char) :: nat) = 48 + d"
  by simp

lemma natDigits_digits: "list_all isDigit (natDigits n)"
proof (induction n rule: natDigits.induct)
  case (1 n)
  show ?case
  proof (cases "n < 10")
    case True
    then show ?thesis by (simp add: natDigits.simps [of n] isDigit_def)
  next
    case False
    with 1 show ?thesis by (simp add: natDigits.simps [of n] isDigit_def)
  qed
qed

lemma natDigits_not_Nil [simp]: "natDigits n \<noteq> []"
  by (simp add: natDigits.simps [of n])

lemma digitsVal_snoc: "digitsVal (s @ [c]) = 10 * digitsVal s + digitVal c"
  by (simp add: digitsVal_def)

lemma digitsVal_natDigits: "digitsVal (natDigits n) = n"
proof (induction n rule: natDigits.induct)
  case (1 n)
  show ?case
  proof (cases "n < 10")
    case True
    then show ?thesis
      by (simp add: natDigits.simps [of n] digitsVal_def digitVal_def)
  next
    case False
    with 1 show ?thesis
      by (simp add: natDigits.simps [of n] digitsVal_snoc digitVal_def)
  qed
qed

lemma digit_not_sign: "isDigit c \<Longrightarrow> c \<noteq> CHR ''-'' \<and> c \<noteq> CHR ''+'' "
  by (auto simp: isDigit_def)

lemma Atoi_Itoa: "- (2 ^ 63) \<le> i \<Longrightarrow> i < 2 ^ 63 \<Longrightarrow> Atoi (Itoa i) = Some i"
proof -
  assume lo: "- (2 ^ 63) \<le> i" and hi: "i < 2 ^ 63"
  have hd_digit: "isDigit (hd (natDigits n))" for n
    using natDigits_digits [of n] by (cases "natDigits n") auto
  show ?thesis
  proof (cases "i < 0")
    case True
    with lo show ?thesis
      by (simp add: Atoi_def Itoa_def natDigits_digits digitsVal_natDigits)
  next
    case False
    with hi hd_digit [of "nat i"] show ?thesis
      by (simp add: Atoi_def Itoa_def natDigits_digits digitsVal_natDigits digit_not_sign)
  qed
qed

section \<open>Laws of paths\<close>

lemma fold_cleanStep_plain:
  "\<forall>x\<in>set xs. x \<notin> {'''', ''.'', ''..''} \<Longrightarrow> fold (cleanStep r) xs st = rev xs @ st"
  by (induction xs arbitrary: st) (auto simp: cleanStep_def)

lemma HasPrefix_sep_append: "d \<noteq> [] \<Longrightarrow> HasPrefix (d @ s) ''/'' = HasPrefix d ''/''"
  by (cases d) simp_all

lemma Join_not_empty: "xs \<noteq> [] \<Longrightarrow> hd xs \<noteq> [] \<Longrightarrow> Join d xs \<noteq> []"
  by (cases "(d, xs)" rule: Join.cases) auto

text \<open>A path joined from a directory and plain, separator-free elements names exactly these
  elements below the cleaned directory.\<close>

lemma cleanComps_join:
  assumes "d \<noteq> []" and "xs \<noteq> []"
    and plain: "\<forall>x\<in>set xs. x \<notin> {'''', ''.'', ''..''} \<and> sep \<notin> set x"
  shows "cleanComps (Join ''/'' (d # xs)) = cleanComps d @ xs"
proof -
  have "Split sep (Join ''/'' (d # xs)) = Split sep d @ xs"
    using assms by (simp add: Join_Cons Split_append_sep Split_Join)
  moreover have "HasPrefix (Join ''/'' (d # xs)) ''/'' = HasPrefix d ''/''"
    using assms(1,2) by (simp add: Join_Cons HasPrefix_sep_append)
  ultimately show ?thesis
    using plain by (simp add: cleanComps_def fold_cleanStep_plain)
qed

lemma JoinPath_plain:
  assumes "d \<noteq> []" and "xs \<noteq> []"
    and "\<forall>x\<in>set xs. x \<notin> {'''', ''.'', ''..''} \<and> sep \<notin> set x"
  shows "JoinPath (d # xs) =
           (if HasPrefix d ''/'' then sep # Join ''/'' (cleanComps d @ xs)
            else Join ''/'' (cleanComps d @ xs))"
proof -
  have pre: "HasPrefix (Join ''/'' (d # xs)) ''/'' = HasPrefix d ''/''"
    using assms(1,2) by (simp add: Join_Cons HasPrefix_sep_append)
  have ne: "Join ''/'' (cleanComps d @ xs) \<noteq> []"
  proof (cases "cleanComps d")
    case Nil
    have "hd xs \<noteq> []" using assms(2,3) by (cases xs) auto
    with Nil assms(2) show ?thesis by (simp add: Join_not_empty)
  next
    case (Cons c cs)
    with assms(2) show ?thesis by (simp add: Join_Cons)
  qed
  show ?thesis
    using assms(1) pre ne cleanComps_join [OF assms]
    by (simp add: JoinPath_def Clean_def Let_def)
qed

text \<open>A cleaned path is a fixed point: its elements are plain names, after leading \<open>..\<close> elements
  when the path is relative.\<close>

fun cleanStack :: "bool \<Rightarrow> string list \<Rightarrow> bool" where
  "cleanStack r [] = True"
| "cleanStack r (x # st) =
     (x \<noteq> '''' \<and> x \<noteq> ''.'' \<and> sep \<notin> set x \<and> (x = ''..'' \<longrightarrow> \<not> r \<and> set st \<subseteq> {''..''}) \<and>
      cleanStack r st)"

lemma cleanStack_step: "cleanStack r st \<Longrightarrow> sep \<notin> set c \<Longrightarrow> cleanStack r (cleanStep r c st)"
  by (cases st) (auto simp: cleanStep_def)

lemma cleanStack_fold:
  "cleanStack r st \<Longrightarrow> \<forall>c\<in>set cs. sep \<notin> set c \<Longrightarrow> cleanStack r (fold (cleanStep r) cs st)"
  by (induction cs arbitrary: st) (auto simp: cleanStack_step)

lemma fold_cleanStack: "cleanStack r st \<Longrightarrow> fold (cleanStep r) (rev st) [] = st"
proof (induction st)
  case Nil
  then show ?case by simp
next
  case (Cons x st)
  then have "fold (cleanStep r) (rev (x # st)) [] = cleanStep r x st" by simp
  also from Cons.prems have "\<dots> = x # st"
    by (cases st) (auto simp: cleanStep_def)
  finally show ?case .
qed

lemma cleanStack_comps: "cleanStack (HasPrefix p ''/'') (rev (cleanComps p))"
  by (simp add: cleanComps_def cleanStack_fold Split_segments)

lemma cleanStack_sep: "cleanStack r st \<Longrightarrow> x \<in> set st \<Longrightarrow> sep \<notin> set x \<and> x \<noteq> ''''"
  by (induction st) auto

lemma cleanComps_plain: "x \<in> set (cleanComps p) \<Longrightarrow> sep \<notin> set x \<and> x \<noteq> ''''"
  using cleanStack_sep [OF cleanStack_comps, of x] by simp

lemma Split_Join_comps: "cleanComps p \<noteq> [] \<Longrightarrow> Split sep (Join ''/'' (cleanComps p)) = cleanComps p"
  using cleanComps_plain by (simp add: Split_Join)

lemma Join_comps_rel: "cleanComps p \<noteq> [] \<Longrightarrow> \<not> HasPrefix (Join ''/'' (cleanComps p)) ''/''"
proof -
  assume "cleanComps p \<noteq> []"
  then obtain c cs where cs: "cleanComps p = c # cs" by (cases "cleanComps p") auto
  then have "sep \<notin> set c" "c \<noteq> ''''" using cleanComps_plain [of c p] by auto
  then show ?thesis using cs by (cases c; cases cs) auto
qed

lemma HasPrefix_Clean: "HasPrefix (Clean p) ''/'' = HasPrefix p ''/''"
  using Join_comps_rel [of p] Join_not_empty [of "cleanComps p" "''/''"]
  by (cases "cleanComps p = []") (auto simp: Clean_def Let_def)

lemma cleanComps_Clean [simp]: "cleanComps (Clean p) = cleanComps p"
proof -
  let ?r = "HasPrefix p ''/''"
  let ?cs = "cleanComps p"
  have ne: "?cs \<noteq> [] \<Longrightarrow> Join ''/'' ?cs \<noteq> []"
    using cleanComps_plain [of "hd ?cs" p] by (intro Join_not_empty) auto
  have fold_cs: "fold (cleanStep ?r) ?cs [] = rev ?cs"
    using fold_cleanStack [OF cleanStack_comps, of p] by simp
  have "fold (cleanStep ?r) (Split sep (Clean p)) [] = rev ?cs"
  proof (cases "?cs = []")
    case True
    then show ?thesis by (auto simp: Clean_def Let_def cleanStep_def)
  next
    case False
    have eq: "Split sep (Clean p) = (if ?r then '''' # ?cs else ?cs)"
      using False ne by (simp add: Clean_def Let_def Split_Join_comps)
    show ?thesis
      using eq fold_cs by (auto simp: cleanStep_def)
  qed
  then show ?thesis by (simp add: cleanComps_def [of "Clean p"] HasPrefix_Clean)
qed

lemma Clean_Clean [simp]: "Clean (Clean p) = Clean p"
  by (subst Clean_def) (simp only: cleanComps_Clean HasPrefix_Clean Clean_def [of p, symmetric])

lemma cleanComps_eqI: "Clean p = Clean q \<Longrightarrow> cleanComps p = cleanComps q"
  by (metis cleanComps_Clean)

lemma cleanComps_child:
  "d \<noteq> [] \<Longrightarrow> x \<notin> {'''', ''.'', ''..''} \<Longrightarrow> sep \<notin> set x \<Longrightarrow> cleanComps (d @ sep # x) = cleanComps d @ [x]"
  using cleanComps_join [of d "[x]"] by simp

lemma Clean_not_Nil [simp]: "Clean p \<noteq> []"
  by (simp add: Clean_def Let_def)

lemma Dir_not_Nil [simp]: "Dir p \<noteq> []"
  by (simp add: Dir_def)

lemma natDigits_plain: "sep \<notin> set (natDigits n)"
  using natDigits_digits [of n] by (auto simp: list_all_iff isDigit_def)

text \<open>A file directly inside a directory.\<close>

lemma cleanComps_JoinPath:
  assumes "d \<noteq> []" and "n \<notin> {[], ''.'', ''..''}" and "sep \<notin> set n"
  shows "cleanComps (JoinPath [d, n]) = cleanComps d @ [n]"
proof -
  have "JoinPath [d, n] = Clean (d @ sep # n)" using assms(1) by (simp add: JoinPath_def)
  then show ?thesis using cleanComps_child [OF assms] by simp
qed

lemma Clean_trailing: "x \<noteq> [] \<Longrightarrow> Clean (x @ [sep]) = Clean x"
proof -
  assume x: "x \<noteq> []"
  have "cleanComps (x @ [sep]) = cleanComps x"
    using x Split_append_sep [of sep x "[]"] by (simp add: cleanComps_def cleanStep_def HasPrefix_sep_append)
  then show "Clean (x @ [sep]) = Clean x" using x by (simp add: Clean_def HasPrefix_sep_append)
qed

lemma Dir_JoinPath:
  assumes "d \<noteq> []" and "n \<notin> {[], ''.'', ''..''}" and "sep \<notin> set n"
  shows "Dir (JoinPath [d, n]) = Clean d"
proof -
  have drop: "rev (dropWhile (\<lambda>c. c \<noteq> sep) (rev (x @ sep # n))) = x @ [sep]"
    "rev (dropWhile (\<lambda>c. c \<noteq> sep) (rev n)) = []" for x
    using assms(3) by (simp_all add: dropWhile_append3) (induction n rule: rev_induct, auto)
  have j: "JoinPath [d, n] = (if HasPrefix d ''/'' then sep # Join ''/'' (cleanComps d @ [n]) else Join ''/'' (cleanComps d @ [n]))"
    using JoinPath_plain [OF assms(1), of "[n]"] assms(2,3) by simp
  have J: "Join ''/'' (cs @ [n]) = Join ''/'' cs @ sep # n" if "cs \<noteq> []" for cs
    using that
  proof (induction cs)
    case (Cons a cs)
    then show ?case by (cases "cs = []") (simp_all add: Join_Cons)
  qed simp
  show ?thesis
  proof (cases "cleanComps d = []")
    case True
    have root: "Clean [sep] = [sep]" "Clean [] = ''.''"
      by (simp_all add: Clean_def cleanComps_def cleanStep_def)
    have cd: "Clean d = (if HasPrefix d ''/'' then [sep] else ''.'')" using True by (simp add: Clean_def)
    have "JoinPath [d, n] = (if HasPrefix d ''/'' then [] @ sep # n else n)" using j True by simp
    then show ?thesis unfolding Dir_def cd using drop(1) [of "[]"] drop(2) root by (simp only: append_Nil split: if_split) simp
  next
    case False
    then have "Join ''/'' (cleanComps d) \<noteq> []"
      using cleanComps_plain [of "hd (cleanComps d)" d] by (intro Join_not_empty) auto
    with False have "JoinPath [d, n] = Clean d @ sep # n"
      using j J [OF False] by (simp add: Clean_def)
    then show ?thesis using drop(1) by (simp add: Dir_def Clean_trailing)
  qed
qed

end
