(* ===== verification/Os_Model.thy ===== *)
theory Os_Model
  imports Go_Strings "HOL-Library.Word"
begin

unbundle bit_operations_syntax

text \<open>
  The operating system as the program sees it through Go's \<open>os\<close> package: a tree of files and
  directories keyed by cleaned path, and the calls the program makes. A call may fail for a
  reason outside the program; \<open>faults\<close> says for each call whether it does, once and for all, so a
  theorem that leaves \<open>faults\<close> free holds for every set of calls that fail, each whenever it is made on its path; a call
  that first succeeds and fails later in the same run is not covered. A failing write leaves the first
  \<open>short\<close> bytes behind. \<open>trace\<close> is a ghost field: the directory states the calls went through,
  in order, which is what a crash can leave behind. Symbolic links, the working directory and
  the umask are not modelled.
\<close>

type_synonym filemode = "32 word"

text \<open>The modes 0600, 0700, 0660 and 0750.\<close>

abbreviation mode600 :: filemode where "mode600 \<equiv> 384"
abbreviation mode700 :: filemode where "mode700 \<equiv> 448"
abbreviation mode660 :: filemode where "mode660 \<equiv> 432"
abbreviation mode750 :: filemode where "mode750 \<equiv> 488"

datatype oserr = ErrNotExist | ErrExist | SysErr string

datatype node = File (fdata: bytes) (nmode: filemode) (nuid: nat) | Directory (nmode: filemode) (nuid: nat)

datatype oscall =
    OpReadFile path | OpOpen path | OpWrite path | OpClose path | OpChmod path
  | OpMkdirAll path | OpCreateTemp path | OpRename path path | OpRemove path
  | OpStat path | OpReadDir path

type_synonym nodemap = "(path, node) gomap"

record os =
  nodes :: nodemap
  trace :: "nodemap list"
  faults :: "oscall \<Rightarrow> string option"
  short :: "path \<Rightarrow> nat"
  tempSeed :: nat
  getuid :: nat

definition node_at :: "os \<Rightarrow> path \<Rightarrow> node option" where
  "node_at s p = get (nodes s) (Clean p)"

definition commit :: "nodemap \<Rightarrow> os \<Rightarrow> os" where
  "commit n s = s\<lparr>nodes := n, trace := trace s @ [n]\<rparr>"

definition set_node :: "path \<Rightarrow> node \<Rightarrow> os \<Rightarrow> os" where
  "set_node p n s = commit (put (Clean p) n (nodes s)) s"

definition isDirectory :: "os \<Rightarrow> path \<Rightarrow> bool" where
  "isDirectory s p \<longleftrightarrow>
     Clean p = ''/'' \<or> Clean p = ''.'' \<or>
     (case node_at s p of Some (Directory _ _) \<Rightarrow> True | _ \<Rightarrow> False)"

section \<open>The calls\<close>

definition ReadFile :: "path \<Rightarrow> os \<Rightarrow> oserr + bytes" where
  "ReadFile p s =
     (case faults s (OpReadFile p) of Some e \<Rightarrow> Inl (SysErr e)
      | None \<Rightarrow>
        (case node_at s p of None \<Rightarrow> Inl ErrNotExist
         | Some (File d _ _) \<Rightarrow> Inr d
         | Some (Directory _ _) \<Rightarrow> Inl (SysErr ''is a directory'')))"

text \<open>\<open>os.WriteFile\<close>: open with truncation, write, close.\<close>

definition WriteFile :: "path \<Rightarrow> bytes \<Rightarrow> filemode \<Rightarrow> os \<Rightarrow> oserr option \<times> os" where
  "WriteFile p d m s =
     (case faults s (OpOpen p) of Some e \<Rightarrow> (Some (SysErr e), s)
      | None \<Rightarrow>
        (if \<not> isDirectory s (Dir p) then (Some ErrNotExist, s)
         else if isDirectory s p then (Some (SysErr ''is a directory''), s)
         else
           let (m', u) = (case node_at s p of Some (File _ m0 u0) \<Rightarrow> (m0, u0) | _ \<Rightarrow> (m, getuid s));
               s1 = set_node p (File [] m' u) s
           in case faults s (OpWrite p) of
                Some e \<Rightarrow> (Some (SysErr e), set_node p (File (take (short s p) d) m' u) s1)
              | None \<Rightarrow> (map_option SysErr (faults s (OpClose p)), set_node p (File d m' u) s1)))"

text \<open>Writing to, and closing, a file that is already open for writing.\<close>

definition FileWrite :: "path \<Rightarrow> bytes \<Rightarrow> os \<Rightarrow> oserr option \<times> os" where
  "FileWrite p d s =
     (case node_at s p of
        Some (File d0 m u) \<Rightarrow>
          (case faults s (OpWrite p) of
             Some e \<Rightarrow> (Some (SysErr e), set_node p (File (d0 @ take (short s p) d) m u) s)
           | None \<Rightarrow> (None, set_node p (File (d0 @ d) m u) s))
      | _ \<Rightarrow> (Some (SysErr ''bad file''), s))"

definition FileClose :: "path \<Rightarrow> os \<Rightarrow> oserr option" where
  "FileClose p s = map_option SysErr (faults s (OpClose p))"

definition Chmod :: "path \<Rightarrow> filemode \<Rightarrow> os \<Rightarrow> oserr option \<times> os" where
  "Chmod p m s =
     (case faults s (OpChmod p) of Some e \<Rightarrow> (Some (SysErr e), s)
      | None \<Rightarrow>
        (case node_at s p of None \<Rightarrow> (Some ErrNotExist, s)
         | Some (File d _ u) \<Rightarrow> (None, set_node p (File d m u) s)
         | Some (Directory _ u) \<Rightarrow> (None, set_node p (Directory m u) s)))"

definition ancestors :: "path \<Rightarrow> path list" where
  "ancestors p =
     (let cs = cleanComps p
      in map (\<lambda>k. (if HasPrefix p ''/'' then sep # Join ''/'' (take k cs) else Join ''/'' (take k cs)))
           [1..<Suc (length cs)])"

definition isFile :: "os \<Rightarrow> path \<Rightarrow> bool" where
  "isFile s p \<longleftrightarrow> (case node_at s p of Some (File _ _ _) \<Rightarrow> True | _ \<Rightarrow> False)"

definition MkdirAll :: "path \<Rightarrow> filemode \<Rightarrow> os \<Rightarrow> oserr option \<times> os" where
  "MkdirAll p m s =
     (case faults s (OpMkdirAll p) of Some e \<Rightarrow> (Some (SysErr e), s)
      | None \<Rightarrow>
        (if list_ex (isFile s) (ancestors p) then (Some (SysErr ''not a directory''), s)
         else (None, fold (\<lambda>a s. if isDirectory s a then s else set_node a (Directory m (getuid s)) s)
                       (ancestors p) s)))"

definition tempName :: "path \<Rightarrow> string \<Rightarrow> nat \<Rightarrow> path" where
  "tempName d pre n = d @ sep # pre @ natDigits n"

text \<open>\<open>os.CreateTemp\<close> with the pattern \<open>pre*\<close>: up to 10000 candidate names, opened exclusively
  with mode 0600.\<close>

definition CreateTemp :: "path \<Rightarrow> string \<Rightarrow> os \<Rightarrow> (oserr + path) \<times> os" where
  "CreateTemp d pre s =
     (case faults s (OpCreateTemp d) of Some e \<Rightarrow> (Inl (SysErr e), s)
      | None \<Rightarrow>
        (if \<not> isDirectory s d then (Inl ErrNotExist, s)
         else case List.find (\<lambda>n. node_at s (tempName d pre n) = None) [tempSeed s..<tempSeed s + 10000] of
                None \<Rightarrow> (Inl ErrExist, s)
              | Some n \<Rightarrow>
                  (Inr (tempName d pre n),
                   set_node (tempName d pre n) (File [] mode600 (getuid s)) s)))"

definition Rename :: "path \<Rightarrow> path \<Rightarrow> os \<Rightarrow> oserr option \<times> os" where
  "Rename p q s =
     (case faults s (OpRename p q) of Some e \<Rightarrow> (Some (SysErr e), s)
      | None \<Rightarrow>
        (case node_at s p of None \<Rightarrow> (Some ErrNotExist, s)
         | Some n \<Rightarrow>
             (if \<not> isDirectory s (Dir q) then (Some ErrNotExist, s)
              else if isDirectory s q then (Some ErrExist, s)
              else (None, commit (put (Clean q) n (del (Clean p) (nodes s))) s))))"

definition Remove :: "path \<Rightarrow> os \<Rightarrow> oserr option \<times> os" where
  "Remove p s =
     (case faults s (OpRemove p) of Some e \<Rightarrow> (Some (SysErr e), s)
      | None \<Rightarrow>
        (case node_at s p of None \<Rightarrow> (Some ErrNotExist, s)
         | Some (File _ _ _) \<Rightarrow> (None, commit (del (Clean p) (nodes s)) s)
         | Some (Directory _ _) \<Rightarrow>
             (if list_ex (\<lambda>k. k \<noteq> Clean p \<and> Dir k = Clean p) (keys (nodes s))
              then (Some (SysErr ''directory not empty''), s)
              else (None, commit (del (Clean p) (nodes s)) s))))"

definition Stat :: "path \<Rightarrow> os \<Rightarrow> oserr + node" where
  "Stat p s =
     (case faults s (OpStat p) of Some e \<Rightarrow> Inl (SysErr e)
      | None \<Rightarrow> (case node_at s p of None \<Rightarrow> Inl ErrNotExist | Some n \<Rightarrow> Inr n))"

definition ReadDir :: "path \<Rightarrow> os \<Rightarrow> oserr + (string \<times> bool) list" where
  "ReadDir p s =
     (case faults s (OpReadDir p) of Some e \<Rightarrow> Inl (SysErr e)
      | None \<Rightarrow>
        (if \<not> isDirectory s p then Inl ErrNotExist
         else Inr (map (\<lambda>k. (Base k, isDirectory s k))
                     (sort (filter (\<lambda>k. k \<noteq> Clean p \<and> Dir k = Clean p) (keys (nodes s)))))))"

text \<open>The permission bit tested by the program's world-writable checks.\<close>

definition worldWritable :: "filemode \<Rightarrow> bool" where
  "worldWritable m \<longleftrightarrow> m AND 2 \<noteq> 0"

section \<open>Frame facts\<close>

text \<open>\<open>untouched p s s'\<close>: between \<open>s\<close> and \<open>s'\<close> no directory state, the last one included, shows
  another node at \<open>p\<close> than \<open>s\<close> does; failures are drawn from the same oracle.\<close>

definition untouched :: "path \<Rightarrow> os \<Rightarrow> os \<Rightarrow> bool" where
  "untouched p s s' \<longleftrightarrow>
     node_at s' p = node_at s p \<and> faults s' = faults s \<and> short s' = short s \<and>
     getuid s' = getuid s \<and>
     (\<exists>ts. trace s' = trace s @ ts \<and> (\<forall>t\<in>set ts. get t (Clean p) = node_at s p))"

lemma untouched_refl [simp]: "untouched p s s"
  by (simp add: untouched_def)

lemma untouched_trans: "untouched p s s' \<Longrightarrow> untouched p s' s'' \<Longrightarrow> untouched p s s''"
  by (fastforce simp: untouched_def)

lemma set_node_simps [simp]:
  "nodes (set_node p n s) = put (Clean p) n (nodes s)"
  "faults (set_node p n s) = faults s"
  "short (set_node p n s) = short s"
  "getuid (set_node p n s) = getuid s"
  "tempSeed (set_node p n s) = tempSeed s"
  "trace (set_node p n s) = trace s @ [put (Clean p) n (nodes s)]"
  by (simp_all add: set_node_def commit_def)

lemma commit_simps [simp]:
  "nodes (commit n s) = n" "faults (commit n s) = faults s" "short (commit n s) = short s"
  "getuid (commit n s) = getuid s" "trace (commit n s) = trace s @ [n]"
  by (simp_all add: commit_def)

lemma node_at_set_node [simp]:
  "node_at (set_node p n s) q = (if Clean q = Clean p then Some n else node_at s q)"
  by (simp add: node_at_def)

lemma untouched_set_node: "Clean q \<noteq> Clean p \<Longrightarrow> untouched q s (set_node p n s)"
  by (auto simp: untouched_def node_at_def)

lemma untouched_commit_del: "Clean q \<noteq> Clean p \<Longrightarrow> untouched q s (commit (del (Clean p) (nodes s)) s)"
  by (auto simp: untouched_def node_at_def)

lemma untouched_FileWrite [frame]: "Clean q \<noteq> Clean p \<Longrightarrow> untouched q s (snd (FileWrite p d s))"
  by (auto simp: FileWrite_def untouched_set_node split: option.splits node.splits)

lemma untouched_Chmod [frame]: "Clean q \<noteq> Clean p \<Longrightarrow> untouched q s (snd (Chmod p m s))"
  by (auto simp: Chmod_def untouched_set_node split: option.splits node.splits)

lemma untouched_Remove [frame]: "Clean q \<noteq> Clean p \<Longrightarrow> untouched q s (snd (Remove p s))"
  by (auto simp: Remove_def untouched_commit_del split: option.splits node.splits)

lemma untouched_WriteFile [frame]: "Clean q \<noteq> Clean p \<Longrightarrow> untouched q s (snd (WriteFile p d m s))"
proof -
  assume ne: "Clean q \<noteq> Clean p"
  have "untouched q s (set_node p b (set_node p a s))" for a b
    by (rule untouched_trans [OF untouched_set_node untouched_set_node]) (use ne in auto)
  then show ?thesis
    by (auto simp: WriteFile_def Let_def split: option.splits node.splits prod.splits)
qed

lemma untouched_CreateTemp [frame]:
  "\<forall>n. Clean q \<noteq> Clean (tempName d pre n) \<Longrightarrow> untouched q s (snd (CreateTemp d pre s))"
  by (auto simp: CreateTemp_def untouched_set_node split: option.splits)

lemma isFile_dir: "isFile s p \<Longrightarrow> node_at s p \<noteq> None"
  by (auto simp: isFile_def split: option.splits)

text \<open>\<open>MkdirAll\<close> adds directories only: a path that holds a file, or that is none of the ancestors,
  is untouched.\<close>

lemma untouched_mkdir_fold:
  "\<forall>a\<in>set as. Clean q \<noteq> Clean a \<Longrightarrow>
   untouched q s (fold (\<lambda>a s. if isDirectory s a then s else set_node a (Directory m (getuid s)) s) as s)"
proof (induction as arbitrary: s)
  case Nil
  then show ?case by simp
next
  case (Cons a as)
  let ?s = "if isDirectory s a then s else set_node a (Directory m (getuid s)) s"
  have "untouched q s ?s" using Cons.prems by (simp add: untouched_set_node)
  moreover have "untouched q ?s (fold (\<lambda>a s. if isDirectory s a then s
      else set_node a (Directory m (getuid s)) s) as ?s)"
    using Cons by simp
  ultimately have "untouched q s (fold (\<lambda>a s. if isDirectory s a then s
      else set_node a (Directory m (getuid s)) s) as ?s)"
    by (rule untouched_trans)
  then show ?case by (simp only: fold_simps)
qed

lemma untouched_MkdirAll [frame]:
  "\<forall>a\<in>set (ancestors p). Clean q \<noteq> Clean a \<Longrightarrow> untouched q s (snd (MkdirAll p m s))"
  using untouched_mkdir_fold [of "ancestors p" q s m] by (simp add: MkdirAll_def split: option.split)

section \<open>Successful calls\<close>

lemma ReadFile_Inr: "ReadFile p s = Inr d \<longleftrightarrow> faults s (OpReadFile p) = None \<and> (\<exists>m u. node_at s p = Some (File d m u))"
  by (auto simp: ReadFile_def split: option.splits node.splits)

lemma ReadFile_untouched:
  "untouched p s s' \<Longrightarrow> ReadFile p s' = ReadFile p s"
  by (simp add: untouched_def ReadFile_def split: option.split)

lemma CreateTemp_Inr:
  "CreateTemp d pre s = (Inr t, s') \<Longrightarrow>
   \<exists>n. t = tempName d pre n \<and> node_at s t = None \<and> isDirectory s d \<and>
       s' = set_node t (File [] mode600 (getuid s)) s"
  by (fastforce simp: CreateTemp_def dest: find_Some_mem split: option.splits if_splits)

lemma WriteFile_ok:
  "WriteFile p d m s = (None, s') \<Longrightarrow>
   \<exists>m' u. node_at s' p = Some (File d m' u) \<and> isDirectory s (Dir p) \<and> \<not> isDirectory s p"
  by (auto simp: WriteFile_def Let_def split: option.splits if_splits node.splits prod.splits)

lemma mkdir_exists:
  "list_all (\<lambda>a. isDirectory s a \<and> \<not> isFile s a) (ancestors d) \<Longrightarrow> faults s (OpMkdirAll d) = None \<Longrightarrow>
   MkdirAll d m s = (None, s)"
proof -
  have "fold (\<lambda>a s. if isDirectory s a then s else set_node a (Directory m (getuid s)) s) as s = s"
    if "list_all (\<lambda>a. isDirectory s a \<and> \<not> isFile s a) as" for as
    using that by (induction as) simp_all
  then show "list_all (\<lambda>a. isDirectory s a \<and> \<not> isFile s a) (ancestors d) \<Longrightarrow>
      faults s (OpMkdirAll d) = None \<Longrightarrow> MkdirAll d m s = (None, s)"
    by (auto simp: MkdirAll_def list_ex_iff list_all_iff)
qed

section \<open>A file system with no files and no failures\<close>

definition emptyOs :: os where
  "emptyOs = \<lparr>nodes = [], trace = [], faults = \<lambda>_. None, short = \<lambda>_. 0, tempSeed = 0, getuid = 0\<rparr>"

definition dirOs :: os where
  "dirOs = emptyOs\<lparr>nodes := [(''/v'', Directory mode700 0)]\<rparr>"

lemma find_upt_first: "a < b \<Longrightarrow> P a \<Longrightarrow> List.find P [a..<b] = Some a"
  by (simp add: upt_conv_Cons)

end
