(* ===== verification/Sdk.thy ===== *)
theory Sdk
  imports Prelude "HOL-Library.Word"
begin

text \<open>
  The contract between the daemon and its modules (\<open>pkg/sdk\<close>). The structs of \<open>module.go\<close>,
  \<open>status.go\<close> and \<open>command.go\<close> are records and datatypes with the fields of the source; Go's
  \<open>int\<close> is a 64-bit word, \<open>int32\<close> a 32-bit word. The \<open>Module\<close> interface is the record
  \<open>Module\<close>: one field per method, over the state \<open>'m\<close> of an instance and the state \<open>'w\<close> of
  everything the module shares with the rest of the system (files, keyring, interfaces).
  \<open>ModuleServiceImpl\<close> is the server side of an external plugin (\<open>serve.go\<close>): the methods are
  definitions that check the API version and call the wrapped module. The proxies through which a
  plugin reaches its host are functions of the client they call.
\<close>

section \<open>Errors\<close>

text \<open>\<open>Sentinel\<close> is a package-level error value, \<open>Errorf\<close> an error made from text, and
  \<open>Wrapf p e q\<close> is \<open>fmt.Errorf\<close> with the text \<open>p\<close>, the verb \<open>%w\<close> for \<open>e\<close> and the text \<open>q\<close>.\<close>

datatype goerr = Sentinel string | Errorf string | Wrapf string goerr string

primrec Error :: "goerr \<Rightarrow> string" where
  "Error (Sentinel s) = s"
| "Error (Errorf s) = s"
| "Error (Wrapf p e q) = p @ Error e @ q"

text \<open>\<open>errors.Is\<close> for a sentinel target.\<close>

primrec errorsIs :: "goerr \<Rightarrow> string \<Rightarrow> bool" where
  "errorsIs (Sentinel s) t \<longleftrightarrow> s = t"
| "errorsIs (Errorf s) t \<longleftrightarrow> False"
| "errorsIs (Wrapf p e q) t \<longleftrightarrow> errorsIs e t"

definition ErrSecretNotFound :: goerr where
  "ErrSecretNotFound = Sentinel ''secret not found''"

section \<open>Structs\<close>

record ModuleInfo =
  mi_Name :: string
  mi_Version :: string
  mi_Description :: string
  mi_LicenseFeature :: string

type_synonym ModuleState = string

abbreviation StateDisabled :: ModuleState where "StateDisabled \<equiv> ''disabled''"
abbreviation StateInitializing :: ModuleState where "StateInitializing \<equiv> ''initializing''"
abbreviation StateRunning :: ModuleState where "StateRunning \<equiv> ''running''"
abbreviation StateDegraded :: ModuleState where "StateDegraded \<equiv> ''degraded''"
abbreviation StateStopping :: ModuleState where "StateStopping \<equiv> ''stopping''"
abbreviation StateStopped :: ModuleState where "StateStopped \<equiv> ''stopped''"
abbreviation StateFailed :: ModuleState where "StateFailed \<equiv> ''failed''"

record Status =
  st_State :: ModuleState
  st_Detail :: "(string, string) gomap"

type_synonym HealthLevel = "64 word"

abbreviation Healthy :: HealthLevel where "Healthy \<equiv> 0"
abbreviation Degraded :: HealthLevel where "Degraded \<equiv> 1"
abbreviation Unhealthy :: HealthLevel where "Unhealthy \<equiv> 2"

definition HealthLevel_String :: "HealthLevel \<Rightarrow> string" where
  "HealthLevel_String h =
     (if h = Healthy then ''healthy''
      else if h = Degraded then ''degraded''
      else if h = Unhealthy then ''unhealthy''
      else ''unknown'')"

record HealthReport =
  hr_Level :: HealthLevel
  hr_Message :: string
  hr_CheckedAt :: time

type_synonym EventType = string

abbreviation EventStateChanged :: EventType where "EventStateChanged \<equiv> ''state-changed''"
abbreviation EventHealth :: EventType where "EventHealth \<equiv> ''health''"
abbreviation EventInfo :: EventType where "EventInfo \<equiv> ''info''"
abbreviation EventError :: EventType where "EventError \<equiv> ''error''"

record Event =
  ev_Module :: string
  ev_Type :: EventType
  ev_Message :: string
  ev_At :: time
  ev_Fields :: "(string, string) gomap"

type_synonym FlagType = string

abbreviation FlagString :: FlagType where "FlagString \<equiv> ''string''"
abbreviation FlagBool :: FlagType where "FlagBool \<equiv> ''bool''"
abbreviation FlagInt :: FlagType where "FlagInt \<equiv> ''int''"

record FlagSpec =
  fl_Name :: string
  fl_Shorthand :: string
  fl_Usage :: string
  fl_Default :: string
  fl_Type :: FlagType

datatype CommandSpec = CommandSpec
  (cs_Name: string) (cs_Use: string) (cs_Short: string) (cs_Flags: "FlagSpec list")
  (cs_Subcommands: "CommandSpec list") (cs_Tray: bool) (cs_MinArgs: "64 word") (cs_MaxArgs: "64 word")

record Result =
  rs_Output :: string
  rs_JSON :: bytes
  rs_ExitCode :: "64 word"

section \<open>The interfaces\<close>

text \<open>What \<open>Init\<close> receives: the values the host hands over and the callbacks of its secret store,
  licence checker and event sink. The logger and the metrics registry have no effect the program reads back. A nil
  \<open>HostServices\<close> is \<open>None\<close>.\<close>

record 'w HostServices =
  h_Config :: bytes
  h_DataDir :: string
  h_SecretsGet :: "string \<Rightarrow> 'w \<Rightarrow> (goerr + bytes) \<times> 'w"
  h_SecretsSet :: "string \<Rightarrow> bytes \<Rightarrow> 'w \<Rightarrow> goerr option \<times> 'w"
  h_SecretsDelete :: "string \<Rightarrow> 'w \<Rightarrow> goerr option \<times> 'w"
  h_FeatureEnabled :: "string \<Rightarrow> 'w \<Rightarrow> bool \<times> 'w"
  h_Tier :: "'w \<Rightarrow> string"
  h_Publish :: "Event \<Rightarrow> 'w \<Rightarrow> 'w"

type_synonym ctx = nat

record ('m, 'w) Module =
  m_Info :: "'m \<Rightarrow> ModuleInfo"
  m_Init :: "'w HostServices option \<Rightarrow> 'm \<Rightarrow> 'w \<Rightarrow> goerr option \<times> 'm \<times> 'w"
  m_Start :: "ctx \<Rightarrow> 'm \<Rightarrow> 'w \<Rightarrow> goerr option \<times> 'm \<times> 'w"
  m_Stop :: "'m \<Rightarrow> 'w \<Rightarrow> goerr option \<times> 'm \<times> 'w"
  m_Status :: "'m \<Rightarrow> 'w \<Rightarrow> Status \<times> goerr option"
  m_Health :: "'m \<Rightarrow> 'w \<Rightarrow> HealthReport \<times> 'm \<times> 'w"
  m_Commands :: "'m \<Rightarrow> CommandSpec list"
  m_Dispatch :: "string list \<Rightarrow> (string, string) gomap \<Rightarrow> string list \<Rightarrow> 'm \<Rightarrow> 'w \<Rightarrow>
                   (Result option \<times> goerr option) \<times> 'm \<times> 'w"
  m_ConfigSchema :: "'m \<Rightarrow> bytes"

section \<open>Saturating narrowing\<close>

definition clampInt32 :: "64 word \<Rightarrow> 32 word" where
  "clampInt32 v =
     (if 2147483647 <s v then 2147483647
      else if v <s - 2147483648 then - 2147483648
      else scast v)"

section \<open>Command trees on the wire\<close>

record PbFlagSpec =
  pf_Name :: string
  pf_Shorthand :: string
  pf_Usage :: string
  pf_Default :: string
  pf_Type :: string

datatype PbCommandSpec = PbCommandSpec
  (pc_Name: string) (pc_Use: string) (pc_Short: string) (pc_Flags: "PbFlagSpec list")
  (pc_Subcommands: "PbCommandSpec list") (pc_Tray: bool) (pc_MinArgs: "32 word") (pc_MaxArgs: "32 word")

definition flagSpecToProto :: "FlagSpec \<Rightarrow> PbFlagSpec" where
  "flagSpecToProto f =
     \<lparr>pf_Name = fl_Name f, pf_Shorthand = fl_Shorthand f, pf_Usage = fl_Usage f,
      pf_Default = fl_Default f, pf_Type = fl_Type f\<rparr>"

primrec commandSpecToProto :: "CommandSpec \<Rightarrow> PbCommandSpec" where
  "commandSpecToProto (CommandSpec name use short flags subs tray minA maxA) =
     PbCommandSpec name use short (map flagSpecToProto flags) (map commandSpecToProto subs) tray
       (clampInt32 minA) (clampInt32 maxA)"

section \<open>The plugin's side of the module service\<close>

definition checkVersion :: "string \<Rightarrow> goerr option" where
  "checkVersion v = (if v \<noteq> ''v1'' then Some (Errorf (''unsupported api_version: '' @ v)) else None)"

definition errMsg :: "goerr option \<Rightarrow> string" where
  "errMsg e = (case e of None \<Rightarrow> '''' | Some x \<Rightarrow> Error x)"

definition UnixNano :: "time \<Rightarrow> 64 word" where
  "UnixNano t = word_of_int t"

record StatusResponse =
  sr_State :: string
  sr_Detail :: "(string, string) gomap"
  sr_Error :: string

record HealthResponse =
  hp_Level :: "32 word"
  hp_Message :: string
  hp_CheckedAtUnixNano :: "64 word"

record DispatchResponse =
  dr_Output :: string
  dr_Json :: bytes
  dr_ExitCode :: "32 word"
  dr_Error :: string

text \<open>The handlers. The context \<open>c\<close> of \<open>Impl_Start\<close> is the one the handler receives, that of the call.\<close>

definition Impl_Info :: "('m, 'w) Module \<Rightarrow> string \<Rightarrow> 'm \<Rightarrow> goerr + ModuleInfo" where
  "Impl_Info M v m = (case checkVersion v of Some e \<Rightarrow> Inl e | None \<Rightarrow> Inr (m_Info M m))"

definition Impl_Init :: "('m, 'w) Module \<Rightarrow> string \<Rightarrow> 'm \<Rightarrow> 'w \<Rightarrow> (goerr + unit) \<times> 'm \<times> 'w" where
  "Impl_Init M v m w = (case checkVersion v of Some e \<Rightarrow> (Inl e, m, w) | None \<Rightarrow> (Inr (), m, w))"

definition Impl_Start :: "('m, 'w) Module \<Rightarrow> string \<Rightarrow> ctx \<Rightarrow> 'm \<Rightarrow> 'w \<Rightarrow> (goerr + string) \<times> 'm \<times> 'w" where
  "Impl_Start M v c m w =
     (case checkVersion v of Some e \<Rightarrow> (Inl e, m, w)
      | None \<Rightarrow> (case m_Start M c m w of (e, m', w') \<Rightarrow> (Inr (errMsg e), m', w')))"

definition Impl_Stop :: "('m, 'w) Module \<Rightarrow> string \<Rightarrow> 'm \<Rightarrow> 'w \<Rightarrow> (goerr + string) \<times> 'm \<times> 'w" where
  "Impl_Stop M v m w =
     (case checkVersion v of Some e \<Rightarrow> (Inl e, m, w)
      | None \<Rightarrow> (case m_Stop M m w of (e, m', w') \<Rightarrow> (Inr (errMsg e), m', w')))"

definition Impl_Status :: "('m, 'w) Module \<Rightarrow> string \<Rightarrow> 'm \<Rightarrow> 'w \<Rightarrow> goerr + StatusResponse" where
  "Impl_Status M v m w =
     (case checkVersion v of Some e \<Rightarrow> Inl e
      | None \<Rightarrow> (case m_Status M m w of
                  (st, e) \<Rightarrow> Inr \<lparr>sr_State = st_State st, sr_Detail = st_Detail st, sr_Error = errMsg e\<rparr>))"

definition Impl_Health :: "('m, 'w) Module \<Rightarrow> string \<Rightarrow> 'm \<Rightarrow> 'w \<Rightarrow> (goerr + HealthResponse) \<times> 'm \<times> 'w" where
  "Impl_Health M v m w =
     (case checkVersion v of Some e \<Rightarrow> (Inl e, m, w)
      | None \<Rightarrow> (case m_Health M m w of
                  (r, m', w') \<Rightarrow>
                    (Inr \<lparr>hp_Level = clampInt32 (hr_Level r), hp_Message = hr_Message r,
                          hp_CheckedAtUnixNano = UnixNano (hr_CheckedAt r)\<rparr>, m', w')))"

definition Impl_Commands :: "('m, 'w) Module \<Rightarrow> string \<Rightarrow> 'm \<Rightarrow> goerr + PbCommandSpec list" where
  "Impl_Commands M v m =
     (case checkVersion v of Some e \<Rightarrow> Inl e | None \<Rightarrow> Inr (map commandSpecToProto (m_Commands M m)))"

definition Impl_Dispatch ::
  "('m, 'w) Module \<Rightarrow> string \<Rightarrow> string list \<Rightarrow> (string, string) gomap \<Rightarrow> string list \<Rightarrow> 'm \<Rightarrow> 'w \<Rightarrow>
   (goerr + DispatchResponse) \<times> 'm \<times> 'w" where
  "Impl_Dispatch M v path flags args m w =
     (case checkVersion v of Some e \<Rightarrow> (Inl e, m, w)
      | None \<Rightarrow>
          (case m_Dispatch M path flags args m w of
             ((res, e), m', w') \<Rightarrow>
               (Inr (case res of
                       None \<Rightarrow> \<lparr>dr_Output = '''', dr_Json = [], dr_ExitCode = 0, dr_Error = errMsg e\<rparr>
                     | Some r \<Rightarrow> \<lparr>dr_Output = rs_Output r, dr_Json = rs_JSON r,
                                  dr_ExitCode = clampInt32 (rs_ExitCode r), dr_Error = errMsg e\<rparr>), m', w')))"

definition Impl_ConfigSchema :: "('m, 'w) Module \<Rightarrow> string \<Rightarrow> 'm \<Rightarrow> goerr + bytes" where
  "Impl_ConfigSchema M v m = (case checkVersion v of Some e \<Rightarrow> Inl e | None \<Rightarrow> Inr (m_ConfigSchema M m))"

section \<open>The proxies of a plugin\<close>

text \<open>The gRPC client of the host service is a parameter; every call may fail.\<close>

record HostClient =
  hc_Config :: "goerr + bytes"
  hc_DataDir :: "goerr + string"
  hc_SecretsGet :: "string \<Rightarrow> goerr + bytes \<times> string"
  hc_SecretsSet :: "string \<Rightarrow> bytes \<Rightarrow> goerr + string"
  hc_SecretsDelete :: "string \<Rightarrow> goerr + string"
  hc_FeatureEnabled :: "string \<Rightarrow> goerr + bool"
  hc_Tier :: "goerr + string"

definition proxy_Config :: "HostClient \<Rightarrow> bytes" where
  "proxy_Config h = (case hc_Config h of Inl _ \<Rightarrow> [] | Inr c \<Rightarrow> c)"

definition proxy_DataDir :: "HostClient \<Rightarrow> string" where
  "proxy_DataDir h = (case hc_DataDir h of Inl _ \<Rightarrow> '''' | Inr p \<Rightarrow> p)"

definition SecretsProxy_Get :: "HostClient \<Rightarrow> string \<Rightarrow> goerr + bytes" where
  "SecretsProxy_Get h key =
     (case hc_SecretsGet h key of Inl e \<Rightarrow> Inl e
      | Inr (value, error) \<Rightarrow>
          if error \<noteq> '''' then
            (if error = ''not found'' then Inl ErrSecretNotFound
             else Inl (Errorf (''secrets get: '' @ error)))
          else Inr value)"

definition SecretsProxy_Set :: "HostClient \<Rightarrow> string \<Rightarrow> bytes \<Rightarrow> goerr option" where
  "SecretsProxy_Set h key value =
     (case hc_SecretsSet h key value of Inl e \<Rightarrow> Some e
      | Inr error \<Rightarrow> if error \<noteq> '''' then Some (Errorf (''secrets set: '' @ error)) else None)"

definition SecretsProxy_Delete :: "HostClient \<Rightarrow> string \<Rightarrow> goerr option" where
  "SecretsProxy_Delete h key =
     (case hc_SecretsDelete h key of Inl e \<Rightarrow> Some e
      | Inr error \<Rightarrow> if error \<noteq> '''' then Some (Errorf (''secrets delete: '' @ error)) else None)"

definition LicenseProxy_FeatureEnabled :: "HostClient \<Rightarrow> string \<Rightarrow> bool" where
  "LicenseProxy_FeatureEnabled h key = (case hc_FeatureEnabled h key of Inl _ \<Rightarrow> False | Inr b \<Rightarrow> b)"

definition LicenseProxy_Tier :: "HostClient \<Rightarrow> string" where
  "LicenseProxy_Tier h = (case hc_Tier h of Inl _ \<Rightarrow> '''' | Inr t \<Rightarrow> t)"

section \<open>Facts\<close>

lemma sint_scast_id:
  "- (2 ^ 31) \<le> sint v \<Longrightarrow> sint v < 2 ^ 31 \<Longrightarrow> sint (scast (v :: 64 word) :: 32 word) = sint v"
  by (simp only: scast_eq signed_of_int) (simp add: signed_take_bit_int_eq_self)

text \<open>\<open>clampInt32\<close> is the nearest 32-bit value.\<close>

lemma sint_clampInt32: "sint (clampInt32 v) = max (- (2 ^ 31)) (min (2 ^ 31 - 1) (sint v))"
proof -
  have "sint (2147483647 :: 64 word) = 2147483647" "sint (- 2147483648 :: 64 word) = - 2147483648"
    "sint (2147483647 :: 32 word) = 2147483647" "sint (- 2147483648 :: 32 word) = - 2147483648"
    by simp_all
  then show ?thesis
    using sint_scast_id [of v] by (auto simp: clampInt32_def word_sless_alt)
qed

end
