(* ===== verification/Backoff.thy ===== *)
theory Backoff
  imports Complex_Main Prelude
begin

text \<open>
  The restart backoff of the supervisor (\<open>BackoffConfig\<close> of \<open>internal/daemon/supervisor.go\<close>).
  The \<open>float64\<close> arithmetic is modelled over the reals: the rounding of the mantissa is left out,
  the conversion back to an \<open>int64\<close> duration is not. Go leaves that conversion to the platform
  when the value does not fit; \<open>ovf\<close> is what the platform returns then.
\<close>

record BackoffConfig =
  bc_Initial :: duration
  bc_Max :: duration
  bc_Multiplier :: real
  bc_Jitter :: bool

definition DefaultBackoff :: BackoffConfig where
  "DefaultBackoff = \<lparr>bc_Initial = 100 * 1000000, bc_Max = 30 * second, bc_Multiplier = 2, bc_Jitter = True\<rparr>"

text \<open>Conversion of a float to \<open>int64\<close>: truncation towards zero.\<close>

definition trunc :: "real \<Rightarrow> int" where
  "trunc x = (if 0 \<le> x then \<lfloor>x\<rfloor> else \<lceil>x\<rceil>)"

definition toInt64 :: "(real \<Rightarrow> int) \<Rightarrow> real \<Rightarrow> int" where
  "toInt64 ovf x = (if - (2 ^ 63) \<le> trunc x \<and> trunc x < 2 ^ 63 then trunc x else ovf x)"

text \<open>\<open>r\<close> is the value drawn by \<open>rand.Float64()\<close>.\<close>

definition backoffFor :: "(real \<Rightarrow> int) \<Rightarrow> BackoffConfig \<Rightarrow> nat \<Rightarrow> real \<Rightarrow> duration" where
  "backoffFor ovf bc attempt r =
     (let d0 = toInt64 ovf (of_int (bc_Initial bc) * bc_Multiplier bc ^ attempt);
          d1 = (if d0 > bc_Max bc then bc_Max bc else d0)
      in if bc_Jitter bc then toInt64 ovf (of_int d1 * (1 + r / 10 - 1 / 20)) else d1)"

section \<open>Bounds\<close>

lemma toInt64_fits: "0 \<le> x \<Longrightarrow> x < 2 ^ 63 \<Longrightarrow> toInt64 ovf x = \<lfloor>x\<rfloor>"
  by (simp add: toInt64_def trunc_def floor_less_iff)

text \<open>The delay before jitter: the exponential, truncated and capped.\<close>

definition capped :: "BackoffConfig \<Rightarrow> nat \<Rightarrow> int" where
  "capped bc n = min (bc_Max bc) \<lfloor>of_int (bc_Initial bc) * bc_Multiplier bc ^ n\<rfloor>"

lemma backoff_capped:
  assumes "0 \<le> bc_Initial bc" "0 \<le> bc_Multiplier bc" "0 \<le> bc_Max bc" "bc_Max bc < 2 ^ 62"
    and "of_int (bc_Initial bc) * bc_Multiplier bc ^ n < 2 ^ 63"
    and "0 \<le> r" "r < 1"
  shows "backoffFor ovf bc n r =
           (if bc_Jitter bc then \<lfloor>of_int (capped bc n) * (1 + r / 10 - 1 / 20)\<rfloor> else capped bc n)"
proof -
  let ?x = "of_int (bc_Initial bc) * bc_Multiplier bc ^ n"
  have x: "0 \<le> ?x" using assms by simp
  then have c: "0 \<le> capped bc n" "capped bc n < 2 ^ 62" using assms by (auto simp: capped_def)
  have d1: "(if toInt64 ovf ?x > bc_Max bc then bc_Max bc else toInt64 ovf ?x) = capped bc n"
    using toInt64_fits [OF x assms(5)] by (simp add: capped_def)
  let ?f = "1 + r / 10 - 1 / 20"
  have "of_int (capped bc n) * ?f \<le> of_int (capped bc n) * (2 :: real)"
    by (rule mult_left_mono) (use assms(7) c(1) in auto)
  also have "\<dots> < 2 ^ 63" using c(2) by simp
  finally have "of_int (capped bc n) * ?f < 2 ^ 63" .
  moreover have "0 \<le> of_int (capped bc n) * ?f" using c(1) assms(6) by simp
  ultimately show ?thesis
    unfolding backoffFor_def Let_def d1 by (simp add: toInt64_fits)
qed

text \<open>The backoff is bounded. As long as the exponential fits a duration, the delay before a
  restart lies within five percent of the exponential capped at \<open>Max\<close> (it may exceed \<open>Max\<close> by the
  jitter, and by no more), and is never negative.\<close>

theorem backoff_bounds:
  assumes "0 \<le> bc_Initial bc" "0 \<le> bc_Multiplier bc" "0 \<le> bc_Max bc" "bc_Max bc < 2 ^ 62"
    and "of_int (bc_Initial bc) * bc_Multiplier bc ^ n < 2 ^ 63"
    and "0 \<le> r" "r < 1"
  shows "0 \<le> backoffFor ovf bc n r \<and>
         of_int (capped bc n) * (19 / 20) - 1 < real_of_int (backoffFor ovf bc n r) \<and>
         real_of_int (backoffFor ovf bc n r) \<le> of_int (bc_Max bc) * (21 / 20)"
proof -
  let ?c = "real_of_int (capped bc n)"
  have c: "0 \<le> ?c" "?c \<le> of_int (bc_Max bc)" using assms(1-3) by (auto simp: capped_def)
  let ?y = "?c * (1 + r / 10 - 1 / 20)"
  have lo: "?c * (19 / 20) \<le> ?y" by (rule mult_left_mono) (use c(1) assms(6) in auto)
  have "?y \<le> ?c * (21 / 20)" by (rule mult_left_mono) (use c(1) assms(7) in auto)
  with c(2) have hi: "?y \<le> of_int (bc_Max bc) * (21 / 20)" by linarith
  have y0: "0 \<le> ?y" using lo c(1) by linarith
  show ?thesis
    unfolding backoff_capped [OF assms]
    using lo hi y0 c of_int_floor_le [of ?y] floor_correct [of ?y] by (simp add: le_floor_iff) linarith
qed

theorem backoff_bounds_witness:
  "0 \<le> backoffFor (\<lambda>_. 0) DefaultBackoff 4 (1 / 2) \<and>
   real_of_int (backoffFor (\<lambda>_. 0) DefaultBackoff 4 (1 / 2)) \<le> 31500000000"
  using backoff_bounds [of DefaultBackoff 4 "1 / 2" "\<lambda>_. 0"] by (simp add: DefaultBackoff_def)

end
