(* ===== verification/World.thy ===== *)
theory World
  imports Os_Model Sdk Backoff
begin

text \<open>
  The part of the outside world the daemon itself uses: the file system, the clock and the random
  source. A model that needs more extends the record; module operations and host callbacks act on
  the extended record.
\<close>

record world =
  wos :: os
  wnow :: time
  wrand :: "nat \<Rightarrow> real"
  wdraws :: nat

text \<open>One draw of \<open>rand.Float64()\<close>.\<close>

definition draw :: "'x world_scheme \<Rightarrow> real \<times> 'x world_scheme" where
  "draw w = (wrand w (wdraws w), w\<lparr>wdraws := Suc (wdraws w)\<rparr>)"

text \<open>Run a file system call on the world.\<close>

definition on_os :: "(os \<Rightarrow> 'a \<times> os) \<Rightarrow> 'x world_scheme \<Rightarrow> 'a \<times> 'x world_scheme" where
  "on_os f w = (case f (wos w) of (r, s) \<Rightarrow> (r, w\<lparr>wos := s\<rparr>))"

lemma on_os_simps [simp]:
  "fst (on_os f w) = fst (f (wos w))" "wos (snd (on_os f w)) = snd (f (wos w))"
  "wnow (snd (on_os f w)) = wnow w"
  by (simp_all add: on_os_def split: prod.split)

end
