(* ===== verification/Json.thy ===== *)
theory Json
  imports Go_Strings
begin

text \<open>
  What the program uses of Go's \<open>encoding/json\<close>: the value tree, the printer behind
  \<open>json.Marshal\<close> and \<open>json.MarshalIndent\<close> (one printer, parameterised by the line break and the
  colon), and the parser behind \<open>json.Unmarshal\<close> with its string decoding (escapes, surrogate
  pairs, invalid UTF-8). The parser takes fuel; \<open>pval_enough\<close> shows that twice the length of
  the input plus two is always enough, so \<open>parse\<close> fails only on malformed text. The main fact is
  the round trip \<open>parse_print\<close>: parsing what either printer wrote gives the value back, for
  values whose strings are ASCII. Go's limit of 10000 nesting levels is not modelled.
\<close>

datatype json =
    JNull | JBool bool | JNum string | JStr string | JArr "json list" | JObj "(string \<times> json) list"

section \<open>Printing\<close>

definition hexDigit :: "nat \<Rightarrow> char" where
  "hexDigit n = (if n < 10 then char_of (48 + n) else char_of (87 + n))"

definition escByte :: "char \<Rightarrow> string" where
  "escByte c =
     (let n = of_char c :: nat
      in if n = 34 \<or> n = 92 then [CHR 0x5C, c]
         else if n = 8 then [CHR 0x5C, CHR ''b'']
         else if n = 12 then [CHR 0x5C, CHR ''f'']
         else if n = 10 then [CHR 0x5C, CHR ''n'']
         else if n = 13 then [CHR 0x5C, CHR ''r'']
         else if n = 9 then [CHR 0x5C, CHR ''t'']
         else if n < 32 \<or> n = 60 \<or> n = 62 \<or> n = 38
           then [CHR 0x5C, CHR ''u'', CHR ''0'', CHR ''0'', hexDigit (n div 16), hexDigit (n mod 16)]
         else [c])"

definition byteAt :: "string \<Rightarrow> nat \<Rightarrow> nat" where
  "byteAt s i = (if i < length s then of_char (s ! i) else 0)"

abbreviation isCont :: "nat \<Rightarrow> bool" where
  "isCont b \<equiv> 128 \<le> b \<and> b < 192"

text \<open>The length of the UTF-8 encoded rune at the head of a string, 0 when it is invalid
  (\<open>utf8.DecodeRune\<close> then reports \<open>RuneError\<close> of width 1).\<close>

definition runeLen :: "string \<Rightarrow> nat" where
  "runeLen s =
     (let b0 = byteAt s 0; b1 = byteAt s 1; b2 = byteAt s 2; b3 = byteAt s 3
      in if b0 < 128 then 1
         else if 194 \<le> b0 \<and> b0 \<le> 223 \<and> isCont b1 then 2
         else if 224 \<le> b0 \<and> b0 \<le> 239 \<and> isCont b1 \<and> isCont b2 \<and>
                 (b0 = 224 \<longrightarrow> 160 \<le> b1) \<and> (b0 = 237 \<longrightarrow> b1 < 160) then 3
         else if 240 \<le> b0 \<and> b0 \<le> 244 \<and> isCont b1 \<and> isCont b2 \<and> isCont b3 \<and>
                 (b0 = 240 \<longrightarrow> 144 \<le> b1) \<and> (b0 = 244 \<longrightarrow> b1 < 144) then 4
         else 0)"

function escString :: "string \<Rightarrow> string" where
  "escString [] = []"
| "escString (c # s) =
     (if (of_char c :: nat) < 128 then escByte c @ escString s
      else let n = runeLen (c # s)
           in if n = 0 then CHR 0x5C # ''ufffd'' @ escString s
              else if n = 3 \<and> byteAt (c # s) 0 = 226 \<and> byteAt (c # s) 1 = 128 \<and>
                      (byteAt (c # s) 2 = 168 \<or> byteAt (c # s) 2 = 169)
                then CHR 0x5C # ''u202'' @ [hexDigit (byteAt (c # s) 2 - 160)] @ escString (drop 2 s)
              else take n (c # s) @ escString (drop (n - 1) s))"
  by pat_completeness auto
termination
  by (relation "measure length") auto

definition quote :: "string \<Rightarrow> string" where
  "quote s = CHR 0x22 # escString s @ [CHR 0x22]"

fun jprint :: "(nat \<Rightarrow> string) \<Rightarrow> string \<Rightarrow> nat \<Rightarrow> json \<Rightarrow> string" where
  "jprint nl col n JNull = ''null''"
| "jprint nl col n (JBool b) = (if b then ''true'' else ''false'')"
| "jprint nl col n (JNum l) = l"
| "jprint nl col n (JStr s) = quote s"
| "jprint nl col n (JArr xs) =
     (if xs = [] then ''[]''
      else CHR ''['' # nl (Suc n) @ Join (CHR '','' # nl (Suc n)) (map (jprint nl col (Suc n)) xs) @ nl n @ '']'')"
| "jprint nl col n (JObj kvs) =
     (if kvs = [] then ''{}''
      else CHR ''{'' # nl (Suc n) @
           Join (CHR '','' # nl (Suc n)) (map (\<lambda>(k, v). quote k @ col @ jprint nl col (Suc n) v) kvs) @ nl n @ ''}'')"

definition newline :: "nat \<Rightarrow> string" where
  "newline n = CHR 0x0A # concat (replicate n ''  '')"

definition Marshal :: "json \<Rightarrow> string" where
  "Marshal v = jprint (\<lambda>_. []) '':'' 0 v"

text \<open>\<open>json.MarshalIndent(v, "", "  ")\<close>.\<close>

definition MarshalIndent :: "json \<Rightarrow> string" where
  "MarshalIndent v = jprint newline '': '' 0 v"

section \<open>Parsing\<close>

definition isWs :: "char \<Rightarrow> bool" where
  "isWs c \<longleftrightarrow> of_char c \<in> {9, 10, 13, 32 :: nat}"

definition skipws :: "string \<Rightarrow> string" where
  "skipws s = dropWhile isWs s"

definition hexVal :: "char \<Rightarrow> nat option" where
  "hexVal c =
     (let n = of_char c :: nat
      in if 48 \<le> n \<and> n \<le> 57 then Some (n - 48)
         else if 97 \<le> n \<and> n \<le> 102 then Some (n - 87)
         else if 65 \<le> n \<and> n \<le> 70 then Some (n - 55)
         else None)"

definition getu4 :: "string \<Rightarrow> nat option" where
  "getu4 s =
     (case s of
        a # b # c # d # _ \<Rightarrow>
          (case (hexVal a, hexVal b, hexVal c, hexVal d) of
             (Some x, Some y, Some z, Some w) \<Rightarrow> Some (((x * 16 + y) * 16 + z) * 16 + w)
           | _ \<Rightarrow> None)
      | _ \<Rightarrow> None)"

definition utf8 :: "nat \<Rightarrow> string" where
  "utf8 r =
     (if r < 128 then [char_of r]
      else if r < 2048 then [char_of (192 + r div 64), char_of (128 + r mod 64)]
      else if r < 65536 then
        [char_of (224 + r div 4096), char_of (128 + r div 64 mod 64), char_of (128 + r mod 64)]
      else [char_of (240 + r div 262144), char_of (128 + r div 4096 mod 64),
            char_of (128 + r div 64 mod 64), char_of (128 + r mod 64)])"

abbreviation replacement :: string where
  "replacement \<equiv> [CHR 0xEF, CHR 0xBF, CHR 0xBD]"

text \<open>The rune a \<open>\u\<close> escape denotes and what follows it: a high surrogate takes the low surrogate
  escape after it, any other surrogate is the replacement character.\<close>

definition uescape :: "string \<Rightarrow> (string \<times> string) option" where
  "uescape s =
     (case getu4 s of None \<Rightarrow> None
      | Some r \<Rightarrow>
          let rest = drop 4 s
          in if 55296 \<le> r \<and> r < 57344 then
               (if take 2 rest = CHR 0x5C # ''u'' then
                  (case getu4 (drop 2 rest) of None \<Rightarrow> None
                   | Some r2 \<Rightarrow>
                       if r < 56320 \<and> 56320 \<le> r2 \<and> r2 < 57344
                       then Some (utf8 ((r - 55296) * 1024 + (r2 - 56320) + 65536), drop 6 rest)
                       else Some (replacement, rest))
                else Some (replacement, rest))
             else Some (utf8 r, rest))"

definition simpleEsc :: "char \<Rightarrow> char option" where
  "simpleEsc e =
     (let n = of_char e :: nat
      in if n = 34 \<or> n = 92 \<or> n = 47 then Some e
         else if n = 98 then Some (char_of (8 :: nat))
         else if n = 102 then Some (char_of (12 :: nat))
         else if n = 110 then Some (char_of (10 :: nat))
         else if n = 114 then Some (char_of (13 :: nat))
         else if n = 116 then Some (char_of (9 :: nat))
         else None)"

lemma uescape_length: "uescape s = Some (t, r) \<Longrightarrow> length r \<le> length s"
  by (auto simp: uescape_def Let_def split: option.splits if_splits)

text \<open>Decode a string body up to the closing quote.\<close>

function unq :: "string \<Rightarrow> (string \<times> string) option" where
  "unq [] = None"
| "unq (c # s) =
     (let n = of_char c :: nat
      in if n = 34 then Some ([], s)
         else if n = 92 then
           (case s of [] \<Rightarrow> None
            | e # s' \<Rightarrow>
                if e = CHR ''u'' then
                  (case uescape s' of None \<Rightarrow> None
                   | Some (t, r) \<Rightarrow> map_option (apfst (\<lambda>x. t @ x)) (unq r))
                else (case simpleEsc e of None \<Rightarrow> None
                      | Some d \<Rightarrow> map_option (apfst (\<lambda>x. d # x)) (unq s')))
         else if n < 32 then None
         else if n < 128 then map_option (apfst (\<lambda>x. c # x)) (unq s)
         else let k = runeLen (c # s)
              in if k = 0 then map_option (apfst (\<lambda>x. replacement @ x)) (unq s)
                 else map_option (apfst (\<lambda>x. take k (c # s) @ x)) (unq (drop (k - 1) s)))"
  by pat_completeness auto
termination
  by (relation "measure length") (auto dest: uescape_length)

text \<open>A number literal: the longest prefix the JSON grammar admits.\<close>

definition pfrac :: "string \<Rightarrow> (string \<times> string) option" where
  "pfrac s =
     (case s of
        c # r \<Rightarrow>
          if c = CHR ''.'' then
            (let ds = takeWhile isDigit r in if ds = [] then None else Some (c # ds, dropWhile isDigit r))
          else Some ([], s)
      | [] \<Rightarrow> Some ([], s))"

definition pexp :: "string \<Rightarrow> (string \<times> string) option" where
  "pexp s =
     (case s of
        c # r \<Rightarrow>
          if c = CHR ''e'' \<or> c = CHR ''E'' then
            (let (sg, r') = (case r of x # y \<Rightarrow> if x = CHR ''+'' \<or> x = CHR ''-'' then ([x], y) else ([], r)
                             | [] \<Rightarrow> ([], r));
                 ds = takeWhile isDigit r'
             in if ds = [] then None else Some (c # sg @ ds, dropWhile isDigit r'))
          else Some ([], s)
      | [] \<Rightarrow> Some ([], s))"

definition pnum :: "string \<Rightarrow> (string \<times> string) option" where
  "pnum s =
     (let (sg, r) = (case s of c # r \<Rightarrow> if c = CHR ''-'' then ([c], r) else ([], s) | [] \<Rightarrow> ([], s));
          ds = (case r of c # _ \<Rightarrow> if c = CHR ''0'' then [c] else takeWhile isDigit r | [] \<Rightarrow> [])
      in if ds = [] then None
         else case pfrac (drop (length ds) r) of None \<Rightarrow> None
              | Some (fr, r1) \<Rightarrow>
                  (case pexp r1 of None \<Rightarrow> None
                   | Some (ex, r2) \<Rightarrow> Some (sg @ ds @ fr @ ex, r2)))"

definition pword :: "string \<Rightarrow> json \<Rightarrow> string \<Rightarrow> (json \<times> string) option" where
  "pword w v s = (if HasPrefix s w then Some (v, drop (length w) s) else None)"

fun pval :: "nat \<Rightarrow> string \<Rightarrow> (json \<times> string) option"
  and pelems :: "nat \<Rightarrow> string \<Rightarrow> (json list \<times> string) option"
  and pmembers :: "nat \<Rightarrow> string \<Rightarrow> ((string \<times> json) list \<times> string) option" where
  "pval 0 s = None"
| "pval (Suc f) s =
     (case skipws s of [] \<Rightarrow> None
      | c # r \<Rightarrow>
          if c = CHR 0x22 then map_option (apfst JStr) (unq r)
          else if c = CHR ''['' then
            (if take 1 (skipws r) = '']'' then Some (JArr [], drop 1 (skipws r))
             else map_option (apfst JArr) (pelems f r))
          else if c = CHR ''{'' then
            (if take 1 (skipws r) = ''}'' then Some (JObj [], drop 1 (skipws r))
             else map_option (apfst JObj) (pmembers f r))
          else if c = CHR ''t'' then pword ''true'' (JBool True) (c # r)
          else if c = CHR ''f'' then pword ''false'' (JBool False) (c # r)
          else if c = CHR ''n'' then pword ''null'' JNull (c # r)
          else map_option (apfst JNum) (pnum (c # r)))"
| "pelems 0 s = None"
| "pelems (Suc f) s =
     (case pval f s of None \<Rightarrow> None
      | Some (v, r) \<Rightarrow>
          (case skipws r of [] \<Rightarrow> None
           | c # r' \<Rightarrow>
               if c = CHR '','' then map_option (apfst (\<lambda>x. v # x)) (pelems f r')
               else if c = CHR '']'' then Some ([v], r')
               else None))"
| "pmembers 0 s = None"
| "pmembers (Suc f) s =
     (case skipws s of [] \<Rightarrow> None
      | q # s1 \<Rightarrow>
          if q \<noteq> CHR 0x22 then None
          else case unq s1 of None \<Rightarrow> None
               | Some (k, r) \<Rightarrow>
                   (case skipws r of [] \<Rightarrow> None
                    | c # r1 \<Rightarrow>
                        if c \<noteq> CHR '':'' then None
                        else case pval f r1 of None \<Rightarrow> None
                             | Some (v, r2) \<Rightarrow>
                                 (case skipws r2 of [] \<Rightarrow> None
                                  | d # r3 \<Rightarrow>
                                      if d = CHR '','' then map_option (apfst (\<lambda>x. (k, v) # x)) (pmembers f r3)
                                      else if d = CHR ''}'' then Some ([(k, v)], r3)
                                      else None)))"

definition parse :: "string \<Rightarrow> json option" where
  "parse s =
     (case pval (2 * length s + 2) s of None \<Rightarrow> None
      | Some (v, r) \<Rightarrow> if skipws r = [] then Some v else None)"

section \<open>Laws of the parser\<close>

lemma skipws_length: "length (skipws s) \<le> length s"
  by (simp add: skipws_def length_dropWhile_le)

lemma skipws_Cons_length: "skipws s = c # r \<Longrightarrow> length r < length s"
  using skipws_length [of s] by simp

lemma unq_length: "unq s = Some (t, r) \<Longrightarrow> length r < length s"
proof (induction s arbitrary: t r rule: length_induct)
  case (1 s)
  show ?case
  proof (cases s)
    case Nil
    with 1 show ?thesis by simp
  next
    case (Cons c s')
    have IH: "length r < Suc (length s')" if "unq s1 = Some (t', r)" "length s1 \<le> length s'" for s1 t'
    proof -
      have "length s1 < length s" using that(2) Cons by simp
      with 1(1) that(1) have "length r < length s1" by blast
      with that(2) show ?thesis by simp
    qed
    have "length r < Suc (length s')"
    proof (cases "\<exists>t' s1. unq s1 = Some (t', r) \<and> length s1 \<le> length s'")
      case True
      with IH show ?thesis by blast
    next
      case False
      then have F: "unq s1 = Some (t', r) \<Longrightarrow> \<not> length s1 \<le> length s'" for s1 t' by blast
      show ?thesis
        using 1(2) Cons F [of s'] F [of "drop (runeLen s - 1) s'"] F [of "tl s'"]
        by (auto simp: Let_def dest!: F uescape_length split: if_splits list.splits option.splits)
    qed
    with Cons show ?thesis by simp
  qed
qed

lemma pfrac_length: "pfrac s = Some (t, r) \<Longrightarrow> length r \<le> length s"
  by (auto simp: pfrac_def Let_def length_dropWhile_le le_SucI split: list.splits if_splits)

lemma pexp_length: "pexp s = Some (t, r) \<Longrightarrow> length r \<le> length s"
  by (auto simp: pexp_def Let_def length_dropWhile_le le_SucI split: list.splits if_splits prod.splits)

lemma pnum_length: "pnum s = Some (t, r) \<Longrightarrow> length r < length s"
proof -
  assume a: "pnum s = Some (t, r)"
  obtain sg b where sb: "(case s of c # r \<Rightarrow> if c = CHR ''-'' then ([c], r) else ([], s) | [] \<Rightarrow> ([], s)) = (sg, b)"
    by fastforce
  then have bl: "length b \<le> length s" by (auto split: list.splits if_splits)
  let ?ds = "(case b of c # _ \<Rightarrow> if c = CHR ''0'' then [c] else takeWhile isDigit b | [] \<Rightarrow> [])"
  from a sb obtain fr r1 where nz: "?ds \<noteq> []" and "pfrac (drop (length ?ds) b) = Some (fr, r1)"
      and "\<exists>ex. pexp r1 = Some (ex, r)"
    by (auto simp: pnum_def Let_def split: if_splits option.splits)
  then have "length r \<le> length (drop (length ?ds) b)"
    by (meson pfrac_length pexp_length order_trans)
  moreover have "0 < length b" "0 < length ?ds" using nz by auto
  ultimately have "length r < length b"
    unfolding length_drop by linarith
  with bl show ?thesis by simp
qed

lemma pword_length: "w \<noteq> [] \<Longrightarrow> pword w v s = Some (x, r) \<Longrightarrow> length r < length s"
  by (cases w) (auto simp: pword_def HasPrefix_iff split: if_splits)

lemma pval_length:
  "pval f s = Some (v, r) \<Longrightarrow> length r < length s"
  "pelems f s = Some (vs, r) \<Longrightarrow> length r < length s"
  "pmembers f s = Some (ms, r) \<Longrightarrow> length r < length s"
proof (induction f s and f s and f s arbitrary: v r and vs r and ms r rule: pval_pelems_pmembers.induct)
  case (2 f s)
  then obtain c b where cb: "skipws s = c # b" by (auto split: list.splits)
  then have lt: "length b < length s" and le: "length (c # b) \<le> length s" 
    using skipws_length [of s] by auto
  have "length (skipws b) \<le> length b" by (rule skipws_length)
  then show ?case
    using 2(3) cb lt le 2(1) 2(2)
    by (fastforce dest: unq_length pnum_length pword_length [rotated] split: if_splits)
next
  case (4 f s)
  from 4(3) obtain v1 r1 where 1: "pval f s = Some (v1, r1)" by (auto split: option.splits)
  then have "length r1 < length s" using 4(1) by blast
  moreover from 4(3) 1 obtain c r2 where 2: "skipws r1 = c # r2" by (auto split: list.splits)
  moreover have "length r2 < length r1" using skipws_Cons_length [OF 2] .
  ultimately show ?case
    using 4(2) [OF 1 refl 2] 4(3) 1 by (fastforce split: if_splits)
next
  case (6 f s)
  from 6(3) obtain s1 where q: "skipws s = CHR 0x22 # s1" by (auto split: list.splits if_splits)
  from 6(3) q obtain k r0 where u: "unq s1 = Some (k, r0)" by (auto split: option.splits)
  from 6(3) q u obtain r1 where c: "skipws r0 = CHR '':'' # r1" by (auto split: list.splits if_splits)
  from 6(3) q u c obtain v1 r2 where v: "pval f r1 = Some (v1, r2)" by (auto split: option.splits)
  from 6(3) q u c v obtain d r3 where d: "skipws r2 = d # r3" by (auto split: list.splits)
  have "length r2 < length r1" using 6(1) q u c v by fastforce
  moreover have "length s1 < length s" "length r1 < length r0" "length r3 < length r2" "length r0 < length s1"
    using skipws_Cons_length q c d unq_length u by blast+
  ultimately have "length r3 < length s" by simp
  then show ?case
    using 6(2) [OF q _ u refl c _ v refl d] 6(3) q u c v d by (fastforce split: if_splits)
qed simp_all

text \<open>A result that some fuel reaches is reached with twice the length of the input plus two: every
  nested call consumes a character for each two units of fuel.\<close>

lemma pval_enough:
  "pval f s = Some x \<Longrightarrow> 2 * length s + 2 \<le> g \<Longrightarrow> pval g s = Some x"
  "pelems f s = Some y \<Longrightarrow> 2 * length s + 3 \<le> g \<Longrightarrow> pelems g s = Some y"
  "pmembers f s = Some z \<Longrightarrow> 2 * length s + 3 \<le> g \<Longrightarrow> pmembers g s = Some z"
proof (induction f s and f s and f s arbitrary: x g and y g and z g rule: pval_pelems_pmembers.induct)
  case (2 f s)
  then obtain c b where cb: "skipws s = c # b" by (auto split: list.splits)
  then have lt: "length b < length s" by (rule skipws_Cons_length)
  obtain h where g: "g = Suc h" using 2(4) by (cases g) auto
  have h: "2 * length b + 3 \<le> h" using 2(4) lt g by simp
  have "pelems f b = Some u \<Longrightarrow> pelems h b = Some u" if "c = CHR ''[''" "take 1 (skipws b) \<noteq> '']''" for u
    by (rule 2(1) [OF cb _ that]) (use that h in simp_all)
  moreover have "pmembers f b = Some u \<Longrightarrow> pmembers h b = Some u" if "c = CHR ''{''" "take 1 (skipws b) \<noteq> ''}''" for u
    by (rule 2(2) [OF cb _ _ that]) (use that h in simp_all)
  ultimately show ?case
    using 2(3) cb unfolding g by (simp split: if_splits) auto
next
  case (4 f s)
  obtain h where g: "g = Suc h" using 4(4) by (cases g) auto
  from 4(3) obtain v1 r1 where 1: "pval f s = Some (v1, r1)" by (auto split: option.splits)
  then have lr: "length r1 < length s" by (rule pval_length(1))
  have h1: "pval h s = Some (v1, r1)" using 4(1) [OF 1] 4(4) g by simp
  from 4(3) 1 obtain c r2 where 2: "skipws r1 = c # r2" by (auto split: list.splits)
  have h2: "2 * length r2 + 3 \<le> h" using skipws_Cons_length [OF 2] lr 4(4) g by simp
  have "pelems f r2 = Some u \<Longrightarrow> pelems h r2 = Some u" if "c = CHR '',''" for u
    by (rule 4(2) [OF 1 refl 2 that]) (use h2 in simp_all)
  then show ?case
    using 4(3) 1 2 h1 unfolding g by (simp split: if_splits) auto
next
  case (6 f s)
  obtain h where g: "g = Suc h" using 6(4) by (cases g) auto
  from 6(3) obtain s1 where q: "skipws s = CHR 0x22 # s1" by (auto split: list.splits if_splits)
  from 6(3) q obtain k r0 where u: "unq s1 = Some (k, r0)" by (auto split: option.splits)
  from 6(3) q u obtain r1 where c: "skipws r0 = CHR '':'' # r1" by (auto split: list.splits if_splits)
  from 6(3) q u c obtain v1 r2 where v: "pval f r1 = Some (v1, r2)" by (auto split: option.splits)
  from 6(3) q u c v obtain d r3 where d: "skipws r2 = d # r3" by (auto split: list.splits)
  have l: "length r1 + 2 \<le> length s" "length r3 < length r2" "length r2 < length r1"
    using skipws_Cons_length [OF q] skipws_Cons_length [OF c] unq_length [OF u]
      skipws_Cons_length [OF d] pval_length(1) [OF v] by simp_all
  have hv: "pval h r1 = Some (v1, r2)"
    by (rule 6(1) [OF q _ u refl c _ v]) (use l(1) 6(4) g in simp_all)
  have h3: "2 * length r3 + 3 \<le> h" using l 6(4) g by simp
  have "pmembers f r3 = Some w \<Longrightarrow> pmembers h r3 = Some w" if "d = CHR '',''" for w
    by (rule 6(2) [OF q _ u refl c _ v refl d that]) (use h3 in simp_all)
  then show ?case
    using 6(3) q u c v d hv unfolding g by (simp split: if_splits) auto
qed simp_all

section \<open>Parsing what was printed\<close>

definition ascii :: "string \<Rightarrow> bool" where
  "ascii s \<longleftrightarrow> (\<forall>c\<in>set s. (of_char c :: nat) < 128)"

fun plain :: "json \<Rightarrow> bool" where
  "plain JNull \<longleftrightarrow> True"
| "plain (JBool b) \<longleftrightarrow> True"
| "plain (JNum l) \<longleftrightarrow> False"
| "plain (JStr s) \<longleftrightarrow> ascii s"
| "plain (JArr xs) \<longleftrightarrow> (\<forall>x\<in>set xs. plain x)"
| "plain (JObj kvs) \<longleftrightarrow> (\<forall>(k, v)\<in>set kvs. ascii k \<and> plain v)"

lemma hexVal_hexDigit: "n < 16 \<Longrightarrow> hexVal (hexDigit n) = Some n"
  by (auto simp: hexVal_def hexDigit_def Let_def)

lemma hexVal_zero: "hexVal (CHR ''0'') = Some 0"
  by (simp add: hexVal_def)

lemma getu4_hex: "n < 128 \<Longrightarrow> getu4 (CHR ''0'' # CHR ''0'' # hexDigit (n div 16) # hexDigit (n mod 16) # t) = Some n"
  by (simp add: getu4_def hexVal_hexDigit hexVal_zero)

lemma escByte_unq:
  assumes "(of_char c :: nat) < 128"
  shows "unq (escByte c @ t) = map_option (apfst (\<lambda>x. c # x)) (unq t)"
proof -
  define n :: nat where "n = of_char c"
  have c: "c = char_of n" and n: "n < 128" using assms by (simp_all add: n_def)
  let ?h = "CHR ''0'' # CHR ''0'' # hexDigit (n div 16) # hexDigit (n mod 16) # t"
  have u: "uescape ?h = Some ([c], t)"
    using n by (simp add: uescape_def getu4_hex utf8_def c)
  consider "n = 34 \<or> n = 92" | "n \<in> {8, 12, 10, 13, 9}"
    | "n \<notin> {34, 92, 8, 12, 10, 13, 9}" "n < 32 \<or> n = 60 \<or> n = 62 \<or> n = 38"
    | "n \<notin> {34, 92}" "32 \<le> n" "n \<notin> {60, 62, 38}" by fastforce
  then show ?thesis
  proof cases
    case 1
    then have "c \<noteq> CHR ''u''" by (auto simp: n_def)
    with 1 show ?thesis by (auto simp: escByte_def n_def [symmetric] simpleEsc_def)
  next
    case 2
    then show ?thesis by (auto simp: escByte_def n_def [symmetric] simpleEsc_def c)
  next
    case 3
    then have e: "escByte c @ t = CHR 0x5C # CHR ''u'' # ?h"
      unfolding escByte_def n_def [symmetric] by (simp add: Let_def)
    have "(@) [c] = (#) c" by auto
    then show ?thesis unfolding e by (simp add: u)
  next
    case 4
    then have "escByte c @ t = c # t"
      unfolding escByte_def n_def [symmetric] by (simp add: Let_def)
    with 4 n show ?thesis by (simp add: n_def [symmetric])
  qed
qed

lemma escString_ascii: "ascii s \<Longrightarrow> escString s = concat (map escByte s)"
  by (induction s) (simp_all add: ascii_def)

lemma unq_escString: "ascii s \<Longrightarrow> unq (escString s @ CHR 0x22 # t) = Some (s, t)"
proof -
  assume a: "ascii s"
  then have "unq (concat (map escByte s) @ CHR 0x22 # t) = Some (s, t)"
    by (induction s) (simp_all add: escByte_unq ascii_def)
  with a show ?thesis by (simp add: escString_ascii)
qed

lemma skipws_ws: "list_all isWs w \<Longrightarrow> skipws (w @ s) = skipws s"
  by (induction w) (simp_all add: skipws_def)

lemma skipws_tok: "\<not> isWs c \<Longrightarrow> skipws (c # s) = c # s"
  by (simp add: skipws_def)

lemma isWs_toks [simp]:
  "\<not> isWs (CHR 0x22)" "\<not> isWs (CHR ''['')" "\<not> isWs (CHR '']'')" "\<not> isWs (CHR ''{'')"
  "\<not> isWs (CHR ''}'')" "\<not> isWs (CHR '':'')" "\<not> isWs (CHR '','')" "\<not> isWs (CHR ''t'')"
  "\<not> isWs (CHR ''f'')" "\<not> isWs (CHR ''n'')" "isWs (CHR '' '')" "isWs (CHR 0x0A)"
  by (simp_all add: isWs_def)

definition reads :: "json \<Rightarrow> string \<Rightarrow> bool" where
  "reads v s \<longleftrightarrow> (\<forall>w rest. list_all isWs w \<longrightarrow> (\<exists>f. pval f (w @ s @ rest) = Some (v, rest)))"

lemma readsD: "reads v s \<Longrightarrow> list_all isWs w \<Longrightarrow> \<exists>f. pval f (w @ s @ rest) = Some (v, rest)"
  by (simp add: reads_def)

lemma reads_big:
  "reads v s \<Longrightarrow> list_all isWs w \<Longrightarrow> 2 * length (w @ s @ rest) + 2 \<le> g \<Longrightarrow> pval g (w @ s @ rest) = Some (v, rest)"
  using readsD pval_enough(1) by blast

lemma reads_elems:
  assumes "xs \<noteq> []" and "\<forall>x\<in>set xs. reads x (p x)" and "list_all isWs w" "list_all isWs nl" "list_all isWs w'"
  shows "\<exists>f. pelems f (w @ Join (CHR '','' # nl) (map p xs) @ w' @ CHR '']'' # rest) = Some (xs, rest)"
  using assms
proof (induction xs arbitrary: w rule: list_nonempty_induct)
  case (single x)
  let ?s = "w @ p x @ w' @ CHR '']'' # rest"
  obtain g where "pval g ?s = Some (x, w' @ CHR '']'' # rest)"
    using single readsD [of x "p x" w] by auto
  then have "pelems (Suc g) ?s = Some ([x], rest)"
    using single by (simp add: skipws_ws skipws_tok)
  then show ?case by (simp del: pelems.simps) (rule exI)
next
  case (cons x xs)
  let ?j = "nl @ Join (CHR '','' # nl) (map p xs) @ w' @ CHR '']'' # rest"
  let ?s = "w @ p x @ CHR '','' # ?j"
  obtain f where f: "pelems f ?j = Some (xs, rest)"
    using cons.IH [of nl] cons.prems by auto
  obtain g where g: "2 * length ?s + 3 \<le> g" by blast
  have j: "pelems g ?j = Some (xs, rest)"
    by (rule pval_enough(2) [OF f]) (use g in simp)
  have v: "pval g ?s = Some (x, CHR '','' # ?j)"
    by (rule reads_big) (use cons.prems g in simp_all)
  have "pelems (Suc g) ?s = Some (x # xs, rest)"
    by (simp only: pelems.simps v option.case prod.case skipws_tok isWs_toks not_False_eq_True list.case if_True)
       (simp add: j)
  then show ?case
    using cons.hyps by (simp add: Join_Cons del: pelems.simps) (rule exI)
qed

lemma reads_members:
  assumes "kvs \<noteq> []" and "\<forall>(k, v)\<in>set kvs. ascii k \<and> reads v (p v)"
    and "list_all isWs w" "list_all isWs nl" "list_all isWs w'" "list_all isWs sp"
  shows "\<exists>f. pmembers f (w @ Join (CHR '','' # nl) (map (\<lambda>(k, v). quote k @ CHR '':'' # sp @ p v) kvs)
                         @ w' @ CHR ''}'' # rest) = Some (kvs, rest)"
  using assms
proof (induction kvs arbitrary: w rule: list_nonempty_induct)
  case (single kv)
  obtain k v where kv: "kv = (k, v)" by force
  let ?t = "sp @ p v @ w' @ CHR ''}'' # rest"
  let ?s = "w @ quote k @ CHR '':'' # ?t"
  obtain g where "pval g ?t = Some (v, w' @ CHR ''}'' # rest)"
    using single kv readsD [of v "p v" sp] by auto
  then have "pmembers (Suc g) ?s = Some ([(k, v)], rest)"
    using single kv by (simp add: skipws_ws skipws_tok quote_def unq_escString)
  then show ?case unfolding kv by (simp del: pmembers.simps) (rule exI)
next
  case (cons kv kvs)
  obtain k v where kv: "kv = (k, v)" by force
  let ?J = "Join (CHR '','' # nl) (map (\<lambda>(k, v). quote k @ CHR '':'' # sp @ p v) kvs)"
  let ?j = "nl @ ?J @ w' @ CHR ''}'' # rest"
  let ?t = "sp @ p v @ CHR '','' # ?j"
  let ?s = "w @ quote k @ CHR '':'' # ?t"
  obtain f where f: "pmembers f ?j = Some (kvs, rest)"
    using cons.IH [of nl] cons.prems by auto
  obtain g where g: "2 * length ?t + 3 \<le> g" by blast
  have j: "pmembers g ?j = Some (kvs, rest)"
    by (rule pval_enough(3) [OF f]) (use g in simp)
  have v: "pval g ?t = Some (v, CHR '','' # ?j)"
    by (rule reads_big) (use cons.prems kv g in auto)
  have u: "unq (escString k @ CHR 0x22 # CHR '':'' # ?t) = Some (k, CHR '':'' # ?t)"
    by (rule unq_escString) (use cons.prems kv in simp)
  have q: "skipws ?s = CHR 0x22 # escString k @ CHR 0x22 # CHR '':'' # ?t"
    using cons.prems by (simp add: skipws_ws skipws_tok quote_def)
  have "pmembers (Suc g) ?s = Some ((k, v) # kvs, rest)"
    by (simp only: pmembers.simps q u v option.case prod.case skipws_tok isWs_toks not_False_eq_True list.case if_True if_False)
       (simp add: j)
  then show ?case
    using cons.hyps unfolding kv by (simp add: Join_Cons del: pmembers.simps) (rule exI)
qed


lemma reads_intro:
  assumes "\<not> isWs c" and "\<And>rest. \<exists>f. pval (Suc f) (c # s @ rest) = Some (v, rest)"
  shows "reads v (c # s)"
  unfolding reads_def
proof (intro allI impI)
  fix w rest assume w: "list_all isWs w"
  obtain f where "pval (Suc f) (c # s @ rest) = Some (v, rest)" using assms(2) by blast
  then have "pval (Suc f) (w @ (c # s) @ rest) = Some (v, rest)"
    using w by (simp add: skipws_ws)
  then show "\<exists>f. pval f (w @ (c # s) @ rest) = Some (v, rest)" by (rule exI)
qed

lemma jprint_first: "plain v \<Longrightarrow> \<exists>c s. jprint nl col n v = c # s \<and> \<not> isWs c \<and> c \<noteq> CHR '']''"
  by (cases v) (simp_all add: quote_def)

lemma Join_first: "\<exists>r. Join d (x # xs) = x @ r"
  by (cases xs) simp_all

text \<open>Every printed value is read back, with any white space before it and anything behind it.\<close>

lemma reads_JArr:
  assumes "xs \<noteq> []" and "\<forall>x\<in>set xs. reads x (p x)" and ws: "list_all isWs w" "list_all isWs w'"
    and first: "\<forall>x\<in>set xs. \<exists>c s. p x = c # s \<and> \<not> isWs c \<and> c \<noteq> CHR '']''"
  shows "reads (JArr xs) (CHR ''['' # w @ Join (CHR '','' # w) (map p xs) @ w' @ '']'')"
proof (rule reads_intro)
  fix rest
  let ?b = "w @ Join (CHR '','' # w) (map p xs) @ w' @ CHR '']'' # rest"
  obtain f where f: "pelems f ?b = Some (xs, rest)"
    using reads_elems [OF assms(1,2) ws(1,1,2)] by blast
  obtain y ys where ys: "xs = y # ys" using assms(1) by (cases xs) auto
  with first obtain c s where c: "p y = c # s" "\<not> isWs c" "c \<noteq> CHR '']''" by auto
  obtain r where "Join (CHR '','' # w) (map p xs) = c # r"
    using Join_first [of _ "p y"] ys c(1) by fastforce
  with ws(1) c have "take 1 (skipws ?b) \<noteq> '']''" by (simp add: skipws_ws skipws_tok)
  with f show "\<exists>f. pval (Suc f) (CHR ''['' # (w @ Join (CHR '','' # w) (map p xs) @ w' @ '']'') @ rest)
      = Some (JArr xs, rest)" by (auto simp: skipws_tok)
qed simp

lemma reads_JObj:
  assumes "kvs \<noteq> []" and "\<forall>(k, v)\<in>set kvs. ascii k \<and> reads v (p v)"
    and ws: "list_all isWs w" "list_all isWs w'" "list_all isWs sp"
  shows "reads (JObj kvs) (CHR ''{'' # w @ Join (CHR '','' # w)
           (map (\<lambda>(k, v). quote k @ CHR '':'' # sp @ p v) kvs) @ w' @ ''}'')"
proof (rule reads_intro)
  fix rest
  let ?J = "Join (CHR '','' # w) (map (\<lambda>(k, v). quote k @ CHR '':'' # sp @ p v) kvs)"
  let ?b = "w @ ?J @ w' @ CHR ''}'' # rest"
  obtain f where f: "pmembers f ?b = Some (kvs, rest)"
    using reads_members [OF assms(1,2) ws(1,1,2,3)] by blast
  obtain k v ys where ys: "kvs = (k, v) # ys" using assms(1) by (cases kvs) auto
  obtain r where "?J = CHR 0x22 # r"
    using Join_first [of _ "quote k @ CHR '':'' # sp @ p v"] ys by (fastforce simp: quote_def)
  with ws(1) have "take 1 (skipws ?b) \<noteq> ''}''" by (simp add: skipws_ws skipws_tok)
  with f show "\<exists>f. pval (Suc f) (CHR ''{'' # (w @ ?J @ w' @ ''}'') @ rest) = Some (JObj kvs, rest)"
    by (auto simp: skipws_tok)
qed simp

lemma reads_empty: "reads (JArr []) ''[]''" "reads (JObj []) ''{}''"
  by (auto simp: skipws_tok intro!: reads_intro)

lemma reads_jprint:
  assumes nl: "\<And>k. list_all isWs (nl k)" and sp: "list_all isWs sp"
  shows "plain v \<Longrightarrow> reads v (jprint nl (CHR '':'' # sp) n v)"
proof (induction v arbitrary: n rule: json.induct)
  case (JArr xs)
  have "reads x (jprint nl (CHR '':'' # sp) (Suc n) x)" if "x \<in> set xs" for x using JArr that by simp
  then have "xs \<noteq> [] \<Longrightarrow> reads (JArr xs) (jprint nl (CHR '':'' # sp) n (JArr xs))"
    unfolding jprint.simps using JArr.prems
    by (simp only: if_False) (intro reads_JArr, insert jprint_first, auto simp: nl)
  then show ?case by (cases "xs = []") (simp_all add: reads_empty)
next
  case (JObj kvs)
  have "ascii k \<and> reads v (jprint nl (CHR '':'' # sp) (Suc n) v)" if "(k, v) \<in> set kvs" for k v
    using JObj.IH [OF that, of v] JObj.prems that by fastforce
  then have "kvs \<noteq> [] \<Longrightarrow> reads (JObj kvs) (jprint nl (CHR '':'' # sp) n (JObj kvs))"
    unfolding jprint.simps append_Cons
    by (simp only: if_False) (intro reads_JObj, auto simp: nl sp)
  then show ?case by (cases "kvs = []") (simp_all add: reads_empty)
qed (auto simp: quote_def unq_escString skipws_tok pword_def intro!: reads_intro)

lemma parse_reads: "reads v s \<Longrightarrow> parse s = Some v"
  using reads_big [of v s "[]" "[]"] by (simp add: parse_def skipws_def del: pval.simps)

theorem parse_print:
  assumes "plain v"
  shows "parse (Marshal v) = Some v" and "parse (MarshalIndent v) = Some v"
proof -
  have "list_all isWs (newline k)" for k
    by (induction k) (simp_all add: newline_def)
  then show "parse (MarshalIndent v) = Some v"
    using reads_jprint [of newline "'' ''", OF _ _ assms] by (simp add: MarshalIndent_def parse_reads)
  show "parse (Marshal v) = Some v"
    using reads_jprint [of "\<lambda>_. []" "''''", OF _ _ assms] by (simp add: Marshal_def parse_reads)
qed

section \<open>Decoding into Go values\<close>

text \<open>\<open>json.Unmarshal\<close> of one value into a field of zero value: \<open>null\<close> leaves the field as it is, a
  value of another kind is an error.\<close>

definition decString :: "json \<Rightarrow> string option" where
  "decString j = (case j of JStr s \<Rightarrow> Some s | JNull \<Rightarrow> Some '''' | _ \<Rightarrow> None)"

definition decBool :: "json \<Rightarrow> bool option" where
  "decBool j = (case j of JBool b \<Rightarrow> Some b | JNull \<Rightarrow> Some False | _ \<Rightarrow> None)"

definition decInt :: "json \<Rightarrow> int option" where
  "decInt j = (case j of JNum l \<Rightarrow> Atoi l | JNull \<Rightarrow> Some 0 | _ \<Rightarrow> None)"

text \<open>A map is filled key by key, on top of what an earlier value of the same field left in it.\<close>

fun decMembers :: "(json \<Rightarrow> 'v option) \<Rightarrow> (string \<times> json) list \<Rightarrow> (string, 'v) gomap \<Rightarrow> (string, 'v) gomap option" where
  "decMembers dec [] m = Some m"
| "decMembers dec ((k, j) # kvs) m =
     (case dec j of None \<Rightarrow> None | Some v \<Rightarrow> decMembers dec kvs (put k v m))"

definition decMap :: "(json \<Rightarrow> 'v option) \<Rightarrow> json \<Rightarrow> (string, 'v) gomap option \<Rightarrow> (string, 'v) gomap option option" where
  "decMap dec j old =
     (case j of JNull \<Rightarrow> Some None
      | JObj kvs \<Rightarrow> map_option Some (decMembers dec kvs (case old of None \<Rightarrow> [] | Some m \<Rightarrow> m))
      | _ \<Rightarrow> None)"

fun decSlice :: "(json \<Rightarrow> 'v option) \<Rightarrow> json list \<Rightarrow> 'v list option" where
  "decSlice dec [] = Some []"
| "decSlice dec (j # js) =
     (case (dec j, decSlice dec js) of (Some x, Some xs) \<Rightarrow> Some (x # xs) | _ \<Rightarrow> None)"

text \<open>The fields of a struct: \<open>field\<close> stores the value of one key, lower-cased, into the struct.\<close>

fun decStruct :: "(string \<Rightarrow> json \<Rightarrow> 's \<Rightarrow> 's option) \<Rightarrow> (string \<times> json) list \<Rightarrow> 's \<Rightarrow> 's option" where
  "decStruct field [] x = Some x"
| "decStruct field ((k, j) # kvs) x =
     (case field (ToLower k) j x of None \<Rightarrow> None | Some y \<Rightarrow> decStruct field kvs y)"

definition decObject :: "(string \<Rightarrow> json \<Rightarrow> 's \<Rightarrow> 's option) \<Rightarrow> 's \<Rightarrow> json \<Rightarrow> 's option" where
  "decObject field x j =
     (case j of JObj kvs \<Rightarrow> decStruct field kvs x | JNull \<Rightarrow> Some x | _ \<Rightarrow> None)"

lemma put_new: "k \<notin> fst ` set m \<Longrightarrow> put k v m = m @ [(k, v)]"
  by (induction m) auto

lemma decMembers_encoded:
  assumes "distinct (keys (acc @ m))" and "\<And>v. dec (enc v) = Some v"
  shows "decMembers dec (map (\<lambda>(k, v). (k, enc v)) m) acc = Some (acc @ m)"
  using assms(1)
proof (induction m arbitrary: acc)
  case (Cons kv m)
  then have "fst kv \<notin> fst ` set acc" "distinct (keys ((acc @ [kv]) @ m))" by auto
  then show ?case using Cons.IH [of "acc @ [kv]"] by (cases kv) (simp add: put_new assms(2))
qed simp

end
