(* ===== verification/Atomic.thy ===== *)
theory Atomic
  imports Os_Model
begin

text \<open>
  Replacing a file by writing a temporary file next to it and renaming it, as the daemon does for
  its state and the licence client for its cache. The locale \<open>atomic_file\<close> is the contract of
  such a writer: a failed write leaves the target as it was in every directory state passed
  through, a successful one switches the target from its old node to the new content in the last
  step. \<open>durable_file\<close> adds a reader that decodes what the writer encodes. The lemmas before the
  locales are the steps every writer of this shape is made of.
\<close>

section \<open>The steps of a writer\<close>

definition replaced :: "path \<Rightarrow> bytes \<Rightarrow> os \<Rightarrow> os \<Rightarrow> bool" where
  "replaced p d s s' \<longleftrightarrow>
     node_at s' p = Some (File d mode600 (getuid s)) \<and> faults s' = faults s \<and> getuid s' = getuid s \<and>
     (\<exists>ts. trace s' = trace s @ ts @ [nodes s'] \<and> (\<forall>t\<in>set ts. get t (Clean p) = node_at s p))"

lemma Chmod_ok:
  "Chmod t m s = (None, s') \<Longrightarrow> node_at s t = Some (File d m0 u) \<Longrightarrow> s' = set_node t (File d m u) s"
  by (simp add: Chmod_def split: option.splits)

lemma FileWrite_ok:
  "FileWrite t d s = (None, s') \<Longrightarrow> node_at s t = Some (File d0 m u) \<Longrightarrow> s' = set_node t (File (d0 @ d) m u) s"
  by (simp add: FileWrite_def split: option.splits)

lemma Rename_ok:
  "Rename t p s = (None, s') \<Longrightarrow>
   \<exists>n. node_at s t = Some n \<and> node_at s' p = Some n \<and> faults s' = faults s \<and> getuid s' = getuid s \<and>
       trace s' = trace s @ [nodes s']"
  by (auto simp: Rename_def node_at_def split: option.splits if_splits)

lemma Rename_failed: "Rename t p s = (Some e, s') \<Longrightarrow> s' = s"
  by (auto simp: Rename_def split: option.splits if_splits)

lemma untouched_Some:
  "Clean q \<noteq> Clean p \<Longrightarrow> Chmod p m s = (r, s') \<Longrightarrow> untouched q s s'"
  "Clean q \<noteq> Clean p \<Longrightarrow> FileWrite p d s = (r, s') \<Longrightarrow> untouched q s s'"
  "\<forall>a\<in>set (ancestors p). Clean q \<noteq> Clean a \<Longrightarrow> MkdirAll p m s = (r, s') \<Longrightarrow> untouched q s s'"
  "\<forall>n. Clean q \<noteq> Clean (tempName p pre n) \<Longrightarrow> CreateTemp p pre s = (r', s') \<Longrightarrow> untouched q s s'"
  using untouched_Chmod [of q p s m] untouched_FileWrite [of q p s d] untouched_MkdirAll [of p q s m]
    untouched_CreateTemp [of q p pre s] by auto

text \<open>The temporary file carries the data with mode 0600 once it is created, chmodded and written.\<close>

lemma temp_written:
  assumes "CreateTemp d pre s = (Inr t, s2)" and "Chmod t mode600 s2 = (None, s3)"
    and "FileWrite t data s3 = (None, s4)"
  shows "node_at s4 t = Some (File data mode600 (getuid s))"
proof -
  have s2: "s2 = set_node t (File [] mode600 (getuid s)) s"
    using CreateTemp_Inr [OF assms(1)] by blast
  then have s3: "s3 = set_node t (File [] mode600 (getuid s)) s2"
    using Chmod_ok [OF assms(2)] by simp
  then show ?thesis
    using FileWrite_ok [OF assms(3)] by simp
qed

lemma replaced_by_rename:
  assumes "untouched p s s4" and "node_at s4 t = Some (File data mode600 (getuid s))"
    and "Rename t p s4 = (None, s')"
  shows "replaced p data s s'"
proof -
  obtain ts where ts: "trace s4 = trace s @ ts" "\<forall>t\<in>set ts. get t (Clean p) = node_at s p"
    and f: "faults s4 = faults s" "getuid s4 = getuid s"
    using assms(1) by (auto simp: untouched_def)
  have "node_at s' p = Some (File data mode600 (getuid s))" "faults s' = faults s" "getuid s' = getuid s"
    "trace s' = trace s4 @ [nodes s']"
    using Rename_ok [OF assms(3)] assms(2) f by auto
  then show ?thesis using ts by (auto simp: replaced_def)
qed

text \<open>None of the steps before the rename touches a target that differs from the temporary file and
  from the directories created.\<close>

lemma temp_steps:
  assumes parents: "\<forall>a\<in>set (ancestors d). Clean p \<noteq> Clean a"
    and temp: "\<forall>n. Clean p \<noteq> Clean (tempName d pre n)"
    and 1: "MkdirAll d m s = (r1, s1)" and 2: "CreateTemp d pre s1 = (r2, s2)"
  shows "untouched p s s1" and "untouched p s s2"
    and "r2 = Inr t \<Longrightarrow> Chmod t m' s2 = (r3, s3) \<Longrightarrow> untouched p s s3 \<and> untouched p s (snd (Remove t s3))"
    and "r2 = Inr t \<Longrightarrow> Chmod t m' s2 = (r3, s3) \<Longrightarrow> FileWrite t data s3 = (r4, s4) \<Longrightarrow>
         untouched p s s4 \<and> untouched p s (snd (Remove t s4))"
proof -
  show u1: "untouched p s s1" by (rule untouched_Some(3) [OF parents 1])
  with untouched_Some(4) [OF temp 2] show u2: "untouched p s s2" by (blast intro: untouched_trans)
  have t: "Clean p \<noteq> Clean t" if "r2 = Inr t" using CreateTemp_Inr 2 temp that by blast
  show u3: "untouched p s s3 \<and> untouched p s (snd (Remove t s3))"
    if "r2 = Inr t" "Chmod t m' s2 = (r3, s3)"
    using u2 untouched_Some(1) [OF t that(2)] untouched_Remove [OF t] that(1) by (blast intro: untouched_trans)
  show "untouched p s s4 \<and> untouched p s (snd (Remove t s4))"
    if "r2 = Inr t" "Chmod t m' s2 = (r3, s3)" "FileWrite t data s3 = (r4, s4)"
    using u3 untouched_Some(2) [OF t that(3)] untouched_Remove [OF t] that(1,2) by (blast intro: untouched_trans)
qed

section \<open>The contract\<close>

locale atomic_file =
  fixes store :: "'a \<Rightarrow> path \<Rightarrow> os \<Rightarrow> 'e option \<times> os"
    and content :: "'a \<Rightarrow> bytes"
    and target :: "path \<Rightarrow> path"
    and sane :: "path \<Rightarrow> bool"
  assumes write_failed: "sane p \<Longrightarrow> store v p s = (Some e, s') \<Longrightarrow> untouched (target p) s s'"
    and write_done: "sane p \<Longrightarrow> store v p s = (None, s') \<Longrightarrow> replaced (target p) (content v) s s'"
begin

text \<open>A crash between two calls, or a failed write, leaves the old file or the complete new one.\<close>

lemma crash_safe:
  assumes "sane p" and "store v p s = (r, s')"
  shows "\<exists>ts. trace s' = trace s @ ts \<and>
           (\<forall>t\<in>set ts. get t (Clean (target p)) = node_at s (target p) \<or>
              get t (Clean (target p)) = Some (File (content v) mode600 (getuid s)))"
proof (cases r)
  case None
  with assms write_done have "replaced (target p) (content v) s s'" by blast
  then obtain ts where "trace s' = trace s @ ts @ [nodes s']"
      "\<forall>t\<in>set ts. get t (Clean (target p)) = node_at s (target p)"
      "get (nodes s') (Clean (target p)) = Some (File (content v) mode600 (getuid s))"
    by (auto simp: replaced_def node_at_def)
  then show ?thesis by (intro exI [of _ "ts @ [nodes s']"]) auto
next
  case (Some e)
  with assms write_failed have "untouched (target p) s s'" by blast
  then show ?thesis by (auto simp: untouched_def)
qed

lemma read_after_write:
  "sane p \<Longrightarrow> store v p s = (None, s') \<Longrightarrow> faults s (OpReadFile (target p)) = None \<Longrightarrow>
   ReadFile (target p) s' = Inr (content v)"
  using write_done by (fastforce simp: replaced_def ReadFile_Inr)

lemma read_after_failure:
  "sane p \<Longrightarrow> store v p s = (Some e, s') \<Longrightarrow> ReadFile (target p) s' = ReadFile (target p) s"
  using write_failed by (simp add: ReadFile_untouched)

end

locale durable_file = atomic_file +
  fixes decode :: "bytes \<Rightarrow> 'b option"
    and stored :: "'a \<Rightarrow> 'b"
    and ok :: "'a \<Rightarrow> bool"
  assumes decode_content: "ok v \<Longrightarrow> decode (content v) = Some (stored v)"
begin

lemma load_after_write:
  "sane p \<Longrightarrow> ok v \<Longrightarrow> store v p s = (None, s') \<Longrightarrow> faults s (OpReadFile (target p)) = None \<Longrightarrow>
   \<exists>d. ReadFile (target p) s' = Inr d \<and> decode d = Some (stored v)"
  using read_after_write decode_content by blast

text \<open>What a reader finds in any state a crash can leave, when the old file was readable.\<close>

lemma crash_decode:
  assumes "sane p" "ok v" "store v p s = (r, s')" "node_at s (target p) = Some (File old m u)"
    and "trace s' = trace s @ ts" "t \<in> set ts"
  shows "\<exists>d m u. get t (Clean (target p)) = Some (File d m u) \<and> (d = old \<or> decode d = Some (stored v))"
  using crash_safe [OF assms(1,3)] assms(2,4-) decode_content by fastforce

end

end
