(* ===== verification/State.thy ===== *)
theory State
  imports Json Atomic Sdk
begin

text \<open>
  The daemon's persisted state (\<open>internal/daemon/state.go\<close>): the set of modules the user has
  enabled, read by \<open>LoadState\<close> and replaced on disk by \<open>Save\<close>. The \<open>Enabled\<close> slice is an
  optional list, \<open>None\<close> being Go's nil slice, which prints as \<open>null\<close>. Decoding follows
  \<open>json.Unmarshal\<close> into the struct: keys match case-insensitively, later keys win, unknown keys are
  ignored, \<open>null\<close> sets the slice to nil and a \<open>null\<close> element is the empty string.
\<close>

record PersistedState =
  Enabled :: "string list option"

definition enabledList :: "PersistedState \<Rightarrow> string list" where
  "enabledList ps = (case Enabled ps of None \<Rightarrow> [] | Some xs \<Rightarrow> xs)"

datatype stateErr = ReadErr oserr | DecodeErr

section \<open>Encoding\<close>

definition stateJson :: "PersistedState \<Rightarrow> json" where
  "stateJson ps =
     JObj [(''enabled'', case Enabled ps of None \<Rightarrow> JNull | Some xs \<Rightarrow> JArr (map JStr xs))]"

definition encodeState :: "PersistedState \<Rightarrow> bytes" where
  "encodeState ps = MarshalIndent (stateJson ps)"

section \<open>Decoding\<close>

fun decStrings :: "json list \<Rightarrow> string list option" where
  "decStrings [] = Some []"
| "decStrings (j # js) =
     (case (decString j, decStrings js) of (Some x, Some xs) \<Rightarrow> Some (x # xs) | _ \<Rightarrow> None)"

definition decEnabled :: "json \<Rightarrow> string list option option" where
  "decEnabled j =
     (case j of JNull \<Rightarrow> Some None | JArr js \<Rightarrow> map_option Some (decStrings js) | _ \<Rightarrow> None)"

fun decFields :: "(string \<times> json) list \<Rightarrow> PersistedState \<Rightarrow> PersistedState option" where
  "decFields [] ps = Some ps"
| "decFields ((k, j) # kvs) ps =
     (if ToLower k = ''enabled'' then
        (case decEnabled j of None \<Rightarrow> None | Some e \<Rightarrow> decFields kvs (ps\<lparr>Enabled := e\<rparr>))
      else decFields kvs ps)"

definition decodeState :: "bytes \<Rightarrow> PersistedState option" where
  "decodeState d =
     (case parse d of
        Some (JObj kvs) \<Rightarrow> decFields kvs \<lparr>Enabled = None\<rparr>
      | Some JNull \<Rightarrow> Some \<lparr>Enabled = None\<rparr>
      | _ \<Rightarrow> None)"

section \<open>Operations\<close>

definition LoadState :: "path \<Rightarrow> os \<Rightarrow> stateErr + PersistedState" where
  "LoadState p s =
     (case ReadFile (Clean p) s of
        Inl e \<Rightarrow> (if e = ErrNotExist then Inr \<lparr>Enabled = Some []\<rparr> else Inl (ReadErr e))
      | Inr d \<Rightarrow> (case decodeState d of None \<Rightarrow> Inl DecodeErr | Some ps \<Rightarrow> Inr ps))"

definition Save :: "PersistedState \<Rightarrow> path \<Rightarrow> os \<Rightarrow> oserr option \<times> os" where
  "Save ps p s =
     (case MkdirAll (Dir p) mode700 s of (Some e, s1) \<Rightarrow> (Some e, s1)
      | (None, s1) \<Rightarrow>
     (case CreateTemp (Dir p) ''.state-tmp-'' s1 of (Inl e, s2) \<Rightarrow> (Some e, s2)
      | (Inr t, s2) \<Rightarrow>
     (case Chmod t mode600 s2 of (Some e, s3) \<Rightarrow> (Some e, snd (Remove t s3))
      | (None, s3) \<Rightarrow>
     (case FileWrite t (encodeState ps) s3 of (Some e, s4) \<Rightarrow> (Some e, snd (Remove t s4))
      | (None, s4) \<Rightarrow>
     (case FileClose t s4 of Some e \<Rightarrow> (Some e, snd (Remove t s4))
      | None \<Rightarrow> Rename t p s4)))))"

text \<open>Paths for which the temporary file and the parent directories differ from the target:
  every path whose last element does not have the temporary prefix, except the degenerate ones
  that name one of their own parents.\<close>

definition statePathOk :: "path \<Rightarrow> bool" where
  "statePathOk p \<longleftrightarrow>
     cleanComps p \<noteq> [] \<and> \<not> HasPrefix (last (cleanComps p)) ''.state-tmp-'' \<and>
     list_all (\<lambda>a. Clean a \<noteq> Clean p) (ancestors (Dir p))"

section \<open>Round trip\<close>

lemma decStrings_JStr [simp]: "decStrings (map JStr xs) = Some xs"
  by (induction xs) (simp_all add: decString_def)

lemma decode_encode:
  assumes "list_all ascii (enabledList ps)"
  shows "decodeState (encodeState ps) = Some ps"
proof -
  have "plain (stateJson ps)"
    using assms by (auto simp: stateJson_def enabledList_def ascii_def list_all_iff split: option.splits)
  then have "parse (encodeState ps) = Some (stateJson ps)"
    by (simp add: encodeState_def parse_print(2))
  then show ?thesis
    by (cases ps) (simp add: decodeState_def stateJson_def decEnabled_def ToLower_def lowerByte_def Let_def
        split: option.split)
qed

section \<open>Atomic replacement\<close>

lemma temp_differs:
  assumes "statePathOk p"
  shows "Clean p \<noteq> Clean (tempName (Dir p) ''.state-tmp-'' n)"
proof
  assume "Clean p = Clean (tempName (Dir p) ''.state-tmp-'' n)"
  then have "cleanComps p = cleanComps (Dir p @ sep # ''.state-tmp-'' @ natDigits n)"
    unfolding tempName_def by (rule cleanComps_eqI)
  also have "\<dots> = cleanComps (Dir p) @ [''.state-tmp-'' @ natDigits n]"
    by (rule cleanComps_child) (auto simp: natDigits_plain)
  finally show False using assms by (simp add: statePathOk_def)
qed

lemma parents_differ: "statePathOk p \<Longrightarrow> \<forall>a\<in>set (ancestors (Dir p)). Clean p \<noteq> Clean a"
  by (auto simp: statePathOk_def list_all_iff)

lemma Save_steps:
  assumes p: "statePathOk p" and "Save ps p s = (r, s')"
  shows "case r of Some e \<Rightarrow> untouched p s s' | None \<Rightarrow> replaced p (encodeState ps) s s'"
proof -
  obtain r1 s1 where 1: "MkdirAll (Dir p) mode700 s = (r1, s1)" by fastforce
  obtain r2 s2 where 2: "CreateTemp (Dir p) ''.state-tmp-'' s1 = (r2, s2)" by fastforce
  note steps = temp_steps [OF parents_differ [OF p] allI [OF temp_differs [OF p]] 1 2]
  show ?thesis
  proof (cases r2)
    case (Inl e)
    then show ?thesis using assms(2) 1 2 steps(1,2) by (auto simp: Save_def split: option.splits)
  next
    case (Inr t)
    obtain r3 s3 where 3: "Chmod t mode600 s2 = (r3, s3)" by fastforce
    obtain r4 s4 where 4: "FileWrite t (encodeState ps) s3 = (r4, s4)" by fastforce
    note u3 = steps(3) [OF Inr 3] and u4 = steps(4) [OF Inr 3 4]
    have uid: "getuid s1 = getuid s" using steps(1) by (simp add: untouched_def)
    have fin: "replaced p (encodeState ps) s s'"
      if "r3 = None" "r4 = None" "Rename t p s4 = (None, s')"
    proof (rule replaced_by_rename [OF conjunct1 [OF u4] _ that(3)])
      show "node_at s4 t = Some (File (encodeState ps) mode600 (getuid s))"
        using temp_written [of "Dir p" "''.state-tmp-''" s1 t s2 s3 "encodeState ps" s4] 2 3 4 Inr that(1,2) uid
        by simp
    qed
    show ?thesis
      using assms(2) 1 2 3 4 Inr steps(1) u3 u4 fin
      by (auto simp: Save_def split: option.splits dest: Rename_failed)
  qed
qed

interpretation saved: durable_file Save encodeState "\<lambda>p. p" statePathOk decodeState "\<lambda>ps. ps"
  "\<lambda>ps. list_all ascii (enabledList ps)"
  using Save_steps decode_encode by unfold_locales fastforce+

text \<open>Without failures, in an existing directory, the save goes through and changes no other path.\<close>

lemma Save_succeeds:
  assumes p: "statePathOk p" and nofault: "\<And>c. faults s c = None"
    and dirs: "list_all (\<lambda>a. isDirectory s a \<and> \<not> isFile s a) (ancestors (Dir p))"
    and dir: "isDirectory s (Dir p)" "\<not> isDirectory s p"
    and fresh: "node_at s (tempName (Dir p) ''.state-tmp-'' (tempSeed s)) = None"
  shows "\<exists>s'. Save ps p s = (None, s') \<and> (\<forall>q. Clean q \<noteq> Clean p \<longrightarrow> node_at s' q = node_at s q)"
proof -
  let ?t = "tempName (Dir p) ''.state-tmp-'' (tempSeed s)"
  have "cleanComps ?t = cleanComps (Dir p) @ [''.state-tmp-'' @ natDigits (tempSeed s)]"
    unfolding tempName_def by (rule cleanComps_child) (auto simp: natDigits_plain)
  then have dt: "Clean (Dir p) \<noteq> Clean ?t"
    using cleanComps_eqI [of "Dir p" ?t] by auto
  have pt: "Clean p \<noteq> Clean ?t" by (rule temp_differs [OF p])
  have t: "CreateTemp (Dir p) ''.state-tmp-'' s = (Inr ?t, set_node ?t (File [] mode600 (getuid s)) s)"
    using nofault dir(1) fresh by (simp add: CreateTemp_def find_upt_first)
  have d: "isDirectory (set_node ?t n s0) q = isDirectory s0 q" if "Clean q \<noteq> Clean ?t" for n s0 q
    using that by (simp add: isDirectory_def)
  have dd: "isDirectory (set_node ?t n s0) (Dir p) = isDirectory s0 (Dir p)"
    and dp: "isDirectory (set_node ?t n s0) p = isDirectory s0 p" for n s0
    using d dt pt by simp_all
  have wr: "Chmod ?t mode600 (set_node ?t (File [] mode600 (getuid s)) s) = (None, set_node ?t (File [] mode600 (getuid s)) (set_node ?t (File [] mode600 (getuid s)) s))"
    using nofault by (simp add: Chmod_def)
  show ?thesis
    using nofault dir
    by (simp add: Save_def mkdir_exists [OF dirs] t wr FileWrite_def FileClose_def Rename_def dd dp)
       (use fresh in \<open>simp add: node_at_def\<close>)
qed

lemma load_saved:
  assumes "statePathOk p" and "list_all ascii (enabledList ps)" and "Save ps p s = (None, s')"
    and "faults s (OpReadFile (Clean p)) = None"
  shows "LoadState p s' = Inr ps"
proof -
  have r: "replaced p (encodeState ps) s s'" using Save_steps [OF assms(1,3)] by simp
  then have "ReadFile (Clean p) s' = Inr (encodeState ps)"
    using assms(4) by (simp add: replaced_def ReadFile_Inr node_at_def)
  then show ?thesis using decode_encode [OF assms(2)] by (simp add: LoadState_def)
qed

section \<open>Properties\<close>

text \<open>C4: Saving the state is crash-safe. Whichever calls of the file system fail, every directory state that
  \<open>Save\<close> passes through shows at the target path either the node that was there before or the
  complete new file with mode 0600; a save that reports an error has left the old node in place.\<close>

theorem save_crash_safe:
  assumes "statePathOk p" and "Save ps p s = (r, s')"
  shows "\<exists>ts. trace s' = trace s @ ts \<and>
           (\<forall>t\<in>set ts. get t (Clean p) = node_at s p \<or>
              get t (Clean p) = Some (File (encodeState ps) mode600 (getuid s))) \<and>
           (r \<noteq> None \<longrightarrow> node_at s' p = node_at s p)"
proof -
  have "r \<noteq> None \<longrightarrow> node_at s' p = node_at s p"
    using Save_steps [OF assms] by (auto simp: untouched_def split: option.splits)
  then show ?thesis using saved.crash_safe [OF assms] by auto
qed

theorem save_crash_safe_witness:
  "\<exists>ts. trace (snd (Save \<lparr>Enabled = Some [''squawk'']\<rparr> ''/v/state.json'' emptyOs)) = trace emptyOs @ ts \<and>
     (\<forall>t\<in>set ts. get t (Clean ''/v/state.json'') = None \<or>
        get t (Clean ''/v/state.json'') = Some (File (encodeState \<lparr>Enabled = Some [''squawk'']\<rparr>) mode600 0))"
proof -
  have "statePathOk ''/v/state.json''"
    by (simp add: statePathOk_def cleanComps_def cleanStep_def Dir_def ancestors_def Clean_def upt_rec)
  from save_crash_safe [OF this surjective_pairing, of "\<lparr>Enabled = Some [''squawk'']\<rparr>" emptyOs]
  show ?thesis by (auto simp: emptyOs_def node_at_def)
qed

text \<open>Loading gives back what was saved. When \<open>Save\<close> succeeds and the file can be read,
  \<open>LoadState\<close> returns the saved state, for module names in ASCII.\<close>

theorem load_after_save:
  assumes "statePathOk p" and "list_all ascii (enabledList ps)" and "Save ps p s = (None, s')"
    and "faults s (OpReadFile (Clean p)) = None"
  shows "LoadState p s' = Inr ps"
  by (rule load_saved [OF assms])

theorem load_after_save_witness:
  "LoadState ''/v/state.json'' (snd (Save \<lparr>Enabled = Some [''squawk'']\<rparr> ''/v/state.json'' dirOs)) =
     Inr \<lparr>Enabled = Some [''squawk'']\<rparr>"
proof -
  let ?ps = "\<lparr>Enabled = Some [''squawk'']\<rparr>"
  note ev = emptyOs_def cleanComps_def cleanStep_def Dir_def ancestors_def Clean_def upt_rec isDirectory_def isFile_def
    node_at_def dirOs_def tempName_def natDigits.simps
  have ok: "statePathOk ''/v/state.json''" by (simp add: statePathOk_def ev)
  have a: "list_all ascii (enabledList ?ps)" by (simp add: enabledList_def ascii_def)
  have "\<exists>s'. Save ?ps ''/v/state.json'' dirOs = (None, s') \<and>
      (\<forall>q. Clean q \<noteq> Clean ''/v/state.json'' \<longrightarrow> node_at s' q = node_at dirOs q)"
    by (rule Save_succeeds [OF ok]) (simp_all add: ev)
  then have "Save ?ps ''/v/state.json'' dirOs = (None, snd (Save ?ps ''/v/state.json'' dirOs))" by auto
  from load_after_save [OF ok a this] show ?thesis by (simp add: dirOs_def emptyOs_def)
qed

end
