(* ===== verification/Supervisor.thy ===== *)
theory Supervisor
  imports World State
begin

text \<open>
  The module supervisor (\<open>internal/daemon/supervisor.go\<close> and \<open>dispatch.go\<close>). A \<open>Factory\<close> is
  the fresh instance it builds; \<open>M\<close> is the \<open>Module\<close> interface of the instances. A cancellable
  context is a number: \<open>nextCtx\<close> is the next unused one and \<open>cancelled\<close> the list of those whose
  \<open>cancel\<close> was called. \<open>pending\<close> holds the goroutines waiting in \<open>scheduleRestart\<close>, by module name
  and deadline, and \<open>reports\<close> the ones that failed to restart a module and are about to call
  \<open>ReportFailure\<close>: the code drops the lock between the two. Every definition below is the code of
  one critical section, so that a run of the daemon is a sequence of them in any order
  (\<open>Supervisor_Steps\<close>). Log lines are left out. The host
  factory is a call that may read and change the world: the daemon's reads the module's configuration
  file and creates its data directory each time. Time is formatted by the parameter \<open>RFC3339\<close>,
  since the text depends on the host's time zone.
\<close>

section \<open>State\<close>

definition ErrUnknownModule :: goerr where
  "ErrUnknownModule = Sentinel ''unknown module''"

record 'w Config =
  c_Host :: "string \<Rightarrow> 'w \<Rightarrow> 'w HostServices option \<times> 'w"
  c_StatePath :: path
  c_Backoff :: BackoffConfig
  c_MaxRestarts :: int
  c_ovf :: "real \<Rightarrow> int"
  c_RFC3339 :: "time \<Rightarrow> string"

record ('m, 'w) moduleState =
  ms_factory :: 'm
  ms_instance :: 'm
  ms_state :: ModuleState
  ms_restartAttempt :: int
  ms_nextRestartAt :: time
  ms_host :: "'w HostServices option"
  ms_ctx :: ctx

record ('m, 'w) Supervisor =
  modules :: "(string, 'm) gomap"
  loaded :: "(string, ('m, 'w) moduleState) gomap"
  persisted :: PersistedState
  maxRestart :: int
  lifeDone :: bool
  pending :: "(string \<times> time) list"
  reports :: "string list"
  nextCtx :: ctx
  cancelled :: "ctx list"

text \<open>\<open>New\<close>: the registry maps the name each factory's instance reports to the factory; a later
  factory replaces an earlier one of the same name.\<close>

definition New :: "('m, 'w) Module \<Rightarrow> 'w Config \<Rightarrow> 'm list \<Rightarrow> ('m, 'w) Supervisor" where
  "New M cfg factories =
     \<lparr>modules = fold (\<lambda>m ms. put (mi_Name (m_Info M m)) m ms) factories [],
      loaded = [],
      persisted = \<lparr>Enabled = Some []\<rparr>,
      maxRestart = (if c_MaxRestarts cfg = 0 then 5 else c_MaxRestarts cfg),
      lifeDone = False, pending = [], reports = [], nextCtx = 0, cancelled = []\<rparr>"

section \<open>Private helpers\<close>

definition addToEnabled :: "string \<Rightarrow> PersistedState \<Rightarrow> PersistedState" where
  "addToEnabled name ps =
     (if name \<in> set (enabledList ps) then ps else ps\<lparr>Enabled := Some (enabledList ps @ [name])\<rparr>)"

definition removeFromEnabled :: "string \<Rightarrow> PersistedState \<Rightarrow> PersistedState" where
  "removeFromEnabled name ps = ps\<lparr>Enabled := map_option (filter (\<lambda>n. n \<noteq> name)) (Enabled ps)\<rparr>"

definition publishEvent ::
  "('x world_scheme) Config \<Rightarrow> ('m, 'x world_scheme) Supervisor \<Rightarrow> string \<Rightarrow> EventType \<Rightarrow> string \<Rightarrow>
   (string, string) gomap \<Rightarrow> 'x world_scheme \<Rightarrow> 'x world_scheme" where
  "publishEvent cfg s name evType msg kvs w =
     (case (case get (loaded s) name of Some ms \<Rightarrow> (ms_host ms, w) | None \<Rightarrow> c_Host cfg name w) of
        (None, w1) \<Rightarrow> w1
      | (Some h, w1) \<Rightarrow>
          h_Publish h \<lparr>ev_Module = name, ev_Type = evType, ev_Message = msg, ev_At = wnow w1,
                       ev_Fields = kvs\<rparr> w1)"

definition cancel :: "ctx \<Rightarrow> ('m, 'w) Supervisor \<Rightarrow> ('m, 'w) Supervisor" where
  "cancel c s = s\<lparr>cancelled := c # cancelled s\<rparr>"

definition savePersisted ::
  "('x world_scheme) Config \<Rightarrow> ('m, 'x world_scheme) Supervisor \<Rightarrow> 'x world_scheme \<Rightarrow> 'x world_scheme" where
  "savePersisted cfg s w = snd (on_os (Save (persisted s) (c_StatePath cfg)) w)"

section \<open>Load and Unload\<close>

text \<open>The licence gate of \<open>Load\<close>. With no host the call \<open>host.License()\<close> dereferences nil.\<close>

definition nilPanic :: goerr where
  "nilPanic = Sentinel ''runtime error: invalid memory address or nil pointer dereference''"

definition licenseGate ::
  "('x world_scheme) HostServices option \<Rightarrow> string \<Rightarrow> string \<Rightarrow> 'x world_scheme \<Rightarrow>
   goerr option \<times> 'x world_scheme" where
  "licenseGate host feature name w =
     (if feature = '''' then (None, w)
      else case host of None \<Rightarrow> (Some nilPanic, w)
           | Some h \<Rightarrow>
               (case h_FeatureEnabled h feature w of
                  (enabled, w') \<Rightarrow>
                    (if enabled then None
                     else Some (Errorf (''license feature '' @ Quote feature @ '' not enabled for module '' @ Quote name)),
                     w')))"

definition Load ::
  "('x world_scheme) Config \<Rightarrow> ('m, 'x world_scheme) Module \<Rightarrow> string \<Rightarrow> ('m, 'x world_scheme) Supervisor \<Rightarrow>
   'x world_scheme \<Rightarrow> goerr option \<times> ('m, 'x world_scheme) Supervisor \<times> 'x world_scheme" where
  "Load cfg M name s w =
     (if get (loaded s) name \<noteq> None then (None, s, w)
      else case get (modules s) name of
        None \<Rightarrow> (Some (Wrapf '''' ErrUnknownModule ('': '' @ name)), s, w)
      | Some factory \<Rightarrow>
          (case c_Host cfg name w of
             (host, w0) \<Rightarrow>
             (case licenseGate host (mi_LicenseFeature (m_Info M factory)) name w0 of
               (Some e, w1) \<Rightarrow> (Some e, s, w1)
             | (None, w1) \<Rightarrow>
                 let w2 = publishEvent cfg s name EventStateChanged StateInitializing [] w1
                 in case m_Init M host factory w2 of
                      (Some e, m1, w3) \<Rightarrow>
                        (Some (Wrapf (''init '' @ Quote name @ '': '') e ''''), s,
                         publishEvent cfg s name EventError '''' [(''error'', Error e)] w3)
                    | (None, m1, w3) \<Rightarrow>
                        let c = nextCtx s;
                            s1 = s\<lparr>nextCtx := Suc c\<rparr>;
                            w4 = publishEvent cfg s1 name EventStateChanged StateRunning [] w3
                        in case m_Start M c m1 w4 of
                             (Some e, m2, w5) \<Rightarrow>
                               let s2 = cancel c s1
                               in (Some (Wrapf (''start '' @ Quote name @ '': '') e ''''), s2,
                                   publishEvent cfg s2 name EventStateChanged StateFailed []
                                     (publishEvent cfg s2 name EventError '''' [(''error'', Error e)] w5))
                           | (None, m2, w5) \<Rightarrow>
                               let ms = \<lparr>ms_factory = factory, ms_instance = m2, ms_state = StateRunning,
                                         ms_restartAttempt = 0, ms_nextRestartAt = zeroTime, ms_host = host,
                                         ms_ctx = c\<rparr>;
                                   s2 = s1\<lparr>loaded := put name ms (loaded s1),
                                           persisted := addToEnabled name (persisted s1)\<rparr>
                               in (None, s2, savePersisted cfg s2 w5))))"

definition stopLocked ::
  "('x world_scheme) Config \<Rightarrow> ('m, 'x world_scheme) Module \<Rightarrow> string \<Rightarrow> ('m, 'x world_scheme) Supervisor \<Rightarrow>
   'x world_scheme \<Rightarrow> ('m, 'x world_scheme) Supervisor \<times> 'x world_scheme" where
  "stopLocked cfg M name s w =
     (case get (loaded s) name of None \<Rightarrow> (s, w)
      | Some ms \<Rightarrow>
          let w1 = publishEvent cfg s name EventStateChanged StateStopping [] w
          in case m_Stop M (ms_instance ms) w1 of
               (_, m1, w2) \<Rightarrow>
                 let s1 = cancel (ms_ctx ms) s;
                     w3 = publishEvent cfg s1 name EventStateChanged StateStopped [] w2
                 in (s1\<lparr>loaded := del name (loaded s1)\<rparr>, w3))"

definition Unload ::
  "('x world_scheme) Config \<Rightarrow> ('m, 'x world_scheme) Module \<Rightarrow> string \<Rightarrow> ('m, 'x world_scheme) Supervisor \<Rightarrow>
   'x world_scheme \<Rightarrow> ('m, 'x world_scheme) Supervisor \<times> 'x world_scheme" where
  "Unload cfg M name s w =
     (if get (loaded s) name = None then (s, w)
      else case stopLocked cfg M name s w of
             (s1, w1) \<Rightarrow>
               let s2 = s1\<lparr>persisted := removeFromEnabled name (persisted s1)\<rparr>
               in (s2, savePersisted cfg s2 w1))"

section \<open>Boot and shutdown\<close>

definition loadPersistedState ::
  "('x world_scheme) Config \<Rightarrow> ('m, 'x world_scheme) Supervisor \<Rightarrow> 'x world_scheme \<Rightarrow>
   stateErr + ('m, 'x world_scheme) Supervisor" where
  "loadPersistedState cfg s w =
     (case LoadState (c_StatePath cfg) (wos w) of Inl e \<Rightarrow> Inl e | Inr ps \<Rightarrow> Inr (s\<lparr>persisted := ps\<rparr>))"

fun loadAll ::
  "('x world_scheme) Config \<Rightarrow> ('m, 'x world_scheme) Module \<Rightarrow> string list \<Rightarrow> ('m, 'x world_scheme) Supervisor \<Rightarrow>
   'x world_scheme \<Rightarrow> ('m, 'x world_scheme) Supervisor \<times> 'x world_scheme" where
  "loadAll cfg M [] s w = (s, w)"
| "loadAll cfg M (name # names) s w =
     (case Load cfg M name s w of (_, s1, w1) \<Rightarrow> loadAll cfg M names s1 w1)"

definition StartEnabled ::
  "('x world_scheme) Config \<Rightarrow> ('m, 'x world_scheme) Module \<Rightarrow> ('m, 'x world_scheme) Supervisor \<Rightarrow>
   'x world_scheme \<Rightarrow> stateErr option \<times> ('m, 'x world_scheme) Supervisor \<times> 'x world_scheme" where
  "StartEnabled cfg M s w =
     (case loadPersistedState cfg s w of Inl e \<Rightarrow> (Some e, s, w)
      | Inr s1 \<Rightarrow> (None, loadAll cfg M (enabledList (persisted s1)) s1 w))"

fun stopAll ::
  "('x world_scheme) Config \<Rightarrow> ('m, 'x world_scheme) Module \<Rightarrow> string list \<Rightarrow> ('m, 'x world_scheme) Supervisor \<Rightarrow>
   'x world_scheme \<Rightarrow> ('m, 'x world_scheme) Supervisor \<times> 'x world_scheme" where
  "stopAll cfg M [] s w = (s, w)"
| "stopAll cfg M (name # names) s w =
     (case stopLocked cfg M name s w of (s1, w1) \<Rightarrow> stopAll cfg M names s1 w1)"

definition lifeStop :: "('m, 'w) Supervisor \<Rightarrow> ('m, 'w) Supervisor" where
  "lifeStop s = s\<lparr>lifeDone := True\<rparr>"

definition Shutdown ::
  "('x world_scheme) Config \<Rightarrow> ('m, 'x world_scheme) Module \<Rightarrow> ('m, 'x world_scheme) Supervisor \<Rightarrow>
   'x world_scheme \<Rightarrow> ('m, 'x world_scheme) Supervisor \<times> 'x world_scheme" where
  "Shutdown cfg M s w = stopAll cfg M (rev (sort (keys (loaded s)))) (lifeStop s) w"

section \<open>Failures and restarts\<close>

definition ReportFailure ::
  "('x world_scheme) Config \<Rightarrow> string \<Rightarrow> ('m, 'x world_scheme) Supervisor \<Rightarrow> 'x world_scheme \<Rightarrow>
   ('m, 'x world_scheme) Supervisor \<times> 'x world_scheme" where
  "ReportFailure cfg name s w =
     (case get (loaded s) name of None \<Rightarrow> (s, w)
      | Some ms \<Rightarrow>
          let n = ms_restartAttempt ms + 1
          in if n \<ge> maxRestart s then
               let s1 = s\<lparr>loaded := put name (ms\<lparr>ms_restartAttempt := n, ms_state := StateFailed\<rparr>) (loaded s)\<rparr>
               in (s1, publishEvent cfg s1 name EventError
                         (''max restarts ('' @ Itoa (maxRestart s) @ '') exceeded'') []
                         (publishEvent cfg s1 name EventStateChanged StateFailed [] w))
             else
               let (r, w') = (if bc_Jitter (c_Backoff cfg) then draw w else (0, w));
                   d = backoffFor (c_ovf cfg) (c_Backoff cfg) (nat (n - 1)) r;
                   due = wnow w' + d;
                   ms' = ms\<lparr>ms_restartAttempt := n, ms_nextRestartAt := due, ms_state := StateDegraded\<rparr>;
                   s1 = s\<lparr>loaded := put name ms' (loaded s), pending := pending s @ [(name, due)]\<rparr>
               in (s1, publishEvent cfg s1 name EventStateChanged StateDegraded
                         [(''restart_at'', c_RFC3339 cfg due)] w'))"

text \<open>The body of \<open>scheduleRestart\<close> once its timer has fired; the flag says that the goroutine goes on
  to call \<open>ReportFailure\<close>.\<close>

definition restartNow ::
  "('x world_scheme) Config \<Rightarrow> ('m, 'x world_scheme) Module \<Rightarrow> string \<Rightarrow> ('m, 'x world_scheme) Supervisor \<Rightarrow>
   'x world_scheme \<Rightarrow> bool \<times> ('m, 'x world_scheme) Supervisor \<times> 'x world_scheme" where
  "restartNow cfg M name s w =
     (case get (loaded s) name of None \<Rightarrow> (False, s, w)
      | Some ms \<Rightarrow>
          (case m_Stop M (ms_instance ms) w of
             (_, m0, w1) \<Rightarrow>
               let s1 = cancel (ms_ctx ms) (s\<lparr>loaded := put name (ms\<lparr>ms_instance := m0\<rparr>) (loaded s)\<rparr>);
                   c = nextCtx s1;
                   s2 = s1\<lparr>nextCtx := Suc c\<rparr>;
                   w2 = publishEvent cfg s2 name EventStateChanged StateInitializing [] w1
               in case m_Init M (ms_host ms) (ms_factory ms) w2 of
                    (Some e, m1, w3) \<Rightarrow>
                      let s3 = cancel c s2
                      in (True, s3, publishEvent cfg s3 name EventError (''restart init failed: '' @ Error e) [] w3)
                  | (None, m1, w3) \<Rightarrow>
                      let w4 = publishEvent cfg s2 name EventStateChanged StateRunning [] w3
                      in case m_Start M c m1 w4 of
                           (Some e, m2, w5) \<Rightarrow>
                             let s3 = cancel c s2
                             in (True, s3, publishEvent cfg s3 name EventError (''restart start failed: '' @ Error e) [] w5)
                         | (None, m2, w5) \<Rightarrow>
                             (False,
                              s2\<lparr>loaded := put name (ms\<lparr>ms_instance := m2, ms_state := StateRunning, ms_ctx := c\<rparr>)
                                            (loaded s2)\<rparr>,
                              w5)))"

definition scheduleRestart ::
  "('x world_scheme) Config \<Rightarrow> ('m, 'x world_scheme) Module \<Rightarrow> string \<Rightarrow> ('m, 'x world_scheme) Supervisor \<Rightarrow>
   'x world_scheme \<Rightarrow> ('m, 'x world_scheme) Supervisor \<times> 'x world_scheme" where
  "scheduleRestart cfg M name s w =
     (case restartNow cfg M name s w of
        (failed, s1, w1) \<Rightarrow> if failed then ReportFailure cfg name s1 w1 else (s1, w1))"

section \<open>Queries\<close>

definition Sup_Status ::
  "('m, 'w) Module \<Rightarrow> string \<Rightarrow> ('m, 'w) Supervisor \<Rightarrow> 'w \<Rightarrow> Status \<times> goerr option" where
  "Sup_Status M name s w =
     (case get (loaded s) name of
        None \<Rightarrow> (\<lparr>st_State = '''', st_Detail = []\<rparr>, Some (Wrapf '''' ErrUnknownModule ('': '' @ name)))
      | Some ms \<Rightarrow>
          (case m_Status M (ms_instance ms) w of
             (st, Some e) \<Rightarrow> (\<lparr>st_State = StateFailed, st_Detail = []\<rparr>, Some e)
           | (st, None) \<Rightarrow> (st, None)))"

record ModuleSnapshot =
  sn_Name :: string
  sn_State :: ModuleState
  sn_RestartAttempt :: int

definition snapshot :: "('m, 'w) Supervisor \<Rightarrow> string \<Rightarrow> ModuleSnapshot" where
  "snapshot s name =
     (case get (loaded s) name of
        None \<Rightarrow> \<lparr>sn_Name = name, sn_State = StateDisabled, sn_RestartAttempt = 0\<rparr>
      | Some ms \<Rightarrow> \<lparr>sn_Name = name, sn_State = ms_state ms, sn_RestartAttempt = ms_restartAttempt ms\<rparr>)"

definition Sup_List :: "('m, 'w) Supervisor \<Rightarrow> ModuleSnapshot list" where
  "Sup_List s = sort_key sn_Name (map (snapshot s) (keys (modules s)))"

definition Sup_Module :: "string \<Rightarrow> ('m, 'w) Supervisor \<Rightarrow> 'm option" where
  "Sup_Module name s = map_option ms_instance (get (loaded s) name)"

definition Sup_ModuleInfo :: "('m, 'w) Module \<Rightarrow> string \<Rightarrow> ('m, 'w) Supervisor \<Rightarrow> ModuleInfo option" where
  "Sup_ModuleInfo M name s =
     (case get (loaded s) name of Some ms \<Rightarrow> Some (m_Info M (ms_instance ms))
      | None \<Rightarrow> map_option (m_Info M) (get (modules s) name))"

definition Hosts :: "string \<Rightarrow> ('m, 'w) Supervisor \<Rightarrow> 'w HostServices option" where
  "Hosts name s = (case get (loaded s) name of None \<Rightarrow> None | Some ms \<Rightarrow> ms_host ms)"

section \<open>What each critical section does to the supervisor\<close>

definition newState ::
  "'w HostServices option \<Rightarrow> 'm \<Rightarrow> 'm \<Rightarrow> ctx \<Rightarrow> ('m, 'w) moduleState" where
  "newState host factory m c =
     \<lparr>ms_factory = factory, ms_instance = m, ms_state = StateRunning, ms_restartAttempt = 0,
      ms_nextRestartAt = zeroTime, ms_host = host, ms_ctx = c\<rparr>"

lemma Load_cases [consumes 1, case_names noop refused start_failed loaded_now]:
  assumes "Load cfg M name s w = (r, s', w')"
  obtains "get (loaded s) name \<noteq> None" "r = None" "s' = s" "w' = w"
  | e where "get (loaded s) name = None" "r = Some e" "s' = s"
  | e where "get (loaded s) name = None" "r = Some e" "s' = cancel (nextCtx s) (s\<lparr>nextCtx := Suc (nextCtx s)\<rparr>)"
  | factory host m w0 w5 where "get (loaded s) name = None" "r = None" "get (modules s) name = Some factory"
      "c_Host cfg name w = (host, w0)"
      "s' = s\<lparr>nextCtx := Suc (nextCtx s),
              loaded := put name (newState host factory m (nextCtx s)) (loaded s),
              persisted := addToEnabled name (persisted s)\<rparr>"
      "w' = savePersisted cfg s' w5"
  using assms
  by (auto simp: Load_def Let_def newState_def split: if_splits option.splits prod.splits)

lemma stopLocked_cases [consumes 1, case_names absent stopped]:
  assumes "stopLocked cfg M name s w = (s', w')"
  obtains "get (loaded s) name = None" "s' = s" "w' = w"
  | ms where "get (loaded s) name = Some ms"
      "s' = s\<lparr>cancelled := ms_ctx ms # cancelled s, loaded := del name (loaded s)\<rparr>"
  using assms by (auto simp: stopLocked_def Let_def cancel_def split: option.splits prod.splits)

lemma Unload_cases [consumes 1, case_names absent unloaded]:
  assumes "Unload cfg M name s w = (s', w')"
  obtains "get (loaded s) name = None" "s' = s" "w' = w"
  | ms w1 where "get (loaded s) name = Some ms"
      "s' = s\<lparr>cancelled := ms_ctx ms # cancelled s, loaded := del name (loaded s),
              persisted := removeFromEnabled name (persisted s)\<rparr>"
      "w' = savePersisted cfg s' w1"
  using assms
  by (auto simp: Unload_def Let_def split: if_splits prod.splits elim!: stopLocked_cases)

lemma ReportFailure_cases [consumes 1, case_names absent parked scheduled]:
  assumes "ReportFailure cfg name s w = (s', w')"
  obtains "get (loaded s) name = None" "s' = s" "w' = w"
  | ms where "get (loaded s) name = Some ms" "maxRestart s \<le> ms_restartAttempt ms + 1"
      "s' = s\<lparr>loaded := put name (ms\<lparr>ms_restartAttempt := ms_restartAttempt ms + 1, ms_state := StateFailed\<rparr>)
                          (loaded s)\<rparr>"
  | ms due where "get (loaded s) name = Some ms" "ms_restartAttempt ms + 1 < maxRestart s"
      "s' = s\<lparr>loaded := put name (ms\<lparr>ms_restartAttempt := ms_restartAttempt ms + 1, ms_nextRestartAt := due,
                                     ms_state := StateDegraded\<rparr>) (loaded s),
              pending := pending s @ [(name, due)]\<rparr>"
  using assms
  by (auto simp: ReportFailure_def Let_def not_le split: if_splits option.splits prod.splits)

lemma restartNow_cases [consumes 1, case_names absent restart_failed restarted]:
  assumes "restartNow cfg M name s w = (f, s', w')"
  obtains "get (loaded s) name = None" "\<not> f" "s' = s" "w' = w"
  | ms m0 where "get (loaded s) name = Some ms" "f"
      "s' = s\<lparr>loaded := put name (ms\<lparr>ms_instance := m0\<rparr>) (loaded s),
              nextCtx := Suc (nextCtx s), cancelled := nextCtx s # ms_ctx ms # cancelled s\<rparr>"
  | ms m2 where "get (loaded s) name = Some ms" "\<not> f"
      "s' = s\<lparr>cancelled := ms_ctx ms # cancelled s, nextCtx := Suc (nextCtx s),
              loaded := put name (ms\<lparr>ms_instance := m2, ms_state := StateRunning, ms_ctx := nextCtx s\<rparr>)
                          (loaded s)\<rparr>"
  using assms
  by (auto simp: restartNow_def Let_def cancel_def split: option.splits prod.splits)

lemma enabledList_add: "set (enabledList (addToEnabled name ps)) = insert name (set (enabledList ps))"
  by (auto simp: addToEnabled_def enabledList_def)

lemma enabledList_remove:
  "enabledList (removeFromEnabled name ps) = filter (\<lambda>n. n \<noteq> name) (enabledList ps)"
  by (simp add: removeFromEnabled_def enabledList_def split: option.split)

end
