(* ===== verification/Supervisor_Steps.thy ===== *)
theory Supervisor_Steps
  imports Supervisor
begin

text \<open>
  Runs of the supervisor: an inductive step relation, labelled with what was done, in which the critical sections of the code
  interleave in any order, with restart timers firing late or being abandoned, module goroutines
  changing their instance behind the supervisor's back, and time passing. The invariant
  \<open>sup_inv\<close> holds in every reachable state: the loaded set is a set of registered and enabled
  modules, no context leaks, and the recorded module states mean what they say.
\<close>

section \<open>The step relation\<close>

datatype act = Loading string | Unloading string | Booting | Reporting string | Firing string
  | FailReporting string | LifeStopping | Abandoning | StoppingAll | Env

inductive sup_act ::
  "('x world_scheme) Config \<Rightarrow> ('m, 'x world_scheme) Module \<Rightarrow> act \<Rightarrow>
   ('m, 'x world_scheme) Supervisor \<times> 'x world_scheme \<Rightarrow>
   ('m, 'x world_scheme) Supervisor \<times> 'x world_scheme \<Rightarrow> bool"
  for cfg M where
  load: "Load cfg M name s w = (r, s', w') \<Longrightarrow> sup_act cfg M (Loading name) (s, w) (s', w')"
| unload: "Unload cfg M name s w = (s', w') \<Longrightarrow> sup_act cfg M (Unloading name) (s, w) (s', w')"
| boot: "loaded s = [] \<Longrightarrow> loadPersistedState cfg s w = Inr s' \<Longrightarrow> sup_act cfg M Booting (s, w) (s', w)"
| report: "ReportFailure cfg name s w = (s', w') \<Longrightarrow> sup_act cfg M (Reporting name) (s, w) (s', w')"
| fire: "(name, due) \<in> set (pending s) \<Longrightarrow> due \<le> wnow w \<Longrightarrow>
         restartNow cfg M name (s\<lparr>pending := remove1 (name, due) (pending s)\<rparr>) w = (f, s', w') \<Longrightarrow>
         sup_act cfg M (Firing name) (s, w) (if f then s'\<lparr>reports := name # reports s'\<rparr> else s', w')"
| fail_report: "name \<in> set (reports s) \<Longrightarrow>
         ReportFailure cfg name (s\<lparr>reports := remove1 name (reports s)\<rparr>) w = (s', w') \<Longrightarrow>
         sup_act cfg M (FailReporting name) (s, w) (s', w')"
| life_stop: "sup_act cfg M LifeStopping (s, w) (lifeStop s, w)"
| abandon: "lifeDone s \<Longrightarrow> p \<in> set (pending s) \<Longrightarrow>
         sup_act cfg M Abandoning (s, w) (s\<lparr>pending := remove1 p (pending s)\<rparr>, w)"
| stop_all: "stopAll cfg M (rev (sort (keys (loaded s)))) s w = (s', w') \<Longrightarrow>
         sup_act cfg M StoppingAll (s, w) (s', w')"
| internal: "get (loaded s) name = Some ms \<Longrightarrow>
         sup_act cfg M Env (s, w) (s\<lparr>loaded := put name (ms\<lparr>ms_instance := m\<rparr>) (loaded s)\<rparr>, w')"
| outside: "wnow w \<le> wnow w' \<Longrightarrow> sup_act cfg M Env (s, w) (s, w')"

definition sup_step ::
  "('x world_scheme) Config \<Rightarrow> ('m, 'x world_scheme) Module \<Rightarrow>
   ('m, 'x world_scheme) Supervisor \<times> 'x world_scheme \<Rightarrow>
   ('m, 'x world_scheme) Supervisor \<times> 'x world_scheme \<Rightarrow> bool" where
  "sup_step cfg M sw sw' \<longleftrightarrow> (\<exists>a. sup_act cfg M a sw sw')"

lemma sup_stepI: "sup_act cfg M a sw sw' \<Longrightarrow> sup_step cfg M sw sw'"
  by (auto simp: sup_step_def)

definition reachable ::
  "('x world_scheme) Config \<Rightarrow> ('m, 'x world_scheme) Module \<Rightarrow> 'm list \<Rightarrow>
   ('m, 'x world_scheme) Supervisor \<times> 'x world_scheme \<Rightarrow> bool" where
  "reachable cfg M factories sw \<longleftrightarrow> (\<exists>w. (sup_step cfg M)\<^sup>*\<^sup>* (New M cfg factories, w) sw)"

section \<open>The invariant\<close>

text \<open>Maps have one entry per name; every loaded module is registered, built by its registered
  factory, and enabled for the next boot.\<close>

definition registry_inv :: "('m, 'w) Supervisor \<Rightarrow> bool" where
  "registry_inv s \<longleftrightarrow>
     wf_map (modules s) \<and> wf_map (loaded s) \<and>
     (\<forall>n ms. get (loaded s) n = Some ms \<longrightarrow>
        get (modules s) n = Some (ms_factory ms) \<and> n \<in> set (enabledList (persisted s)))"

text \<open>Contexts, as a map from loaded modules to their contexts: those in use are distinct, and every
  context that was created and not cancelled belongs to a loaded module.\<close>

definition ctx_ok :: "(string \<rightharpoonup> ctx) \<Rightarrow> ctx \<Rightarrow> ctx list \<Rightarrow> bool" where
  "ctx_ok L nx cs \<longleftrightarrow>
     (\<forall>n c. L n = Some c \<longrightarrow> c < nx) \<and> (\<forall>n n' c. L n = Some c \<longrightarrow> L n' = Some c \<longrightarrow> n = n') \<and>
     (\<forall>c\<in>set cs. c < nx) \<and> (\<forall>c<nx. c \<notin> set cs \<longrightarrow> (\<exists>n. L n = Some c))"

abbreviation ctxs :: "('m, 'w) Supervisor \<Rightarrow> string \<rightharpoonup> ctx" where
  "ctxs s \<equiv> \<lambda>n. map_option ms_ctx (get (loaded s) n)"

definition ctx_inv :: "('m, 'w) Supervisor \<Rightarrow> bool" where
  "ctx_inv s \<longleftrightarrow> ctx_ok (ctxs s) (nextCtx s) (cancelled s)"

text \<open>A loaded module is running, degraded or failed; it is failed only after \<open>maxRestart\<close>
  reported failures; a running one has a live context unless its restart has just failed.\<close>

definition mstate_inv :: "('m, 'w) Supervisor \<Rightarrow> bool" where
  "mstate_inv s \<longleftrightarrow>
     (\<forall>n ms. get (loaded s) n = Some ms \<longrightarrow>
        ms_state ms \<in> {StateRunning, StateDegraded, StateFailed} \<and> 0 \<le> ms_restartAttempt ms \<and>
        (ms_state ms = StateFailed \<longrightarrow> maxRestart s \<le> ms_restartAttempt ms) \<and>
        (ms_state ms = StateRunning \<longrightarrow> ms_ctx ms \<notin> set (cancelled s) \<or> n \<in> set (reports s)))"

definition sup_inv :: "('m, 'w) Supervisor \<Rightarrow> bool" where
  "sup_inv s \<longleftrightarrow> registry_inv s \<and> ctx_inv s \<and> mstate_inv s"

lemma sup_inv_New [inv_keep]: "sup_inv (New M cfg factories)"
  by (simp add: sup_inv_def registry_inv_def ctx_inv_def ctx_ok_def mstate_inv_def New_def wf_map_fold_put)

section \<open>Preservation\<close>

text \<open>What happens to contexts: one is cancelled when its module goes, a fresh one is handed to a new
  or restarted module, or thrown away when the module does not start.\<close>

lemma ctx_ok_drop: "ctx_ok L nx cs \<Longrightarrow> L n = Some c \<Longrightarrow> ctx_ok (L(n := None)) nx (c # cs)"
  unfolding ctx_ok_def by (auto split: if_splits) (metis option.inject)

lemma ctx_ok_add: "ctx_ok L nx cs \<Longrightarrow> L n = None \<Longrightarrow> ctx_ok (L(n \<mapsto> nx)) (Suc nx) cs"
  unfolding ctx_ok_def by (auto simp: less_Suc_eq split: if_splits) (metis option.distinct(1))+

lemma ctx_ok_discard: "ctx_ok L nx cs \<Longrightarrow> ctx_ok L (Suc nx) (nx # cs)"
  unfolding ctx_ok_def by (auto simp: less_Suc_eq)

lemma ctx_ok_cancel: "ctx_ok L nx cs \<Longrightarrow> L n = Some c \<Longrightarrow> ctx_ok L nx (c # cs)"
  unfolding ctx_ok_def by auto

lemma ctx_ok_renew: "ctx_ok L nx cs \<Longrightarrow> L n = Some c \<Longrightarrow> ctx_ok (L(n \<mapsto> nx)) (Suc nx) (c # cs)"
  using ctx_ok_add [OF ctx_ok_drop, of L nx cs n c n] by simp

lemma ctxs_put: "(\<lambda>n. map_option f (if n = k then Some v else g n)) = (\<lambda>n. map_option f (g n))(k \<mapsto> f v)"
  by auto

lemma ctxs_del: "(\<lambda>n. map_option f (if n = k then None else g n)) = (\<lambda>n. map_option f (g n))(k := None)"
  by auto

lemma ctxs_same: "g k = Some v \<Longrightarrow> (\<lambda>n. map_option f (g n))(k \<mapsto> f v) = (\<lambda>n. map_option f (g n))"
  by auto

lemmas ctx_steps = ctx_inv_def ctxs_put ctxs_del ctxs_same ctx_ok_drop ctx_ok_add ctx_ok_discard
  ctx_ok_cancel ctx_ok_renew

lemma ctx_inv_facts:
  assumes "ctx_inv s"
  shows "nextCtx s \<notin> set (cancelled s)"
    and "\<forall>n ms. get (loaded s) n = Some ms \<longrightarrow> ms_ctx ms \<noteq> nextCtx s"
    and "get (loaded s) k = Some ks \<Longrightarrow> \<forall>n ms. get (loaded s) n = Some ms \<longrightarrow> n \<noteq> k \<longrightarrow> ms_ctx ms \<noteq> ms_ctx ks"
proof -
  from assms have "\<forall>c\<in>set (cancelled s). c < nextCtx s"
    and lt: "\<And>n ms. get (loaded s) n = Some ms \<Longrightarrow> ms_ctx ms < nextCtx s"
    and inj: "\<And>n n' c. ctxs s n = Some c \<Longrightarrow> ctxs s n' = Some c \<Longrightarrow> n = n'"
    unfolding ctx_inv_def ctx_ok_def by auto
  then show "nextCtx s \<notin> set (cancelled s)" by auto
  show "\<forall>n ms. get (loaded s) n = Some ms \<longrightarrow> ms_ctx ms \<noteq> nextCtx s" using lt by fastforce
  show "\<forall>n ms. get (loaded s) n = Some ms \<longrightarrow> n \<noteq> k \<longrightarrow> ms_ctx ms \<noteq> ms_ctx ks"
    if "get (loaded s) k = Some ks"
  proof (intro allI impI)
    fix n ms assume "get (loaded s) n = Some ms" "n \<noteq> k"
    with inj [of n "ms_ctx ks" k] that show "ms_ctx ms \<noteq> ms_ctx ks" by auto
  qed
qed

lemma sup_invI: "registry_inv s \<Longrightarrow> ctx_inv s \<Longrightarrow> mstate_inv s \<Longrightarrow> sup_inv s"
  by (simp add: sup_inv_def)

lemma sup_invD: "sup_inv s \<Longrightarrow> registry_inv s" "sup_inv s \<Longrightarrow> ctx_inv s" "sup_inv s \<Longrightarrow> mstate_inv s"
  by (simp_all add: sup_inv_def)

lemma sup_inv_Load [inv_keep]:
  assumes "sup_inv s" "Load cfg M name s w = (r, s', w')"
  shows "sup_inv s'"
  using assms(2)
proof (cases rule: Load_cases)
  case (start_failed e)
  note inv = sup_invD [OF assms(1)]
  note fresh = ctx_inv_facts(1,2) [OF inv(2)]
  show ?thesis
  proof (rule sup_invI)
    show "registry_inv s'" using inv(1) start_failed by (simp add: registry_inv_def cancel_def)
    show "ctx_inv s'" using inv(2) start_failed by (simp add: ctx_steps cancel_def)
    show "mstate_inv s'" using inv(3) start_failed fresh by (simp add: mstate_inv_def cancel_def)
  qed
next
  case (loaded_now factory m w5)
  note inv = sup_invD [OF assms(1)]
  note fresh = ctx_inv_facts(1,2) [OF inv(2)]
  show ?thesis
  proof (rule sup_invI)
    show "registry_inv s'"
      using inv(1) loaded_now by (simp add: registry_inv_def newState_def enabledList_add)
    show "ctx_inv s'" using inv(2) loaded_now by (simp add: ctx_steps newState_def)
    show "mstate_inv s'" using inv(3) loaded_now fresh by (simp add: mstate_inv_def newState_def)
  qed
qed (use assms(1) in auto)

text \<open>Dropping a module and cancelling its context.\<close>

lemma sup_inv_drop:
  assumes "sup_inv s" "get (loaded s) name = Some ms"
    and "\<forall>n. n \<noteq> name \<longrightarrow> n \<in> set (enabledList (persisted s)) \<longrightarrow> n \<in> set (enabledList ps)"
  shows "sup_inv (s\<lparr>cancelled := ms_ctx ms # cancelled s, loaded := del name (loaded s), persisted := ps\<rparr>)"
    (is "sup_inv ?s'")
proof (rule sup_invI)
  note inv = sup_invD [OF assms(1)]
  show "registry_inv ?s'" using inv(1) assms(3) by (simp add: registry_inv_def)
  show "ctx_inv ?s'" using inv(2) assms(2) by (simp add: ctx_steps)
  show "mstate_inv ?s'"
    using inv(3) ctx_inv_facts(3) [OF inv(2) assms(2)] by (simp add: mstate_inv_def)
qed

lemma sup_inv_stopLocked [inv_keep]:
  "sup_inv s \<Longrightarrow> stopLocked cfg M name s w = (s', w') \<Longrightarrow> sup_inv s'"
proof (erule stopLocked_cases)
  fix ms assume "sup_inv s" "get (loaded s) name = Some ms"
    "s' = s\<lparr>cancelled := ms_ctx ms # cancelled s, loaded := del name (loaded s)\<rparr>"
  with sup_inv_drop [of s name ms "persisted s"] show "sup_inv s'" by simp
qed simp

lemma sup_inv_Unload [inv_keep]:
  "sup_inv s \<Longrightarrow> Unload cfg M name s w = (s', w') \<Longrightarrow> sup_inv s'"
  by (erule Unload_cases) (auto simp: enabledList_remove intro!: sup_inv_drop)

lemma sup_inv_stopAll [inv_keep]:
  "sup_inv s \<Longrightarrow> stopAll cfg M names s w = (s', w') \<Longrightarrow> sup_inv s'"
  by (induction cfg M names s w rule: stopAll.induct) (auto split: prod.splits dest: sup_inv_stopLocked)

lemma sup_inv_ReportFailure [inv_keep]:
  assumes "sup_inv s" "ReportFailure cfg name s w = (s', w')"
  shows "sup_inv s'"
  using assms(2)
proof (cases rule: ReportFailure_cases)
  case (parked ms)
  with assms(1) show ?thesis
    by (auto simp: sup_inv_def registry_inv_def ctx_steps mstate_inv_def)
next
  case (scheduled ms due)
  with assms(1) show ?thesis
    by (auto simp: sup_inv_def registry_inv_def ctx_steps mstate_inv_def)
qed (use assms(1) in auto)

lemma sup_inv_pending [simp]: "sup_inv (s\<lparr>pending := ps\<rparr>) = sup_inv s"
  by (simp add: sup_inv_def registry_inv_def ctx_inv_def mstate_inv_def)

lemma sup_inv_lifeStop [inv_keep]: "sup_inv s \<Longrightarrow> sup_inv (lifeStop s)"
  by (simp add: lifeStop_def sup_inv_def registry_inv_def ctx_inv_def mstate_inv_def)

lemma sup_inv_internal [inv_keep]:
  "sup_inv s \<Longrightarrow> get (loaded s) name = Some ms \<Longrightarrow>
   sup_inv (s\<lparr>loaded := put name (ms\<lparr>ms_instance := m\<rparr>) (loaded s)\<rparr>)"
  by (auto simp: sup_inv_def registry_inv_def ctx_steps mstate_inv_def)

lemma sup_inv_boot [inv_keep]:
  "sup_inv s \<Longrightarrow> loaded s = [] \<Longrightarrow> loadPersistedState cfg s w = Inr s' \<Longrightarrow> sup_inv s'"
  by (auto simp: loadPersistedState_def sup_inv_def registry_inv_def ctx_inv_def mstate_inv_def
      split: sum.splits)

lemma sup_inv_restartNow [inv_keep]:
  assumes "sup_inv s" "restartNow cfg M name s w = (f, s', w')"
  shows "sup_inv (if f then s'\<lparr>reports := name # reports s'\<rparr> else s')"
  using assms(2)
proof (cases rule: restartNow_cases)
  case (restart_failed ms m0)
  note inv = sup_invD [OF assms(1)]
  note facts = ctx_inv_facts(2) [OF inv(2)] ctx_inv_facts(3) [OF inv(2) restart_failed(1)]
  let ?s = "s'\<lparr>reports := name # reports s'\<rparr>"
  have "registry_inv ?s" using inv(1) restart_failed by (simp add: registry_inv_def)
  moreover have "ctx_inv ?s"
    using ctx_ok_discard [OF ctx_ok_cancel [of "ctxs s" _ _ name "ms_ctx ms"]] inv(2) restart_failed
    by (simp add: ctx_steps)
  moreover have "mstate_inv ?s" using inv(3) restart_failed facts by (auto simp: mstate_inv_def)
  ultimately show ?thesis using restart_failed(2) by (simp add: sup_invI)
next
  case (restarted ms m2)
  note inv = sup_invD [OF assms(1)]
  have "nextCtx s \<noteq> ms_ctx ms" using ctx_inv_facts(2) [OF inv(2)] restarted(1) by fastforce
  note facts = this ctx_inv_facts(1,2) [OF inv(2)] ctx_inv_facts(3) [OF inv(2) restarted(1)]
  have "registry_inv s'" using inv(1) restarted by (simp add: registry_inv_def)
  moreover have "ctx_inv s'" using inv(2) restarted by (simp add: ctx_steps)
  moreover have "mstate_inv s'" using inv(3) restarted facts by (auto simp: mstate_inv_def)
  ultimately show ?thesis using restarted(2) by (simp add: sup_invI)
qed (use assms(1) in auto)

text \<open>A failed restart is followed by its report, which takes the module out of the running state.\<close>

lemma sup_inv_fail_report [inv_keep]:
  assumes "sup_inv s" "ReportFailure cfg name (s\<lparr>reports := remove1 name (reports s)\<rparr>) w = (s', w')"
  shows "sup_inv s'"
proof -
  have others: "n \<noteq> name \<Longrightarrow> n \<in> set xs \<Longrightarrow> n \<in> set (remove1 name xs)" for n xs
    by (simp add: in_set_remove1)
  note inv = sup_invD [OF assms(1)]
  have "mstate_inv s'"
    using assms(2)
  proof (cases rule: ReportFailure_cases)
    case absent
    then have "get (loaded s) n = Some ms \<Longrightarrow> n \<noteq> name" for n ms by auto
    with absent inv(3) others show ?thesis by (simp add: mstate_inv_def)
  next
    case (parked ms)
    with inv(3) others show ?thesis by (simp add: mstate_inv_def)
  next
    case (scheduled ms due)
    with inv(3) others show ?thesis by (simp add: mstate_inv_def)
  qed
  moreover have "registry_inv s' \<and> ctx_inv s'"
    using assms(2)
    by (cases rule: ReportFailure_cases) (use inv(1,2) in \<open>simp_all add: registry_inv_def ctx_steps\<close>)
  ultimately show ?thesis by (simp add: sup_invI)
qed

inductive_cases sup_actE: "sup_act cfg M a (s, w) (s', w')"

lemma sup_inv_step: "sup_step cfg M (s, w) (s', w') \<Longrightarrow> sup_inv s \<Longrightarrow> sup_inv s'"
proof (simp only: sup_step_def, elim exE sup_actE)
  fix name due f s1
  assume inv: "sup_inv s"
    and f: "restartNow cfg M name (s\<lparr>pending := remove1 (name, due) (pending s)\<rparr>) w = (f, s1, w')"
    and s': "s' = (if f then s1\<lparr>reports := name # reports s1\<rparr> else s1)"
  show "sup_inv s'" unfolding s' by (rule sup_inv_restartNow [OF _ f]) (simp add: inv)
qed (auto intro: inv_keep)

lemma sup_inv_reachable: "reachable cfg M factories (s, w) \<Longrightarrow> sup_inv s"
proof -
  assume "reachable cfg M factories (s, w)"
  then obtain w0 where "(sup_step cfg M)\<^sup>*\<^sup>* (New M cfg factories, w0) (s, w)"
    by (auto simp: reachable_def)
  then have "sup_inv (fst (s, w))"
  proof (induction rule: rtranclp_induct)
    case base
    then show ?case by (simp add: sup_inv_New)
  next
    case (step y z)
    then show ?case using sup_inv_step [of cfg M "fst y" "snd y" "fst z" "snd z"] by simp
  qed
  then show ?thesis by simp
qed

end
