(* ===== verification/Hello.thy ===== *)
theory Hello
  imports World
begin

text \<open>
  The example plugin (\<open>examples/plugin-hello/main.go\<close>): the smallest implementation of the
  \<open>Module\<close> interface. The witnesses of the supervisor's theorems run it.
\<close>

record 'w HelloModule =
  hm_host :: "'w HostServices option"

definition hello_Info :: "'w HelloModule \<Rightarrow> ModuleInfo" where
  "hello_Info m =
     \<lparr>mi_Name = ''hello'', mi_Version = ''1.0.0'',
      mi_Description = ''Example external plugin that greets the user'', mi_LicenseFeature = ''''\<rparr>"

definition hello_Init :: "'w HostServices option \<Rightarrow> 'w HelloModule \<Rightarrow> 'w \<Rightarrow> goerr option \<times> 'w HelloModule \<times> 'w" where
  "hello_Init host m w = (None, m\<lparr>hm_host := host\<rparr>, w)"

definition hello_Start :: "ctx \<Rightarrow> 'w HelloModule \<Rightarrow> 'w \<Rightarrow> goerr option \<times> 'w HelloModule \<times> 'w" where
  "hello_Start c m w = (None, m, w)"

definition hello_Stop :: "'w HelloModule \<Rightarrow> 'w \<Rightarrow> goerr option \<times> 'w HelloModule \<times> 'w" where
  "hello_Stop m w = (None, m, w)"

definition hello_Status :: "'w HelloModule \<Rightarrow> 'w \<Rightarrow> Status \<times> goerr option" where
  "hello_Status m w = (\<lparr>st_State = StateRunning, st_Detail = []\<rparr>, None)"

definition hello_Health :: "'x world_scheme HelloModule \<Rightarrow> 'x world_scheme \<Rightarrow>
    HealthReport \<times> 'x world_scheme HelloModule \<times> 'x world_scheme" where
  "hello_Health m w = (\<lparr>hr_Level = Healthy, hr_Message = ''OK'', hr_CheckedAt = wnow w\<rparr>, m, w)"

definition hello_Commands :: "'w HelloModule \<Rightarrow> CommandSpec list" where
  "hello_Commands m = [CommandSpec ''greet'' ''greet <name>'' ''Greet someone'' [] [] False 1 1]"

definition hello_Dispatch :: "string list \<Rightarrow> (string, string) gomap \<Rightarrow> string list \<Rightarrow> 'w HelloModule \<Rightarrow> 'w \<Rightarrow>
    (Result option \<times> goerr option) \<times> 'w HelloModule \<times> 'w" where
  "hello_Dispatch path flags args m w =
     (case path of
        [] \<Rightarrow> ((None, Some (Errorf ''no command'')), m, w)
      | p # _ \<Rightarrow>
          if p = ''greet'' then
            (case args of
               [name] \<Rightarrow> ((Some \<lparr>rs_Output = ''hello, '' @ name, rs_JSON = [], rs_ExitCode = 0\<rparr>, None), m, w)
             | _ \<Rightarrow> ((Some \<lparr>rs_Output = ''usage: hello greet <name>'', rs_JSON = [], rs_ExitCode = 1\<rparr>, None), m, w))
          else ((None, Some (Errorf (''unknown command: '' @ p))), m, w))"

definition hello_ConfigSchema :: "'w HelloModule \<Rightarrow> bytes" where
  "hello_ConfigSchema m = []"

definition helloModule :: "('x world_scheme HelloModule, 'x world_scheme) Module" where
  "helloModule =
     \<lparr>m_Info = hello_Info, m_Init = hello_Init, m_Start = hello_Start, m_Stop = hello_Stop,
      m_Status = hello_Status, m_Health = hello_Health, m_Commands = hello_Commands,
      m_Dispatch = hello_Dispatch, m_ConfigSchema = hello_ConfigSchema\<rparr>"

lemmas hello_defs = helloModule_def hello_Info_def hello_Init_def hello_Start_def hello_Stop_def
  hello_Status_def hello_Health_def hello_Commands_def hello_Dispatch_def hello_ConfigSchema_def

section \<open>A host and a configuration for the witnesses\<close>

definition quietHost :: "'w HostServices" where
  "quietHost =
     \<lparr>h_Config = [], h_DataDir = [], h_SecretsGet = \<lambda>_ w. (Inl ErrSecretNotFound, w),
      h_SecretsSet = \<lambda>_ _ w. (None, w), h_SecretsDelete = \<lambda>_ w. (None, w),
      h_FeatureEnabled = \<lambda>_ w. (False, w), h_Tier = \<lambda>_. [], h_Publish = \<lambda>_ w. w\<rparr>"

definition world0 :: world where
  "world0 = \<lparr>wos = dirOs, wnow = 0, wrand = \<lambda>_. 1 / 2, wdraws = 0\<rparr>"

end
