(* ===== verification/Supervisor_Props.thy ===== *)
theory Supervisor_Props
  imports Supervisor_Steps Hello
begin

text \<open>
  The properties of the supervisor: what loading, unloading, shutting down, booting and reporting a
  failure do, on every branch, and the invariant of all reachable states. The witnesses run the
  example plugin on a host that publishes nowhere.
\<close>

section \<open>A configuration for the witnesses\<close>

definition cfg0 :: "world Config" where
  "cfg0 = \<lparr>c_Host = \<lambda>_ w. (Some quietHost, w), c_StatePath = ''/v/state.json'', c_Backoff = DefaultBackoff,
           c_MaxRestarts = 0, c_ovf = \<lambda>_. 0, c_RFC3339 = \<lambda>_. ''now''\<rparr>"

definition fresh0 :: "world HelloModule" where
  "fresh0 = \<lparr>hm_host = None\<rparr>"

definition sup0 :: "(world HelloModule, world) Supervisor" where
  "sup0 = New helloModule cfg0 [fresh0]"

lemma sup0_simps [simp]:
  "modules sup0 = [(''hello'', fresh0)]" "loaded sup0 = []" "persisted sup0 = \<lparr>Enabled = Some []\<rparr>"
  "maxRestart sup0 = 5" "lifeDone sup0 = False" "pending sup0 = []" "reports sup0 = []"
  "nextCtx sup0 = 0" "cancelled sup0 = []"
  by (simp_all add: sup0_def New_def hello_defs cfg0_def)

lemma publish_quiet [simp]:
  "get (loaded s) name = None \<Longrightarrow> publishEvent cfg0 s name t m kvs w = w"
  by (simp add: publishEvent_def cfg0_def quietHost_def)

lemma hello_Load:
  "get (loaded s) ''hello'' = None \<Longrightarrow> get (modules s) ''hello'' = Some f \<Longrightarrow>
   Load cfg0 helloModule ''hello'' s w =
     (let s' = s\<lparr>nextCtx := Suc (nextCtx s),
                 loaded := put ''hello'' (newState (Some quietHost) f (f\<lparr>hm_host := Some quietHost\<rparr>) (nextCtx s)) (loaded s),
                 persisted := addToEnabled ''hello'' (persisted s)\<rparr>
      in (None, s', savePersisted cfg0 s' w))"
  by (simp add: Load_def licenseGate_def hello_defs Let_def newState_def)
     (simp add: cfg0_def)

definition sup1 :: "(world HelloModule, world) Supervisor" where
  "sup1 = fst (snd (Load cfg0 helloModule ''hello'' sup0 world0))"

lemma sup1_simps [simp]:
  "loaded sup1 = [(''hello'', newState (Some quietHost) fresh0 (fresh0\<lparr>hm_host := Some quietHost\<rparr>) 0)]"
  "modules sup1 = [(''hello'', fresh0)]" "persisted sup1 = \<lparr>Enabled = Some [''hello'']\<rparr>"
  "maxRestart sup1 = 5" "nextCtx sup1 = 1" "cancelled sup1 = []" "pending sup1 = []" "reports sup1 = []"
  by (simp_all add: sup1_def hello_Load Let_def addToEnabled_def enabledList_def)

lemma sup1_Load: "\<exists>w'. Load cfg0 helloModule ''hello'' sup0 world0 = (None, sup1, w')"
  by (simp add: sup1_def hello_Load Let_def)

section \<open>The invariant\<close>

text \<open>C1: In every reachable state, whatever the interleaving of loads, unloads, failure reports,
  restart timers, shutdown and module activity, the supervisor's invariant holds: registry and
  loaded set have one entry per name, each loaded module is registered and enabled for the next
  boot, every context ever created is cancelled or belongs to exactly one loaded module, a module is
  marked failed only after \<open>maxRestart\<close> reported failures, and a running one has a live context
  unless its failed restart is just being reported.\<close>

theorem supervisor_invariant:
  assumes "reachable cfg M factories (s, w)"
  shows "registry_inv s \<and> ctx_inv s \<and> mstate_inv s"
  using sup_inv_reachable [OF assms] by (simp add: sup_inv_def)

theorem supervisor_invariant_witness: "ctx_inv sup1 \<and> get (loaded sup1) ''hello'' \<noteq> None"
proof -
  obtain w' where "Load cfg0 helloModule ''hello'' sup0 world0 = (None, sup1, w')"
    using sup1_Load by blast
  then have "sup_step cfg0 helloModule (sup0, world0) (sup1, w')" by (rule sup_stepI [OF sup_act.load])
  then have "reachable cfg0 helloModule [fresh0] (sup1, w')"
    unfolding reachable_def sup0_def by blast
  from supervisor_invariant [OF this] show ?thesis by simp
qed

section \<open>Load\<close>

text \<open>C16: What \<open>Load\<close> does. Other modules and the registry are never touched. On success the module
  is loaded; if it was not before, it is running with a fresh context and no failed attempts, and
  is enabled for the next boot. On any error the loaded set and the enabled set are unchanged and
  every context the attempt created is cancelled. Loading a loaded module changes nothing.\<close>

theorem load_effect:
  assumes "Load cfg M name s w = (r, s', w')"
  shows "(\<forall>n. n \<noteq> name \<longrightarrow> get (loaded s') n = get (loaded s) n) \<and> modules s' = modules s \<and>
         (r = None \<longrightarrow> get (loaded s') name \<noteq> None \<and>
            (if get (loaded s) name \<noteq> None then s' = s \<and> w' = w
             else (\<exists>ms. get (loaded s') name = Some ms \<and> ms_state ms = StateRunning \<and>
                     ms_restartAttempt ms = 0 \<and> ms_ctx ms = nextCtx s) \<and>
                  set (enabledList (persisted s')) = insert name (set (enabledList (persisted s))))) \<and>
         (r \<noteq> None \<longrightarrow> loaded s' = loaded s \<and> persisted s' = persisted s \<and>
            (\<forall>c. nextCtx s \<le> c \<longrightarrow> c < nextCtx s' \<longrightarrow> c \<in> set (cancelled s')))"
  using assms
  by (cases rule: Load_cases) (auto simp: newState_def enabledList_add cancel_def)

theorem load_effect_witness:
  "get (loaded sup1) ''hello'' \<noteq> None \<and> set (enabledList (persisted sup1)) = {''hello''}"
proof -
  obtain w' where "Load cfg0 helloModule ''hello'' sup0 world0 = (None, sup1, w')"
    using sup1_Load by blast
  from load_effect [OF this] show ?thesis by (simp add: enabledList_def)
qed

text \<open>The licence gate. A module whose feature is not licensed is refused before anything else
  happens: the error names the feature and the module, nothing is published, the module is not
  initialised, and the supervisor is unchanged. An unregistered name gives \<open>ErrUnknownModule\<close>.\<close>

theorem load_refused:
  assumes "get (loaded s) name = None"
  shows "(get (modules s) name = None \<longrightarrow>
            (\<exists>e. Load cfg M name s w = (Some e, s, w) \<and> errorsIs e ''unknown module'')) \<and>
         (\<forall>m h w0 w1. get (modules s) name = Some m \<longrightarrow> mi_LicenseFeature (m_Info M m) \<noteq> '''' \<longrightarrow>
            c_Host cfg name w = (Some h, w0) \<longrightarrow>
            h_FeatureEnabled h (mi_LicenseFeature (m_Info M m)) w0 = (False, w1) \<longrightarrow>
            Load cfg M name s w =
              (Some (Errorf (''license feature '' @ Quote (mi_LicenseFeature (m_Info M m)) @
                             '' not enabled for module '' @ Quote name)), s, w1))"
  using assms by (simp add: Load_def licenseGate_def ErrUnknownModule_def)

theorem load_refused_witness:
  "\<exists>e. Load cfg0 helloModule ''dns'' sup0 world0 = (Some e, sup0, world0) \<and> errorsIs e ''unknown module''"
  using load_refused [of sup0 "''dns''" cfg0 helloModule world0] by simp

section \<open>Unload and Shutdown\<close>

text \<open>C30: What \<open>Unload\<close> does. Afterwards the module is not loaded; if it was, its context is cancelled
  and its name, in all its occurrences, is gone from the enabled list, which keeps the other names in
  their order. Other modules and the registry are untouched, and unloading a module that is not
  loaded changes nothing.\<close>

theorem unload_effect:
  assumes "Unload cfg M name s w = (s', w')"
  shows "get (loaded s') name = None \<and> (\<forall>n. n \<noteq> name \<longrightarrow> get (loaded s') n = get (loaded s) n) \<and>
         modules s' = modules s \<and>
         (case get (loaded s) name of
            None \<Rightarrow> s' = s \<and> w' = w
          | Some ms \<Rightarrow> ms_ctx ms \<in> set (cancelled s') \<and>
              enabledList (persisted s') = filter (\<lambda>n. n \<noteq> name) (enabledList (persisted s)))"
  using assms by (cases rule: Unload_cases) (auto simp: enabledList_remove)

theorem unload_effect_witness:
  "loaded (fst (Unload cfg0 helloModule ''hello'' sup1 world0)) = [] \<and>
   enabledList (persisted (fst (Unload cfg0 helloModule ''hello'' sup1 world0))) = []"
  using unload_effect [of cfg0 helloModule "''hello''" sup1 world0, OF surjective_pairing]
  by (simp add: enabledList_def Unload_def stopLocked_def hello_defs Let_def cancel_def split: prod.splits)

lemma stopAll_effect:
  assumes "stopAll cfg M names s w = (s', w')" and "distinct names"
    and "\<forall>n\<in>set names. get (loaded s) n \<noteq> None"
  shows "(\<forall>n. get (loaded s') n = (if n \<in> set names then None else get (loaded s) n)) \<and>
         cancelled s' = rev (map (\<lambda>n. ms_ctx (the (get (loaded s) n))) names) @ cancelled s \<and>
         persisted s' = persisted s \<and> modules s' = modules s \<and> lifeDone s' = lifeDone s \<and>
         pending s' = pending s"
  using assms
proof (induction names arbitrary: s w)
  case Nil
  then show ?case by simp
next
  case (Cons x names)
  obtain s1 w1 where 1: "stopLocked cfg M x s w = (s1, w1)" by fastforce
  from Cons.prems(3) obtain ms where ms: "get (loaded s) x = Some ms" by auto
  from 1 ms have s1: "s1 = s\<lparr>cancelled := ms_ctx ms # cancelled s, loaded := del x (loaded s)\<rparr>"
    by (auto elim: stopLocked_cases)
  have rest: "stopAll cfg M names s1 w1 = (s', w')" using Cons.prems(1) 1 by simp
  have eq: "map (\<lambda>n. ms_ctx (the (get (loaded s1) n))) names = map (\<lambda>n. ms_ctx (the (get (loaded s) n))) names"
    using s1 Cons.prems(2) by auto
  have "\<forall>n\<in>set names. get (loaded s1) n \<noteq> None" using s1 Cons.prems(2,3) by auto
  from Cons.IH [OF rest _ this] Cons.prems(2) eq ms s1 show ?case by auto
qed

text \<open>What stopping one module does to the world: its host hears of it, the instance's \<open>Stop\<close> runs, its host hears of that.\<close>

definition told :: "string \<Rightarrow> ('m, 'x world_scheme) moduleState \<Rightarrow> string \<Rightarrow> 'x world_scheme \<Rightarrow> 'x world_scheme" where
  "told name ms msg w =
     (case ms_host ms of None \<Rightarrow> w
      | Some h \<Rightarrow> h_Publish h \<lparr>ev_Module = name, ev_Type = EventStateChanged, ev_Message = msg, ev_At = wnow w, ev_Fields = []\<rparr> w)"

definition stopped_world ::
  "('m, 'x world_scheme) Module \<Rightarrow> ('m, 'x world_scheme) Supervisor \<Rightarrow> string \<Rightarrow> 'x world_scheme \<Rightarrow> 'x world_scheme" where
  "stopped_world M s name w =
     (case get (loaded s) name of None \<Rightarrow> w
      | Some ms \<Rightarrow> told name ms StateStopped (snd (snd (m_Stop M (ms_instance ms) (told name ms StateStopping w)))))"

lemma stopAll_world:
  assumes "stopAll cfg M names s w = (s', w')" and "distinct names"
  shows "w' = fold (stopped_world M s) names w"
  using assms
proof (induction names arbitrary: s w)
  case (Cons x names)
  obtain s1 w1 where 1: "stopLocked cfg M x s w = (s1, w1)" by fastforce
  then have w1: "w1 = stopped_world M s x w"
    by (auto simp: stopLocked_def stopped_world_def told_def publishEvent_def Let_def cancel_def split: option.splits prod.splits)
  have "get (loaded s1) n = get (loaded s) n" if "n \<noteq> x" for n
    using 1 that by (cases rule: stopLocked_cases) auto
  then have "fold (stopped_world M s1) names v = fold (stopped_world M s) names v" for v
    using Cons.prems(2) by (intro fold_cong refl ext) (metis (no_types, lifting) distinct.simps(2) stopped_world_def)
  with Cons.IH [of s1 w1] Cons.prems 1 w1 show ?case by simp
qed simp

lemma Shutdown_effect:
  assumes "wf_map (loaded s)" and "Shutdown cfg M s w = (s', w')"
  shows "(\<forall>n. get (loaded s') n = None) \<and> lifeDone s' \<and> persisted s' = persisted s \<and>
         cancelled s' = map (\<lambda>n. ms_ctx (the (get (loaded s) n))) (sort (keys (loaded s))) @ cancelled s \<and>
         w' = fold (stopped_world M s) (rev (sort (keys (loaded s)))) w"
proof -
  let ?names = "rev (sort (keys (loaded s)))"
  have d: "distinct ?names" using assms(1) by (simp add: wf_map_def)
  have all: "\<forall>n\<in>set ?names. get (loaded (lifeStop s)) n \<noteq> None"
    by (auto simp: lifeStop_def get_None_iff image_iff)
  have out: "n \<notin> set ?names \<Longrightarrow> get (loaded s) n = None" for n
    by (simp add: get_None_iff)
  from assms(2) have st: "stopAll cfg M ?names (lifeStop s) w = (s', w')" by (simp add: Shutdown_def)
  have "stopped_world M (lifeStop s) = stopped_world M s" by (simp add: stopped_world_def lifeStop_def fun_eq_iff)
  with stopAll_effect [OF st d all] stopAll_world [OF st d] out show ?thesis by (auto simp: lifeStop_def rev_map)
qed

lemma Shutdown_cancels:
  assumes "wf_map (loaded s)" and "ctx_inv s" and "Shutdown cfg M s w = (s', w')" and "c < nextCtx s"
  shows "c \<in> set (cancelled s')"
proof (cases "c \<in> set (cancelled s)")
  case True
  then show ?thesis using Shutdown_effect [OF assms(1,3)] by simp
next
  case False
  with assms(2,4) obtain n ms where "get (loaded s) n = Some ms" "ms_ctx ms = c"
    unfolding ctx_inv_def ctx_ok_def by auto
  then show ?thesis using Shutdown_effect [OF assms(1,3)] get_Some_key by (force simp: image_iff)
qed

text \<open>C31: What \<open>Shutdown\<close> does. Every module is stopped and none stays loaded: in descending order of their names (a comment in the
  source says reverse load order, which the code does not record), each module's host is told, the \<open>Stop\<close> of its instance runs,
  its context is cancelled and its host is told again, whether \<open>Stop\<close> fails or not, and nothing else happens to the world. No
  pending restart will be waited for, and the enabled list is untouched, so that the next boot brings the same modules back.\<close>

theorem shutdown_effect:
  assumes "wf_map (loaded s)" and "Shutdown cfg M s w = (s', w')"
  shows "(\<forall>n. get (loaded s') n = None) \<and> lifeDone s' \<and> persisted s' = persisted s \<and>
         cancelled s' = map (\<lambda>n. ms_ctx (the (get (loaded s) n))) (sort (keys (loaded s))) @ cancelled s \<and>
         w' = fold (\<lambda>n v. case get (loaded s) n of None \<Rightarrow> v
                      | Some ms \<Rightarrow> told n ms StateStopped (snd (snd (m_Stop M (ms_instance ms) (told n ms StateStopping v)))))
                   (rev (sort (keys (loaded s)))) w"
  using Shutdown_effect [OF assms] unfolding stopped_world_def by simp

theorem shutdown_effect_witness:
  "\<exists>s'. Shutdown cfg0 helloModule sup1 world0 = (s', world0) \<and> (\<forall>n. get (loaded s') n = None) \<and> cancelled s' = [0]"
proof -
  obtain s' w' where 1: "Shutdown cfg0 helloModule sup1 world0 = (s', w')" by fastforce
  have "wf_map (loaded sup1)" by (simp add: wf_map_def)
  from shutdown_effect [OF this 1] 1 show ?thesis
    by (simp add: newState_def told_def quietHost_def hello_defs)
qed

section \<open>Failures\<close>

definition reportMany ::
  "('x world_scheme) Config \<Rightarrow> string \<Rightarrow> nat \<Rightarrow> ('m, 'x world_scheme) Supervisor \<Rightarrow> 'x world_scheme \<Rightarrow>
   ('m, 'x world_scheme) Supervisor \<times> 'x world_scheme" where
  "reportMany cfg name k s w = ((\<lambda>(s, w). ReportFailure cfg name s w) ^^ k) (s, w)"

lemma reportMany_Suc:
  "reportMany cfg name (Suc k) s w = (case reportMany cfg name k s w of (s1, w1) \<Rightarrow> ReportFailure cfg name s1 w1)"
  by (simp add: reportMany_def)

lemma reportMany_effect:
  assumes "get (loaded s) name = Some ms" "ms_restartAttempt ms = 0" "0 < maxRestart s" "0 < k"
    and "reportMany cfg name k s w = (s', w')"
  shows "maxRestart s' = maxRestart s \<and>
         length (pending s') = length (pending s) + min k (nat (maxRestart s) - 1) \<and>
         (\<exists>ms'. get (loaded s') name = Some ms' \<and> ms_restartAttempt ms' = int k \<and>
            ms_state ms' = (if maxRestart s \<le> int k then StateFailed else StateDegraded) \<and>
            ms_instance ms' = ms_instance ms \<and> ms_ctx ms' = ms_ctx ms)"
  using assms(4,5)
proof (induction k arbitrary: s' w')
  case 0
  then show ?case by simp
next
  case (Suc k)
  obtain s1 w1 where 1: "reportMany cfg name k s w = (s1, w1)" by fastforce
  have s1: "maxRestart s1 = maxRestart s \<and>
      length (pending s1) = length (pending s) + min k (nat (maxRestart s) - 1) \<and>
      (\<exists>ms'. get (loaded s1) name = Some ms' \<and> ms_restartAttempt ms' = int k \<and>
         ms_instance ms' = ms_instance ms \<and> ms_ctx ms' = ms_ctx ms)"
  proof (cases "k = 0")
    case True
    with 1 assms(1,2) show ?thesis by (simp add: reportMany_def)
  next
    case False
    with Suc.IH [OF _ 1] show ?thesis by auto
  qed
  have "ReportFailure cfg name s1 w1 = (s', w')" using Suc.prems(2) 1 by (simp add: reportMany_Suc)
  then show ?case
    by (cases rule: ReportFailure_cases) (use s1 assms(3) in auto)
qed

text \<open>Restarts are bounded. Of \<open>k\<close> failures reported for a loaded module that had none before,
  the first \<open>maxRestart - 1\<close> each schedule one restart and leave it degraded; from the
  \<open>maxRestart\<close>-th on it is parked in the failed state and nothing more is scheduled.\<close>

theorem failures_park:
  assumes "get (loaded s) name = Some ms" "ms_restartAttempt ms = 0" "0 < maxRestart s" "0 < k"
    and "reportMany cfg name k s w = (s', w')"
  shows "maxRestart s' = maxRestart s \<and>
         length (pending s') = length (pending s) + min k (nat (maxRestart s) - 1) \<and>
         (\<exists>ms'. get (loaded s') name = Some ms' \<and> ms_restartAttempt ms' = int k \<and>
            ms_state ms' = (if maxRestart s \<le> int k then StateFailed else StateDegraded) \<and>
            ms_instance ms' = ms_instance ms \<and> ms_ctx ms' = ms_ctx ms)"
  by (rule reportMany_effect [OF assms])

theorem failures_park_witness:
  "length (pending (fst (reportMany cfg0 ''hello'' 7 sup1 world0))) = 4 \<and>
   (\<exists>ms. get (loaded (fst (reportMany cfg0 ''hello'' 7 sup1 world0))) ''hello'' = Some ms \<and> ms_state ms = StateFailed)"
  using failures_park [of sup1 "''hello''" _ 7 cfg0 world0, OF _ _ _ _ surjective_pairing]
  by (auto simp: newState_def)

text \<open>C39: A due restart timer revives even a parked module. When the instance stops and a fresh one
  initialises and starts, the module is running again with a new context, the old context is
  cancelled, and the failure count is the one from before: a successful restart does not reset it.\<close>

theorem restart_revives:
  assumes "get (loaded s) name = Some ms" and "restartNow cfg M name s w = (False, s', w')"
  shows "\<exists>ms'. get (loaded s') name = Some ms' \<and> ms_state ms' = StateRunning \<and>
           ms_ctx ms' = nextCtx s \<and> ms_restartAttempt ms' = ms_restartAttempt ms \<and>
           ms_ctx ms \<in> set (cancelled s') \<and> ms_factory ms' = ms_factory ms"
  using assms(2) by (cases rule: restartNow_cases) (use assms(1) in auto)

theorem restart_revives_witness:
  "\<exists>ms. get (loaded (fst (snd (restartNow cfg0 helloModule ''hello''
            (fst (reportMany cfg0 ''hello'' 5 sup1 world0)) world0)))) ''hello'' = Some ms \<and>
     ms_state ms = StateRunning \<and> ms_restartAttempt ms = 5"
proof -
  let ?s = "fst (reportMany cfg0 ''hello'' 5 sup1 world0)"
  obtain ms where ms: "get (loaded ?s) ''hello'' = Some ms" "ms_restartAttempt ms = 5"
    using reportMany_effect [of sup1 "''hello''" _ 5 cfg0 world0, OF _ _ _ _ surjective_pairing]
    by (auto simp: newState_def)
  have f: "fst (restartNow cfg0 helloModule ''hello'' s w) = False" for s w
    by (simp add: restartNow_def hello_defs Let_def split: option.split)
  obtain f' s' w' where r: "restartNow cfg0 helloModule ''hello'' ?s world0 = (f', s', w')"
    by (cases "restartNow cfg0 helloModule ''hello'' ?s world0")
  then have "restartNow cfg0 helloModule ''hello'' ?s world0 = (False, s', w')"
    using f [of ?s world0] by simp
  from restart_revives [OF ms(1) this] ms(2) r show ?thesis by auto
qed

section \<open>Boot\<close>

definition loads_always :: "('x world_scheme) Config \<Rightarrow> ('m, 'x world_scheme) Module \<Rightarrow>
   (string, 'm) gomap \<Rightarrow> string \<Rightarrow> bool" where
  "loads_always cfg M reg n \<longleftrightarrow> (\<forall>s w. modules s = reg \<longrightarrow> fst (Load cfg M n s w) = None)"

lemma Load_keeps:
  assumes "Load cfg M n s w = (r, s', w')"
  shows "modules s' = modules s" and "get (loaded s) k \<noteq> None \<Longrightarrow> get (loaded s') k \<noteq> None"
    and "get (loaded s') k \<noteq> None \<Longrightarrow> get (loaded s) k \<noteq> None \<or> (k = n \<and> get (modules s) k \<noteq> None)"
    and "r = None \<Longrightarrow> get (loaded s') n \<noteq> None"
    and "n \<in> set (enabledList (persisted s)) \<Longrightarrow> persisted s' = persisted s"
  using assms by (auto elim!: Load_cases simp: cancel_def addToEnabled_def split: if_splits)

lemma loadAll_effect:
  assumes "loadAll cfg M names s w = (s', w')" and "set names \<subseteq> set (enabledList (persisted s))"
  shows "persisted s' = persisted s \<and> modules s' = modules s \<and>
         (\<forall>k. get (loaded s') k \<noteq> None \<longrightarrow> get (loaded s) k \<noteq> None \<or> (k \<in> set names \<and> get (modules s) k \<noteq> None)) \<and>
         (\<forall>k. get (loaded s) k \<noteq> None \<longrightarrow> get (loaded s') k \<noteq> None) \<and>
         (\<forall>k\<in>set names. loads_always cfg M (modules s) k \<longrightarrow> get (loaded s') k \<noteq> None)"
  using assms
proof (induction names arbitrary: s w)
  case Nil
  then show ?case by simp
next
  case (Cons n names)
  obtain r s1 w1 where 1: "Load cfg M n s w = (r, s1, w1)" by (cases "Load cfg M n s w")
  note k = Load_keeps [OF 1]
  have p1: "persisted s1 = persisted s" using k(5) Cons.prems(2) by simp
  have rest: "loadAll cfg M names s1 w1 = (s', w')" using Cons.prems(1) 1 by simp
  have IH: "persisted s' = persisted s1 \<and> modules s' = modules s1 \<and>
      (\<forall>k. get (loaded s') k \<noteq> None \<longrightarrow> get (loaded s1) k \<noteq> None \<or> (k \<in> set names \<and> get (modules s1) k \<noteq> None)) \<and>
      (\<forall>k. get (loaded s1) k \<noteq> None \<longrightarrow> get (loaded s') k \<noteq> None) \<and>
      (\<forall>k\<in>set names. loads_always cfg M (modules s1) k \<longrightarrow> get (loaded s') k \<noteq> None)"
    by (rule Cons.IH [OF rest]) (use Cons.prems(2) p1 in simp)
  have n: "get (loaded s1) n \<noteq> None" if "loads_always cfg M (modules s) n"
  proof -
    from that have "fst (Load cfg M n s w) = None" by (simp add: loads_always_def)
    with 1 k(4) show ?thesis by simp
  qed
  show ?case
    using IH n k(1,2,3) p1 by (metis list.set_intros set_ConsD)
qed

text \<open>What booting does. An unreadable or malformed state file is reported and nothing is
  loaded. Otherwise the supervisor takes over the enabled list, loads only registered modules from
  it, and loads each module that can be loaded even when others fail; the list itself is kept, so a
  module that fails to load at this boot is tried again at the next.\<close>

theorem boot_effect:
  assumes "loaded s = []"
  shows "(\<forall>e. LoadState (c_StatePath cfg) (wos w) = Inl e \<longrightarrow> StartEnabled cfg M s w = (Some e, s, w)) \<and>
         (\<forall>ps s' w' r. LoadState (c_StatePath cfg) (wos w) = Inr ps \<longrightarrow> StartEnabled cfg M s w = (r, s', w') \<longrightarrow>
            r = None \<and> persisted s' = ps \<and>
            (\<forall>n. get (loaded s') n \<noteq> None \<longrightarrow> n \<in> set (enabledList ps) \<and> get (modules s) n \<noteq> None) \<and>
            (\<forall>n\<in>set (enabledList ps). loads_always cfg M (modules s) n \<longrightarrow> get (loaded s') n \<noteq> None))"
proof (intro conjI allI impI)
  fix e assume "LoadState (c_StatePath cfg) (wos w) = Inl e"
  then show "StartEnabled cfg M s w = (Some e, s, w)" by (simp add: StartEnabled_def loadPersistedState_def)
next
  fix ps s' w' r
  assume 1: "LoadState (c_StatePath cfg) (wos w) = Inr ps" and 2: "StartEnabled cfg M s w = (r, s', w')"
  then have "loadAll cfg M (enabledList ps) (s\<lparr>persisted := ps\<rparr>) w = (s', w')" and r: "r = None"
    by (simp_all add: StartEnabled_def loadPersistedState_def)
  from loadAll_effect [OF this(1)] r assms
  show "r = None" "persisted s' = ps"
    "\<forall>n\<in>set (enabledList ps). loads_always cfg M (modules s) n \<longrightarrow> get (loaded s') n \<noteq> None"
    and "get (loaded s') n \<noteq> None \<Longrightarrow> n \<in> set (enabledList ps)"
    and "get (loaded s') n \<noteq> None \<Longrightarrow> get (modules s) n \<noteq> None" for n
    by auto
qed

lemma hello_loads_always: "loads_always cfg0 helloModule [(''hello'', fresh0)] ''hello''"
proof -
  have "fst (Load cfg0 helloModule ''hello'' s w) = None" if "modules s = [(''hello'', fresh0)]" for s w
  proof (cases "get (loaded s) ''hello''")
    case None
    with that show ?thesis by (simp add: hello_Load Let_def)
  next
    case (Some ms)
    then show ?thesis by (simp add: Load_def)
  qed
  then show ?thesis by (simp add: loads_always_def)
qed

theorem boot_effect_witness: "fst (StartEnabled cfg0 helloModule sup0 world0) = None"
proof -
  have "LoadState (c_StatePath cfg0) (wos world0) = Inr \<lparr>Enabled = Some []\<rparr>"
    by (simp add: LoadState_def ReadFile_def node_at_def world0_def dirOs_def emptyOs_def cfg0_def
        Clean_def cleanComps_def cleanStep_def)
  moreover obtain r s' w' where "StartEnabled cfg0 helloModule sup0 world0 = (r, s', w')"
    by (cases "StartEnabled cfg0 helloModule sup0 world0")
  ultimately show ?thesis
    using boot_effect [of sup0 cfg0 world0 helloModule] by simp
qed

section \<open>From one life of the daemon to the next\<close>

text \<open>Stopping any instance, and publishing through the hosts of the loaded modules, leaves a file
  readable as before.\<close>

definition stops_quiet :: "path \<Rightarrow> ('m, 'x world_scheme) Module \<Rightarrow> bool" where
  "stops_quiet p M \<longleftrightarrow> (\<forall>m w. ReadFile p (wos (snd (snd (m_Stop M m w)))) = ReadFile p (wos w))"

definition hosts_quiet :: "path \<Rightarrow> ('m, 'x world_scheme) Supervisor \<Rightarrow> bool" where
  "hosts_quiet p s \<longleftrightarrow>
     (\<forall>n ms h ev w. get (loaded s) n = Some ms \<longrightarrow> ms_host ms = Some h \<longrightarrow>
        ReadFile p (wos (h_Publish h ev w)) = ReadFile p (wos w))"

lemma stopLocked_quiet:
  assumes "stops_quiet p M" and "hosts_quiet p s"
  shows "ReadFile p (wos (snd (stopLocked cfg M n s w))) = ReadFile p (wos w)"
proof (cases "get (loaded s) n")
  case None
  then show ?thesis by (simp add: stopLocked_def)
next
  case (Some ms)
  have pub: "ReadFile p (wos (publishEvent cfg s' n t m kvs w)) = ReadFile p (wos w)"
    if "loaded s' = loaded s" for s' t m kvs w
    using assms(2) Some that by (simp add: publishEvent_def hosts_quiet_def split: option.split)
  let ?w1 = "publishEvent cfg s n EventStateChanged StateStopping [] w"
  obtain e m1 w2 where 2: "m_Stop M (ms_instance ms) ?w1 = (e, m1, w2)"
    by (cases "m_Stop M (ms_instance ms) ?w1")
  have "ReadFile p (wos (snd (snd (m_Stop M (ms_instance ms) ?w1)))) = ReadFile p (wos ?w1)"
    using assms(1) unfolding stops_quiet_def by blast
  then have "ReadFile p (wos w2) = ReadFile p (wos ?w1)" unfolding 2 by simp
  then show ?thesis using Some 2 by (simp add: stopLocked_def pub cancel_def Let_def)
qed

lemma stopAll_quiet:
  assumes "stops_quiet p M"
  shows "hosts_quiet p s \<Longrightarrow> ReadFile p (wos (snd (stopAll cfg M names s w))) = ReadFile p (wos w)"
proof (induction names arbitrary: s w)
  case Nil
  then show ?case by simp
next
  case (Cons n names)
  obtain s1 w1 where 1: "stopLocked cfg M n s w = (s1, w1)" by fastforce
  have "get (loaded s1) k = Some ms \<Longrightarrow> get (loaded s) k = Some ms" for k ms
    using 1 by (auto elim!: stopLocked_cases split: if_splits)
  with Cons.prems have "hosts_quiet p s1" unfolding hosts_quiet_def by blast
  from Cons.IH [OF this] have "ReadFile p (wos (snd (stopAll cfg M names s1 w1))) = ReadFile p (wos w1)" .
  moreover have "ReadFile p (wos w1) = ReadFile p (wos w)"
    using stopLocked_quiet [OF assms Cons.prems, of cfg n w] unfolding 1 by simp
  ultimately show ?case using 1 by simp
qed

lemma LoadState_ReadFile: "ReadFile (Clean p) s' = ReadFile (Clean p) s \<Longrightarrow> LoadState p s' = LoadState p s"
  by (simp add: LoadState_def)

text \<open>Booting over a file that lists modules which load: exactly these are loaded.\<close>

lemma boot_restores:
  assumes st: "LoadState (c_StatePath cfg) (wos w1) = Inr ps"
    and loads: "\<forall>n\<in>set (enabledList ps). loads_always cfg M (modules (New M cfg factories)) n"
    and up: "StartEnabled cfg M (New M cfg factories) w1 = (r, s2, w2)"
  shows "r = None \<and> fst ` set (loaded s2) = set (enabledList ps) \<and> persisted s2 = ps"
proof -
  let ?new = "New M cfg factories"
  have la: "loadAll cfg M (enabledList ps) (?new\<lparr>persisted := ps\<rparr>) w1 = (s2, w2)" and r: "r = None"
    using up st by (simp_all add: StartEnabled_def loadPersistedState_def)
  define N where "N = ?new\<lparr>persisted := ps\<rparr>"
  have N: "loaded N = []" "persisted N = ps" "modules N = modules ?new"
    by (simp_all add: N_def New_def)
  note e = loadAll_effect [OF la [folded N_def], unfolded N, OF subset_refl]
  have "n \<in> fst ` set (loaded s2) \<longleftrightarrow> n \<in> set (enabledList ps)" for n
  proof
    assume "n \<in> fst ` set (loaded s2)"
    then have "get (loaded s2) n \<noteq> None" by (metis get_None_iff)
    then show "n \<in> set (enabledList ps)" using e by auto
  next
    assume "n \<in> set (enabledList ps)"
    then have "get (loaded s2) n \<noteq> None" using e loads by blast
    then show "n \<in> fst ` set (loaded s2)" by (metis get_None_iff)
  qed
  then show ?thesis using r e by blast
qed



section \<open>Listing\<close>

lemma map_insort_key: "map f (insort_key f x xs) = insort (f x) (map f xs)"
  by (induction xs) simp_all

lemma map_sort_key_sort: "map f (sort_key f xs) = sort (map f xs)"
  by (induction xs) (simp_all add: map_insort_key)

text \<open>\<open>List\<close> reports every registered module exactly once, in ascending order of names, with the
  recorded state of the loaded ones and \<open>disabled\<close> for the others.\<close>

theorem list_complete:
  assumes "wf_map (modules s)"
  shows "map sn_Name (Sup_List s) = sort (keys (modules s)) \<and> distinct (map sn_Name (Sup_List s)) \<and>
         (\<forall>n\<in>set (Sup_List s).
            sn_State n = (case get (loaded s) (sn_Name n) of None \<Rightarrow> StateDisabled | Some ms \<Rightarrow> ms_state ms))"
proof -
  have nm: "sn_Name (snapshot s n) = n" for n by (simp add: snapshot_def split: option.split)
  have "map sn_Name (Sup_List s) = sort (map sn_Name (map (snapshot s) (keys (modules s))))"
    unfolding Sup_List_def by (rule map_sort_key_sort)
  also have "\<dots> = sort (keys (modules s))" by (simp add: comp_def nm)
  finally have names: "map sn_Name (Sup_List s) = sort (keys (modules s))" .
  moreover have "\<forall>n\<in>set (Sup_List s).
      sn_State n = (case get (loaded s) (sn_Name n) of None \<Rightarrow> StateDisabled | Some ms \<Rightarrow> ms_state ms)"
    by (auto simp: Sup_List_def snapshot_def split: option.split)
  ultimately show ?thesis using assms by (simp add: wf_map_def)
qed

theorem list_complete_witness:
  "map sn_Name (Sup_List sup1) = [''hello''] \<and> map sn_State (Sup_List sup1) = [StateRunning]"
  using list_complete [of sup1] by (simp add: wf_map_def newState_def Sup_List_def snapshot_def)

end
