(* ===== verification/Broker.thy ===== *)
theory Broker
  imports Sdk "HOL-Library.Sublist"
begin

text \<open>
  The event broker of \<open>internal/daemon/server.go\<close>. A subscription is a channel of capacity 10; the
  model keeps the buffered events of each open channel. \<open>Publish\<close> visits the subscribers in the
  unspecified order of a Go map, which makes no difference since it treats them one by one. It holds only a read lock, so
  calls of several publishers may interleave from subscriber to subscriber; here a call is one step, which gives each single
  subscriber every order of events that interleaving gives it, but all subscribers the same one. A send to
  a full channel is dropped. The locale \<open>bounded_sink\<close> is what a publisher may rely on, and the
  broker interprets it.
\<close>

section \<open>State and operations\<close>

record PbEvent =
  pe_Module :: string
  pe_Type :: string
  pe_Message :: string
  pe_AtUnixNano :: "64 word"
  pe_Fields :: "(string, string) gomap"

record EventBroker =
  subscribers :: "(64 word, PbEvent list) gomap"
  nextID :: "64 word"

definition NewEventBroker :: EventBroker where
  "NewEventBroker = \<lparr>subscribers = [], nextID = 1\<rparr>"

definition Subscribe :: "EventBroker \<Rightarrow> 64 word \<times> EventBroker" where
  "Subscribe eb = (nextID eb, eb\<lparr>nextID := nextID eb + 1, subscribers := put (nextID eb) [] (subscribers eb)\<rparr>)"

definition Unsubscribe :: "64 word \<Rightarrow> EventBroker \<Rightarrow> EventBroker" where
  "Unsubscribe i eb =
     (if get (subscribers eb) i \<noteq> None then eb\<lparr>subscribers := del i (subscribers eb)\<rparr> else eb)"

definition protoEvent :: "Event \<Rightarrow> PbEvent" where
  "protoEvent ev =
     \<lparr>pe_Module = ev_Module ev, pe_Type = ev_Type ev, pe_Message = ev_Message ev,
      pe_AtUnixNano = UnixNano (ev_At ev), pe_Fields = ev_Fields ev\<rparr>"

abbreviation capacity :: nat where "capacity \<equiv> 10"

text \<open>A non-blocking send.\<close>

definition trySend :: "PbEvent \<Rightarrow> PbEvent list \<Rightarrow> PbEvent list" where
  "trySend e q = (if length q < capacity then q @ [e] else q)"

definition Publish :: "Event \<Rightarrow> EventBroker \<Rightarrow> EventBroker" where
  "Publish ev eb = eb\<lparr>subscribers := map (\<lambda>(i, q). (i, trySend (protoEvent ev) q)) (subscribers eb)\<rparr>"

text \<open>The receive of \<open>WatchEvents\<close>: it blocks (\<open>None\<close>) on an empty open channel.\<close>

definition recv :: "64 word \<Rightarrow> EventBroker \<Rightarrow> (PbEvent \<times> EventBroker) option" where
  "recv i eb =
     (case get (subscribers eb) i of
        Some (e # q) \<Rightarrow> Some (e, eb\<lparr>subscribers := put i q (subscribers eb)\<rparr>)
      | _ \<Rightarrow> None)"

text \<open>The loop of \<open>WatchEvents\<close> on the events that arrive: those of other modules are skipped.\<close>

definition watchFilter :: "string \<Rightarrow> PbEvent list \<Rightarrow> PbEvent list" where
  "watchFilter m es = filter (\<lambda>e. m = '''' \<or> pe_Module e = m) es"

section \<open>The contract of a sink\<close>

locale bounded_sink =
  fixes publish :: "Event \<Rightarrow> 'b \<Rightarrow> 'b"
    and queue :: "'b \<Rightarrow> 'i \<Rightarrow> PbEvent list option"
    and cap :: nat
  assumes publish_queue:
    "queue (publish ev b) i = map_option (\<lambda>q. if length q < cap then q @ [protoEvent ev] else q) (queue b i)"
begin

lemma publish_bound: "queue b i = Some q \<Longrightarrow> length q \<le> cap \<Longrightarrow> \<exists>q'. queue (publish ev b) i = Some q' \<and> length q' \<le> cap"
  by (auto simp: publish_queue)

text \<open>A subscriber that does not read gets the first events that fit, in order.\<close>

lemma publish_all:
  "queue b i = Some q \<Longrightarrow> length q \<le> cap \<Longrightarrow>
   queue (fold publish evs b) i = Some (take cap (q @ map protoEvent evs))"
proof (induction evs arbitrary: b q)
  case Nil
  then show ?case by simp
next
  case (Cons ev evs)
  let ?q = "if length q < cap then q @ [protoEvent ev] else q"
  have "queue (publish ev b) i = Some ?q" using Cons.prems by (simp add: publish_queue)
  from Cons.IH [OF this] Cons.prems(2) show ?case by (auto simp: take_Cons')
qed

lemma publish_nobody: "queue b i = None \<Longrightarrow> queue (fold publish evs b) i = None"
  by (induction evs arbitrary: b) (simp_all add: publish_queue)

end

lemma get_map_val: "get (map (\<lambda>(i, q). (i, f q)) m) k = map_option f (get m k)"
  by (induction m) auto

interpretation broker: bounded_sink Publish "\<lambda>eb i. get (subscribers eb) i" capacity
  by unfold_locales (simp add: Publish_def get_map_val trySend_def [abs_def])

section \<open>Runs\<close>

datatype bop = Sub | Unsub "64 word" | Pub Event | Recv "64 word"

text \<open>\<open>out\<close> collects what each subscriber has received.\<close>

fun brun :: "bop list \<Rightarrow> EventBroker \<times> (64 word \<Rightarrow> PbEvent list) \<Rightarrow> EventBroker \<times> (64 word \<Rightarrow> PbEvent list)" where
  "brun [] s = s"
| "brun (Sub # ops) (eb, out) = brun ops (snd (Subscribe eb), out)"
| "brun (Unsub i # ops) (eb, out) = brun ops (Unsubscribe i eb, out)"
| "brun (Pub ev # ops) (eb, out) = brun ops (Publish ev eb, out)"
| "brun (Recv i # ops) (eb, out) =
     (case recv i eb of None \<Rightarrow> brun ops (eb, out)
      | Some (e, eb') \<Rightarrow> brun ops (eb', out(i := out i @ [e])))"

definition pubs :: "bop list \<Rightarrow> PbEvent list" where
  "pubs ops = concat (map (\<lambda>op. case op of Pub ev \<Rightarrow> [protoEvent ev] | _ \<Rightarrow> []) ops)"

definition broker_inv :: "EventBroker \<Rightarrow> bool" where
  "broker_inv eb \<longleftrightarrow>
     wf_map (subscribers eb) \<and> (\<forall>i q. get (subscribers eb) i = Some q \<longrightarrow> length q \<le> capacity \<and> i < nextID eb)"

lemma broker_inv_New: "broker_inv NewEventBroker"
  by (simp add: broker_inv_def NewEventBroker_def)

lemma word_less_Suc: "n + 1 \<noteq> (0 :: 64 word) \<Longrightarrow> n < n + 1"
  using unatSuc [of n] by (simp add: word_less_nat_alt add.commute)

lemma broker_inv_Subscribe [inv_keep]:
  "broker_inv eb \<Longrightarrow> nextID eb + 1 \<noteq> 0 \<Longrightarrow> broker_inv (snd (Subscribe eb))"
  using word_less_Suc [of "nextID eb"]
  by (fastforce simp: broker_inv_def Subscribe_def)

lemma broker_inv_Unsubscribe [inv_keep]: "broker_inv eb \<Longrightarrow> broker_inv (Unsubscribe i eb)"
  by (auto simp: broker_inv_def Unsubscribe_def split: if_splits)

lemma keys_map_val: "map fst (map (\<lambda>(i, q). (i, f q)) m) = map fst m"
  by (induction m) auto

lemma broker_inv_Publish [inv_keep]: "broker_inv eb \<Longrightarrow> broker_inv (Publish ev eb)"
  by (auto simp: broker_inv_def Publish_def get_map_val trySend_def wf_map_def keys_map_val simp del: map_map)

lemma broker_inv_recv [inv_keep]:
  assumes "broker_inv eb" "recv i eb = Some (e, eb')"
  shows "broker_inv eb'"
proof -
  from assms(2) obtain q where q: "get (subscribers eb) i = Some (e # q)"
      "eb' = eb\<lparr>subscribers := put i q (subscribers eb)\<rparr>"
    by (auto simp: recv_def split: option.splits list.splits)
  with assms(1) have "length (e # q) \<le> capacity" "i < nextID eb" unfolding broker_inv_def by blast+
  with q assms(1) show ?thesis by (simp add: broker_inv_def)
qed

lemma broker_inv_brun:
  "broker_inv eb \<Longrightarrow> \<forall>op\<in>set ops. op \<noteq> Sub \<Longrightarrow> broker_inv (fst (brun ops (eb, out)))"
proof (induction ops arbitrary: eb out)
  case Nil
  then show ?case by simp
next
  case (Cons op ops)
  show ?case
    using Cons.prems by (cases op) (auto split: option.split intro!: Cons.IH intro: inv_keep)
qed

section \<open>Properties\<close>

text \<open>What subscriber \<open>i\<close> has received and still has buffered is, in order, part of what was published.\<close>

lemma brun_subseq:
  assumes "get (subscribers eb) i = Some q" and "\<forall>op\<in>set ops. op \<noteq> Unsub i \<and> op \<noteq> Sub"
    and "brun ops (eb, out) = (eb', out')"
  shows "\<exists>q'. get (subscribers eb') i = Some q' \<and>
           (\<exists>new. out' i @ q' = (out i @ q) @ new \<and> subseq new (pubs ops))"
  using assms
proof (induction ops arbitrary: eb q out)
  case Nil
  then show ?case by (auto simp: pubs_def)
next
  case (Cons op ops)
  show ?case
  proof (cases op)
    case Sub
    with Cons.prems(2) show ?thesis by simp
  next
    case (Unsub j)
    with Cons.prems have "get (subscribers (Unsubscribe j eb)) i = Some q"
      by (auto simp: Unsubscribe_def)
    from Cons.IH [OF this, of out] Cons.prems Unsub show ?thesis by (simp add: pubs_def)
  next
    case (Pub ev)
    have "get (subscribers (Publish ev eb)) i = Some (trySend (protoEvent ev) q)"
      using Cons.prems(1) by (simp add: Publish_def get_map_val)
    from Cons.IH [OF this, of out] Cons.prems Pub
    obtain q' new where r: "get (subscribers eb') i = Some q'"
      "out' i @ q' = (out i @ trySend (protoEvent ev) q) @ new" "subseq new (pubs ops)" by auto
    show ?thesis
    proof (cases "length q < capacity")
      case True
      with r Pub show ?thesis
        by (intro exI [of _ q'] conjI exI [of _ "protoEvent ev # new"]) (simp_all add: trySend_def pubs_def)
    next
      case False
      with r Pub show ?thesis
        by (intro exI [of _ q'] conjI exI [of _ new]) (simp_all add: trySend_def pubs_def list_emb_Cons)
    qed
  next
    case (Recv j)
    show ?thesis
    proof (cases "recv j eb")
      case None
      with Cons.IH [OF Cons.prems(1), of out] Cons.prems Recv show ?thesis by (simp add: pubs_def)
    next
      case (Some r)
      obtain e eb1 where r: "r = (e, eb1)" by force
      have "\<exists>q1. get (subscribers eb1) i = Some q1 \<and> (out(j := out j @ [e])) i @ q1 = out i @ q"
        using Some r Cons.prems(1) by (auto simp: recv_def split: option.splits list.splits if_splits)
      then obtain q1 where q1: "get (subscribers eb1) i = Some q1" and
        eq: "(out(j := out j @ [e])) i @ q1 = out i @ q" by blast
      have run: "brun ops (eb1, out(j := out j @ [e])) = (eb', out')" using Cons.prems(3) Recv Some r by simp
      have tl: "\<forall>op\<in>set ops. op \<noteq> Unsub i \<and> op \<noteq> Sub" using Cons.prems(2) by simp
      have "pubs (op # ops) = pubs ops" using Recv by (simp add: pubs_def)
      with Cons.IH [OF q1 tl run, unfolded eq] show ?thesis by simp
    qed
  qed
qed

text \<open>Events reach a subscriber in order and at most once. From the moment of its subscription,
  whatever other subscribers do, the events a subscriber has received followed by those waiting in its
  channel are a subsequence of the events published: none is repeated, reordered or invented, and
  its channel never holds more than ten.\<close>

theorem events_in_order:
  assumes "broker_inv eb" and "Subscribe eb = (i, eb1)" and "nextID eb + 1 \<noteq> 0"
    and "\<forall>op\<in>set ops. op \<noteq> Unsub i \<and> op \<noteq> Sub" and "brun ops (eb1, \<lambda>_. []) = (eb2, out)"
  shows "\<exists>q. get (subscribers eb2) i = Some q \<and> subseq (out i @ q) (pubs ops) \<and> length q \<le> capacity"
proof -
  have i: "get (subscribers eb1) i = Some []" and inv1: "broker_inv eb1"
    using assms(1-3) broker_inv_Subscribe [of eb] by (auto simp: Subscribe_def)
  from brun_subseq [OF i assms(4,5)] obtain q where "get (subscribers eb2) i = Some q" "subseq (out i @ q) (pubs ops)"
    by auto
  moreover have "broker_inv eb2" using broker_inv_brun [OF inv1, of ops "\<lambda>_. []"] assms(4,5) by simp
  ultimately show ?thesis by (auto simp: broker_inv_def)
qed

definition ev0 :: Event where
  "ev0 = \<lparr>ev_Module = ''squawk'', ev_Type = EventInfo, ev_Message = ''up'', ev_At = 0, ev_Fields = []\<rparr>"

theorem events_in_order_witness:
  "\<exists>q. get (subscribers (fst (brun [Pub ev0, Recv 1, Pub ev0] (snd (Subscribe NewEventBroker), \<lambda>_. [])))) 1 = Some q \<and>
     length q \<le> capacity"
  using events_in_order [of NewEventBroker 1 "snd (Subscribe NewEventBroker)" "[Pub ev0, Recv 1, Pub ev0]",
      OF broker_inv_New _ _ _ surjective_pairing]
  by (auto simp: Subscribe_def NewEventBroker_def)

text \<open>A slow subscriber loses the newest events, not the oldest. A new subscription that is not
  read while events are published holds exactly the first ten of them.\<close>

theorem slow_subscriber_keeps_first:
  "get (subscribers (fold Publish evs (snd (Subscribe eb)))) (fst (Subscribe eb)) =
     Some (take 10 (map protoEvent evs))"
  using broker.publish_all [of "snd (Subscribe eb)" "fst (Subscribe eb)" "[]" evs]
  by (simp add: Subscribe_def)

end
