(* ===== verification/Server.thy ===== *)
theory Server
  imports Broker Supervisor_Props
begin

text \<open>
  The gRPC server of the daemon (\<open>internal/daemon/server.go\<close>): one definition per handler, over the
  supervisor and the world. A handler returns a status error or a response; reading a nil pointer,
  which ends the daemon, is the error \<open>NilDeref\<close>. The update client and the result of sending on a
  stream are parameters. The event stream is modelled in \<open>Broker\<close> and \<open>Watch\<close>.
\<close>

datatype code = Unimplemented | InvalidArgument | NotFound | PermissionDenied | Internal

datatype rpcerr = RpcStatus code string | Plain goerr | NilDeref

record 'w UpdateClient =
  uc_CheckUpdate :: "'w \<Rightarrow> (goerr + bool \<times> string) \<times> 'w"
  uc_ApplyUpdate :: "'w \<Rightarrow> goerr option \<times> 'w"

record 'w Server =
  sv_version :: string
  sv_eventBroker :: EventBroker
  sv_updateClient :: "'w UpdateClient option"

definition NewServer :: "string \<Rightarrow> 'w UpdateClient option \<Rightarrow> 'w Server" where
  "NewServer version updateClient =
     \<lparr>sv_version = version, sv_eventBroker = NewEventBroker, sv_updateClient = updateClient\<rparr>"

definition checkAPIVersion :: "string \<Rightarrow> rpcerr option" where
  "checkAPIVersion version =
     (if version = '''' \<or> version = ''v1'' then None
      else Some (RpcStatus Unimplemented (''api_version '' @ Quote version @ '' not supported'')))"

record VersionResponse =
  vr_DaemonVersion :: string
  vr_ApiVersion :: string

definition srv_Version :: "'w Server \<Rightarrow> string \<Rightarrow> rpcerr + VersionResponse" where
  "srv_Version sv apiv =
     (case checkAPIVersion apiv of Some e \<Rightarrow> Inl e
      | None \<Rightarrow> Inr \<lparr>vr_DaemonVersion = sv_version sv, vr_ApiVersion = ''v1''\<rparr>)"

record ModuleSummary =
  su_Name :: string
  su_Version :: string
  su_Description :: string
  su_State :: string
  su_External :: bool
  su_LicenseFeature :: string

definition ListModules :: "('m, 'w) Module \<Rightarrow> string \<Rightarrow> ('m, 'w) Supervisor \<Rightarrow> rpcerr + ModuleSummary list" where
  "ListModules M apiv s =
     (case checkAPIVersion apiv of Some e \<Rightarrow> Inl e
      | None \<Rightarrow>
          Inr (concat (map (\<lambda>snap. case Sup_ModuleInfo M (sn_Name snap) s of None \<Rightarrow> []
                               | Some info \<Rightarrow>
                                   [\<lparr>su_Name = sn_Name snap, su_Version = mi_Version info,
                                     su_Description = mi_Description info, su_State = sn_State snap,
                                     su_External = False, su_LicenseFeature = mi_LicenseFeature info\<rparr>])
                         (Sup_List s))))"

definition LoadModule ::
  "('x world_scheme) Config \<Rightarrow> ('m, 'x world_scheme) Module \<Rightarrow> string \<Rightarrow> string \<Rightarrow>
   ('m, 'x world_scheme) Supervisor \<Rightarrow> 'x world_scheme \<Rightarrow>
   (rpcerr + string) \<times> ('m, 'x world_scheme) Supervisor \<times> 'x world_scheme" where
  "LoadModule cfg M apiv name s w =
     (case checkAPIVersion apiv of Some e \<Rightarrow> (Inl e, s, w)
      | None \<Rightarrow>
          if name = '''' then (Inl (RpcStatus InvalidArgument ''module name required''), s, w)
          else case Load cfg M name s w of
                 (Some e, s1, w1) \<Rightarrow>
                   (if errorsIs e ''unknown module''
                    then (Inl (RpcStatus NotFound (''module '' @ Quote name @ '' not found'')), s1, w1)
                    else (Inl (RpcStatus PermissionDenied (''cannot load module: '' @ Error e)), s1, w1))
               | (None, s1, w1) \<Rightarrow>
                   (case Sup_Status M name s1 w1 of
                      (_, Some e) \<Rightarrow> (Inl (RpcStatus Internal (''failed to get status: '' @ Error e)), s1, w1)
                    | (st, None) \<Rightarrow> (Inr (st_State st), s1, w1)))"

definition UnloadModule ::
  "('x world_scheme) Config \<Rightarrow> ('m, 'x world_scheme) Module \<Rightarrow> string \<Rightarrow> string \<Rightarrow>
   ('m, 'x world_scheme) Supervisor \<Rightarrow> 'x world_scheme \<Rightarrow>
   (rpcerr + string) \<times> ('m, 'x world_scheme) Supervisor \<times> 'x world_scheme" where
  "UnloadModule cfg M apiv name s w =
     (case checkAPIVersion apiv of Some e \<Rightarrow> (Inl e, s, w)
      | None \<Rightarrow>
          if name = '''' then (Inl (RpcStatus InvalidArgument ''module name required''), s, w)
          else case Unload cfg M name s w of (s1, w1) \<Rightarrow> (Inr StateStopped, s1, w1))"

section \<open>Status\<close>

record ModuleStatus =
  mo_Name :: string
  mo_State :: string
  mo_Detail :: "(string, string) gomap"
  mo_Health :: string
  mo_HealthMessage :: string
  mo_CheckedAtUnixNano :: "64 word"

definition setInstance :: "string \<Rightarrow> 'm \<Rightarrow> ('m, 'w) Supervisor \<Rightarrow> ('m, 'w) Supervisor" where
  "setInstance name m s =
     (case get (loaded s) name of None \<Rightarrow> s
      | Some ms \<Rightarrow> s\<lparr>loaded := put name (ms\<lparr>ms_instance := m\<rparr>) (loaded s)\<rparr>)"

text \<open>The status of one module; \<open>None\<close> when it has none to show.\<close>

definition moduleStatus ::
  "('m, 'w) Module \<Rightarrow> string \<Rightarrow> ('m, 'w) Supervisor \<Rightarrow> 'w \<Rightarrow>
   ModuleStatus option \<times> ('m, 'w) Supervisor \<times> 'w" where
  "moduleStatus M name s w =
     (case Sup_Status M name s w of
        (_, Some e) \<Rightarrow> (None, s, w)
      | (st, None) \<Rightarrow>
          (case Sup_Module name s of None \<Rightarrow> (None, s, w)
           | Some m \<Rightarrow>
               (case m_Health M m w of
                  (h, m', w') \<Rightarrow>
                    (Some \<lparr>mo_Name = name, mo_State = st_State st, mo_Detail = st_Detail st,
                           mo_Health = HealthLevel_String (hr_Level h), mo_HealthMessage = hr_Message h,
                           mo_CheckedAtUnixNano = UnixNano (hr_CheckedAt h)\<rparr>,
                     setInstance name m' s, w'))))"

fun statusAll ::
  "('m, 'w) Module \<Rightarrow> string list \<Rightarrow> ('m, 'w) Supervisor \<Rightarrow> 'w \<Rightarrow>
   ModuleStatus list \<times> ('m, 'w) Supervisor \<times> 'w" where
  "statusAll M [] s w = ([], s, w)"
| "statusAll M (n # ns) s w =
     (case moduleStatus M n s w of
        (r, s1, w1) \<Rightarrow>
          (case statusAll M ns s1 w1 of
             (rs, s2, w2) \<Rightarrow> ((case r of None \<Rightarrow> rs | Some x \<Rightarrow> x # rs), s2, w2)))"

record GetStatusResponse =
  gs_DaemonVersion :: string
  gs_Modules :: "ModuleStatus list"

definition GetStatus ::
  "'w Server \<Rightarrow> ('m, 'w) Module \<Rightarrow> string \<Rightarrow> string \<Rightarrow> ('m, 'w) Supervisor \<Rightarrow> 'w \<Rightarrow>
   (rpcerr + GetStatusResponse) \<times> ('m, 'w) Supervisor \<times> 'w" where
  "GetStatus sv M apiv name s w =
     (case checkAPIVersion apiv of Some e \<Rightarrow> (Inl e, s, w)
      | None \<Rightarrow>
          if name = '''' then
            (case statusAll M (map sn_Name (Sup_List s)) s w of
               (rs, s1, w1) \<Rightarrow> (Inr \<lparr>gs_DaemonVersion = sv_version sv, gs_Modules = rs\<rparr>, s1, w1))
          else
            (case moduleStatus M name s w of
               (None, s1, w1) \<Rightarrow> (Inl (RpcStatus NotFound (''module '' @ Quote name @ '' not found'')), s1, w1)
             | (Some r, s1, w1) \<Rightarrow> (Inr \<lparr>gs_DaemonVersion = sv_version sv, gs_Modules = [r]\<rparr>, s1, w1)))"

section \<open>Commands\<close>

definition srv_clampInt32 :: "64 word \<Rightarrow> 32 word" where
  "srv_clampInt32 v =
     (if 2147483647 <s v then 2147483647
      else if v <s - 2147483648 then - 2147483648
      else scast v)"

definition sdkFlagToProto :: "FlagSpec \<Rightarrow> PbFlagSpec" where
  "sdkFlagToProto f =
     \<lparr>pf_Name = fl_Name f, pf_Shorthand = fl_Shorthand f, pf_Usage = fl_Usage f,
      pf_Default = fl_Default f, pf_Type = fl_Type f\<rparr>"

text \<open>The loops append to the growing slices.\<close>

fun sdkCommandToProto :: "CommandSpec \<Rightarrow> PbCommandSpec" where
  "sdkCommandToProto (CommandSpec name use shrt flags subs tray minA maxA) =
     PbCommandSpec name use shrt
       (foldl (\<lambda>acc f. acc @ [sdkFlagToProto f]) [] flags)
       (foldl (\<lambda>acc p. acc @ [p]) [] (map sdkCommandToProto subs))
       tray (srv_clampInt32 minA) (srv_clampInt32 maxA)"

definition ListCommands ::
  "('m, 'w) Module \<Rightarrow> string \<Rightarrow> ('m, 'w) Supervisor \<Rightarrow> rpcerr + (string \<times> PbCommandSpec list) list" where
  "ListCommands M apiv s =
     (case checkAPIVersion apiv of Some e \<Rightarrow> Inl e
      | None \<Rightarrow>
          Inr (concat (map (\<lambda>snap. case Sup_Module (sn_Name snap) s of None \<Rightarrow> []
                               | Some m \<Rightarrow> [(sn_Name snap, map sdkCommandToProto (m_Commands M m))])
                         (Sup_List s))))"

record DispatchChunk =
  ck_Output :: string
  ck_Json :: bytes
  ck_ExitCode :: "32 word"
  ck_Final :: bool

definition srv_Dispatch ::
  "('m, 'w) Module \<Rightarrow> string \<Rightarrow> string \<Rightarrow> string list \<Rightarrow> (string, string) gomap \<Rightarrow> string list \<Rightarrow>
   (DispatchChunk \<Rightarrow> goerr option) \<Rightarrow> ('m, 'w) Supervisor \<Rightarrow> 'w \<Rightarrow>
   (rpcerr option \<times> DispatchChunk list) \<times> ('m, 'w) Supervisor \<times> 'w" where
  "srv_Dispatch M apiv name path flags args send s w =
     (case checkAPIVersion apiv of Some e \<Rightarrow> ((Some e, []), s, w)
      | None \<Rightarrow>
          if name = '''' then ((Some (RpcStatus InvalidArgument ''module name required''), []), s, w)
          else case Sup_Module name s of
                 None \<Rightarrow> ((Some (RpcStatus NotFound (''module '' @ Quote name @ '' not found'')), []), s, w)
               | Some m \<Rightarrow>
                   (case m_Dispatch M path flags args m w of
                      ((res, e), m', w') \<Rightarrow>
                        let s' = setInstance name m' s
                        in case e of
                             Some x \<Rightarrow> ((Some (RpcStatus Internal (''dispatch failed: '' @ Error x)), []), s', w')
                           | None \<Rightarrow>
                               (case res of None \<Rightarrow> ((Some NilDeref, []), s', w')
                                | Some r \<Rightarrow>
                                    let chunk = \<lparr>ck_Output = rs_Output r, ck_Json = rs_JSON r,
                                                 ck_ExitCode = srv_clampInt32 (rs_ExitCode r), ck_Final = True\<rparr>
                                    in case send chunk of
                                         Some x \<Rightarrow> ((Some (Plain x), []), s', w')
                                       | None \<Rightarrow> ((None, [chunk]), s', w'))))"

section \<open>Logs and updates\<close>

definition TailLogs :: "string \<Rightarrow> rpcerr" where
  "TailLogs apiv =
     (case checkAPIVersion apiv of Some e \<Rightarrow> e
      | None \<Rightarrow> RpcStatus Unimplemented ''TailLogs not implemented yet'')"

record CheckUpdateResponse =
  cu_Available :: bool
  cu_CurrentVersion :: string
  cu_LatestVersion :: string

definition CheckUpdate :: "'w Server \<Rightarrow> string \<Rightarrow> 'w \<Rightarrow> (rpcerr + CheckUpdateResponse) \<times> 'w" where
  "CheckUpdate sv apiv w =
     (case checkAPIVersion apiv of Some e \<Rightarrow> (Inl e, w)
      | None \<Rightarrow>
          (case sv_updateClient sv of
             None \<Rightarrow> (Inr \<lparr>cu_Available = False, cu_CurrentVersion = sv_version sv,
                           cu_LatestVersion = sv_version sv\<rparr>, w)
           | Some uc \<Rightarrow>
               (case uc_CheckUpdate uc w of
                  (Inl e, w') \<Rightarrow> (Inl (RpcStatus Internal (''check update failed: '' @ Error e)), w')
                | (Inr (available, latest), w') \<Rightarrow>
                    (Inr \<lparr>cu_Available = available, cu_CurrentVersion = sv_version sv,
                          cu_LatestVersion = latest\<rparr>, w'))))"

record ApplyUpdateResponse =
  au_Applied :: bool
  au_Message :: string

definition ApplyUpdate :: "'w Server \<Rightarrow> string \<Rightarrow> 'w \<Rightarrow> (rpcerr + ApplyUpdateResponse) \<times> 'w" where
  "ApplyUpdate sv apiv w =
     (case checkAPIVersion apiv of Some e \<Rightarrow> (Inl e, w)
      | None \<Rightarrow>
          (case sv_updateClient sv of
             None \<Rightarrow> (Inr \<lparr>au_Applied = False, au_Message = ''update client not configured''\<rparr>, w)
           | Some uc \<Rightarrow>
               (case uc_ApplyUpdate uc w of
                  (Some e, w') \<Rightarrow> (Inr \<lparr>au_Applied = False, au_Message = Error e\<rparr>, w')
                | (None, w') \<Rightarrow> (Inr \<lparr>au_Applied = True, au_Message = ''update applied successfully''\<rparr>, w'))))"

section \<open>Properties\<close>

text \<open>The API version gate. A request of a version other than the empty one and \<open>v1\<close> is refused by
  every handler with the code \<open>Unimplemented\<close>, and neither supervisor nor world is touched.\<close>

theorem version_gate:
  assumes "apiv \<notin> {'''', ''v1''}"
  shows "\<exists>msg. srv_Version sv apiv = Inl (RpcStatus Unimplemented msg) \<and>
           ListModules M apiv s = Inl (RpcStatus Unimplemented msg) \<and>
           LoadModule cfg M apiv name s w = (Inl (RpcStatus Unimplemented msg), s, w) \<and>
           UnloadModule cfg M apiv name s w = (Inl (RpcStatus Unimplemented msg), s, w) \<and>
           GetStatus sv M apiv name s w = (Inl (RpcStatus Unimplemented msg), s, w) \<and>
           ListCommands M apiv s = Inl (RpcStatus Unimplemented msg) \<and>
           srv_Dispatch M apiv name path flags args send s w = ((Some (RpcStatus Unimplemented msg), []), s, w) \<and>
           CheckUpdate sv apiv w = (Inl (RpcStatus Unimplemented msg), w) \<and>
           ApplyUpdate sv apiv w = (Inl (RpcStatus Unimplemented msg), w) \<and>
           TailLogs apiv = RpcStatus Unimplemented msg"
  using assms
  by (simp add: checkAPIVersion_def srv_Version_def ListModules_def LoadModule_def UnloadModule_def
      GetStatus_def ListCommands_def srv_Dispatch_def CheckUpdate_def ApplyUpdate_def TailLogs_def)

theorem version_gate_witness:
  "\<exists>msg. TailLogs ''v2'' = RpcStatus Unimplemented msg"
  using version_gate [of "''v2''"] by blast

lemma checkAPIVersion_ok [simp]: "checkAPIVersion ''v1'' = None" "checkAPIVersion '''' = None"
  by (simp_all add: checkAPIVersion_def)

text \<open>The codes of \<open>LoadModule\<close>. An unregistered name is \<open>NotFound\<close>; every failure of a registered
  module is \<open>PermissionDenied\<close> with the supervisor's error as text, a failing \<open>Init\<close> or \<open>Start\<close> as much
  as a missing licence (as long as the module's own error is not the unknown-module error); a module
  that loads reports its own state.\<close>

theorem load_module_codes:
  assumes "name \<noteq> ''''" and "Load cfg M name s w = (r, s1, w1)"
  shows "(get (loaded s) name = None \<longrightarrow> get (modules s) name = None \<longrightarrow>
            LoadModule cfg M ''v1'' name s w =
              (Inl (RpcStatus NotFound (''module '' @ Quote name @ '' not found'')), s, w)) \<and>
         (\<forall>e. r = Some e \<longrightarrow> \<not> errorsIs e ''unknown module'' \<longrightarrow>
            LoadModule cfg M ''v1'' name s w =
              (Inl (RpcStatus PermissionDenied (''cannot load module: '' @ Error e)), s1, w1)) \<and>
         (r = None \<longrightarrow> (\<exists>ms. get (loaded s1) name = Some ms \<and>
            (\<forall>st. m_Status M (ms_instance ms) w1 = (st, None) \<longrightarrow>
               LoadModule cfg M ''v1'' name s w = (Inr (st_State st), s1, w1))))"
proof (intro conjI allI impI)
  assume "get (loaded s) name = None" "get (modules s) name = None"
  then show "LoadModule cfg M ''v1'' name s w =
      (Inl (RpcStatus NotFound (''module '' @ Quote name @ '' not found'')), s, w)"
    using assms(1) by (simp add: LoadModule_def Load_def ErrUnknownModule_def)
next
  fix e assume "r = Some e" "\<not> errorsIs e ''unknown module''"
  then show "LoadModule cfg M ''v1'' name s w =
      (Inl (RpcStatus PermissionDenied (''cannot load module: '' @ Error e)), s1, w1)"
    using assms by (simp add: LoadModule_def)
next
  assume r: "r = None"
  from assms(2) r obtain ms where ms: "get (loaded s1) name = Some ms"
    by (cases rule: Load_cases) auto
  then show "\<exists>ms. get (loaded s1) name = Some ms \<and>
      (\<forall>st. m_Status M (ms_instance ms) w1 = (st, None) \<longrightarrow>
         LoadModule cfg M ''v1'' name s w = (Inr (st_State st), s1, w1))"
    using assms r by (simp add: LoadModule_def Sup_Status_def)
qed

text \<open>\<open>ListModules\<close> shows every registered module once, in ascending order, loaded or not.\<close>

theorem list_modules_complete:
  assumes "ListModules M ''v1'' s = Inr mods"
  shows "map su_Name mods = map sn_Name (Sup_List s) \<and>
         set (map su_Name mods) = fst ` set (modules s) \<and>
         (\<forall>m\<in>set mods. get (loaded s) (su_Name m) = None \<longrightarrow> su_State m = StateDisabled)"
proof -
  have nm: "sn_Name (snapshot s n) = n" for n by (simp add: snapshot_def split: option.split)
  have known: "Sup_ModuleInfo M (sn_Name sn) s \<noteq> None" if sn: "sn \<in> set (Sup_List s)" for sn
  proof -
    from sn obtain k where "k \<in> fst ` set (modules s)" "sn = snapshot s k" by (auto simp: Sup_List_def)
    then have "get (modules s) (sn_Name sn) \<noteq> None" by (metis get_None_iff nm)
    then show ?thesis by (auto simp: Sup_ModuleInfo_def split: option.split)
  qed
  let ?f = "\<lambda>snap. case Sup_ModuleInfo M (sn_Name snap) s of None \<Rightarrow> []
      | Some info \<Rightarrow> [\<lparr>su_Name = sn_Name snap, su_Version = mi_Version info,
          su_Description = mi_Description info, su_State = sn_State snap,
          su_External = False, su_LicenseFeature = mi_LicenseFeature info\<rparr>]"
  have mods: "mods = concat (map ?f (Sup_List s))" using assms by (simp add: ListModules_def)
  have "map su_Name (concat (map ?f xs)) = map sn_Name xs" if "set xs \<subseteq> set (Sup_List s)" for xs
    using that known by (induction xs) (auto split: option.split)
  then have names: "map su_Name mods = map sn_Name (Sup_List s)" by (simp add: mods)
  have "set (map sn_Name (Sup_List s)) = fst ` set (modules s)"
    by (auto simp: Sup_List_def nm image_image)
  moreover have "\<forall>m\<in>set mods. get (loaded s) (su_Name m) = None \<longrightarrow> su_State m = StateDisabled"
    by (auto simp: mods Sup_List_def nm split: option.splits) (simp add: snapshot_def)
  ultimately show ?thesis by (simp only: names)
qed

text \<open>The two translations of a command tree to the wire, in the daemon and in the plugin SDK,
  agree on every tree.\<close>

theorem command_translations_agree: "sdkCommandToProto cs = commandSpecToProto cs"
proof (induction cs rule: CommandSpec.induct)
  case (CommandSpec name use shrt flags subs tray minA maxA)
  have snoc: "foldl (\<lambda>acc x. acc @ [f x]) acc xs = acc @ map f xs" for f :: "'a \<Rightarrow> 'b" and acc xs
    by (induction xs arbitrary: acc) simp_all
  have id: "foldl (\<lambda>acc x. acc @ [x]) acc xs = acc @ xs" for acc xs :: "PbCommandSpec list"
    by (induction xs arbitrary: acc) simp_all
  have "map sdkCommandToProto subs = map commandSpecToProto subs"
    using CommandSpec by simp
  then show ?case
    by (simp add: snoc id sdkFlagToProto_def flagSpecToProto_def srv_clampInt32_def clampInt32_def)
qed

text \<open>What \<open>Dispatch\<close> delivers. For a loaded module whose command returns a result, the client gets
  one final chunk with the output unchanged and the exit code saturated to 32 bits; the module keeps
  its new state and the other modules keep theirs. A module that is not loaded is \<open>NotFound\<close>, and an
  error of the command is \<open>Internal\<close> with no chunk sent.\<close>

theorem dispatch_effect:
  assumes "name \<noteq> ''''"
  shows "(get (loaded s) name = None \<longrightarrow>
            srv_Dispatch M ''v1'' name path flags args send s w =
              ((Some (RpcStatus NotFound (''module '' @ Quote name @ '' not found'')), []), s, w)) \<and>
         (\<forall>ms res e m' w'. get (loaded s) name = Some ms \<longrightarrow>
            m_Dispatch M path flags args (ms_instance ms) w = ((res, e), m', w') \<longrightarrow>
            (\<forall>x. e = Some x \<longrightarrow>
               fst (srv_Dispatch M ''v1'' name path flags args send s w) =
                 (Some (RpcStatus Internal (''dispatch failed: '' @ Error x)), [])) \<and>
            (\<forall>r. e = None \<longrightarrow> res = Some r \<longrightarrow> (\<forall>c. send c = None) \<longrightarrow>
               (\<exists>c s'. srv_Dispatch M ''v1'' name path flags args send s w = ((None, [c]), s', w') \<and>
                  ck_Output c = rs_Output r \<and> ck_Final c \<and>
                  sint (ck_ExitCode c) = max (- (2 ^ 31)) (min (2 ^ 31 - 1) (sint (rs_ExitCode r))) \<and>
                  (\<forall>n. get (loaded s') n = (if n = name then Some (ms\<lparr>ms_instance := m'\<rparr>) else get (loaded s) n)))))"
proof -
  have clamp: "srv_clampInt32 v = clampInt32 v" for v by (simp add: srv_clampInt32_def clampInt32_def)
  show ?thesis
    using assms by (auto simp: srv_Dispatch_def Sup_Module_def Let_def setInstance_def clamp sint_clampInt32)
qed

section \<open>Witnesses\<close>

theorem load_module_codes_witness:
  "fst (LoadModule cfg0 helloModule ''v1'' ''hello'' sup0 world0) = Inr StateRunning"
proof -
  obtain w' where l: "Load cfg0 helloModule ''hello'' sup0 world0 = (None, sup1, w')"
    using sup1_Load by blast
  from load_module_codes [OF _ l] show ?thesis by (simp add: hello_defs)
qed

theorem list_modules_complete_witness:
  "\<exists>mods. ListModules helloModule ''v1'' sup0 = Inr mods \<and> map su_Name mods = [''hello'']"
proof -
  have "\<exists>mods. ListModules helloModule ''v1'' sup0 = Inr mods" by (simp add: ListModules_def)
  then obtain mods where m: "ListModules helloModule ''v1'' sup0 = Inr mods" by blast
  from list_modules_complete [OF m] m show ?thesis
    by (simp add: Sup_List_def snapshot_def)
qed

theorem dispatch_effect_witness:
  "\<exists>c s'. srv_Dispatch helloModule ''v1'' ''hello'' [''greet''] [] [''ann''] (\<lambda>_. None) sup1 world0 =
     ((None, [c]), s', world0) \<and> ck_Output c = ''hello, ann''"
  using dispatch_effect [of "''hello''" sup1 helloModule "[''greet'']" "[]" "[''ann'']" "\<lambda>_. None" world0]
  by (auto simp: hello_defs newState_def)

end
