(* ===== verification/Extplugin.thy ===== *)
theory Extplugin
  imports Json Os_Model Sdk
begin

unbundle bit_operations_syntax

text \<open>
  External plugins (\<open>internal/extplugin\<close>): the manifest, the verifier, discovery and launch, the
  adapter through which the daemon drives a plugin, and the host service it offers to it. The hash
  function, the minisign library and go-plugin's process handling are parameters. The adapter is a
  function of the gRPC client it calls; \<open>grpcClient\<close> connects it to the plugin-side service of
  \<open>Sdk\<close> over a transport, and composing the two gives the refinement theorem
  \<open>adapter_refines_module\<close>.
\<close>

section \<open>Manifest\<close>

record Manifest =
  mf_Name :: string
  mf_Version :: string
  mf_SDKVersion :: string
  mf_Binary :: string
  mf_SHA256 :: string
  mf_Publisher :: string

definition emptyManifest :: Manifest where
  "emptyManifest = \<lparr>mf_Name = '''', mf_Version = '''', mf_SDKVersion = '''', mf_Binary = '''',
                    mf_SHA256 = '''', mf_Publisher = ''''\<rparr>"

definition manifestField :: "string \<Rightarrow> string \<Rightarrow> Manifest \<Rightarrow> Manifest" where
  "manifestField k v m =
     (if k = ''name'' then m\<lparr>mf_Name := v\<rparr>
      else if k = ''version'' then m\<lparr>mf_Version := v\<rparr>
      else if k = ''sdk_version'' then m\<lparr>mf_SDKVersion := v\<rparr>
      else if k = ''binary'' then m\<lparr>mf_Binary := v\<rparr>
      else if k = ''sha256'' then m\<lparr>mf_SHA256 := v\<rparr>
      else m\<lparr>mf_Publisher := v\<rparr>)"

abbreviation manifestKeys :: "string list" where
  "manifestKeys \<equiv> [''name'', ''version'', ''sdk_version'', ''binary'', ''sha256'', ''publisher'']"

text \<open>Keys match case-insensitively, \<open>null\<close> leaves a field alone, and a value that is not a string
  fails the whole decoding.\<close>

fun decManifest :: "(string \<times> json) list \<Rightarrow> Manifest \<Rightarrow> Manifest option" where
  "decManifest [] m = Some m"
| "decManifest ((k, j) # kvs) m =
     (if ToLower k \<in> set manifestKeys then
        (case j of JStr v \<Rightarrow> decManifest kvs (manifestField (ToLower k) v m)
         | JNull \<Rightarrow> decManifest kvs m
         | _ \<Rightarrow> None)
      else decManifest kvs m)"

definition decodeManifest :: "bytes \<Rightarrow> Manifest option" where
  "decodeManifest d =
     (case parse d of
        Some (JObj kvs) \<Rightarrow> decManifest kvs emptyManifest
      | Some JNull \<Rightarrow> Some emptyManifest
      | _ \<Rightarrow> None)"

datatype pluginErr =
    ReadManifest oserr | ParseManifest | Missing string
  | StatErr string oserr | WorldWritable string filemode | WrongOwner string nat nat
  | HashErr oserr | HashMismatch string string | ReadSig oserr | ReadBinary oserr
  | BadSignature | NoKeys | Launch goerr

definition LoadManifest :: "path \<Rightarrow> os \<Rightarrow> pluginErr + Manifest" where
  "LoadManifest pluginDir s =
     (case ReadFile (JoinPath [pluginDir, ''plugin.json'']) s of Inl e \<Rightarrow> Inl (ReadManifest e)
      | Inr d \<Rightarrow>
          (case decodeManifest d of None \<Rightarrow> Inl ParseManifest
           | Some m \<Rightarrow>
               if mf_Name m = '''' then Inl (Missing ''name'')
               else if mf_Binary m = '''' then Inl (Missing ''binary'')
               else if mf_SHA256 m = '''' then Inl (Missing ''sha256'')
               else Inr m))"

definition BinaryPath :: "Manifest \<Rightarrow> path \<Rightarrow> path" where
  "BinaryPath m pluginDir = JoinPath [pluginDir, mf_Binary m]"

definition SignaturePath :: "Manifest \<Rightarrow> path \<Rightarrow> path" where
  "SignaturePath m pluginDir = JoinPath [pluginDir, mf_Binary m @ ''.minisig'']"

section \<open>Verifier\<close>

text \<open>\<open>fi_SysUid\<close> is the result of the type assertion on \<open>info.Sys()\<close>. The value that \<open>os.Stat\<close> returns
  there, \<open>*syscall.Stat_t\<close>, has a field \<open>Uid\<close> and no method of that name, so for \<open>RealStat\<close> the
  assertion fails.\<close>

record FileInfo =
  fi_Mode :: filemode
  fi_SysUid :: "nat option"

definition RealStat :: "path \<Rightarrow> os \<Rightarrow> oserr + FileInfo" where
  "RealStat p s =
     (case Stat p s of Inl e \<Rightarrow> Inl e
      | Inr n \<Rightarrow> Inr \<lparr>fi_Mode = (case n of Directory m _ \<Rightarrow> 0x80000000 OR m | File _ m _ \<Rightarrow> m),
                       fi_SysUid = None\<rparr>)"

record 'key crypto =
  sha256hex :: "bytes \<Rightarrow> string"
  parseKey :: "string \<Rightarrow> 'key option"
  minisignVerify :: "'key \<Rightarrow> bytes \<Rightarrow> bytes \<Rightarrow> bool"

record Verifier =
  vf_stat :: "path \<Rightarrow> os \<Rightarrow> oserr + FileInfo"
  vf_trusted :: "string list"

definition embeddedPublicKey :: string where
  "embeddedPublicKey =
     ''untrusted comment: minisign public key'' @ [CHR 0x0A] @
     ''RWQf7zLn5+DYjyZ8ZWIrasJVjMKWePWGVgvBvF40FmkT7K7VZV7EVwA='' @ [CHR 0x0A]"

abbreviation trustDir :: path where "trustDir \<equiv> ''/etc/penguin/trusted-publishers.d''"

definition trustedKeys :: "os \<Rightarrow> string list" where
  "trustedKeys s =
     (case ReadDir trustDir s of Inl _ \<Rightarrow> []
      | Inr entries \<Rightarrow>
          concat (map (\<lambda>(name, isdir).
                         if \<not> HasSuffix name ''.pub'' \<or> isdir then []
                         else case ReadFile (JoinPath [trustDir, name]) s of Inl _ \<Rightarrow> [] | Inr k \<Rightarrow> [k])
                    entries))"

definition NewVerifier :: "os \<Rightarrow> Verifier" where
  "NewVerifier s = \<lparr>vf_stat = RealStat, vf_trusted = embeddedPublicKey # trustedKeys s\<rparr>"

definition NewVerifierWithKeys :: "string list \<Rightarrow> Verifier" where
  "NewVerifierWithKeys ks = \<lparr>vf_stat = RealStat, vf_trusted = ks\<rparr>"

definition checkOwner :: "string \<Rightarrow> FileInfo \<Rightarrow> os \<Rightarrow> pluginErr option" where
  "checkOwner what info s =
     (case fi_SysUid info of None \<Rightarrow> None
      | Some uid \<Rightarrow> if uid \<noteq> 0 \<and> uid \<noteq> getuid s then Some (WrongOwner what uid (getuid s)) else None)"

definition verifyDirOwnership :: "Verifier \<Rightarrow> path \<Rightarrow> os \<Rightarrow> pluginErr option" where
  "verifyDirOwnership v dir s =
     (case vf_stat v dir s of Inl e \<Rightarrow> Some (StatErr ''dir'' e)
      | Inr info \<Rightarrow>
          if worldWritable (fi_Mode info) then Some (WorldWritable ''dir'' (fi_Mode info))
          else checkOwner ''dir'' info s)"

definition verifyFileOwnership :: "Verifier \<Rightarrow> path \<Rightarrow> os \<Rightarrow> pluginErr option" where
  "verifyFileOwnership v p s =
     (case vf_stat v p s of Inl e \<Rightarrow> Some (StatErr ''file'' e)
      | Inr info \<Rightarrow>
          if worldWritable (fi_Mode info) then Some (WorldWritable ''file'' (fi_Mode info))
          else checkOwner ''file'' info s)"

definition verifySHA256 :: "'key crypto \<Rightarrow> path \<Rightarrow> string \<Rightarrow> os \<Rightarrow> pluginErr option" where
  "verifySHA256 C p expectedHash s =
     (case ReadFile p s of Inl e \<Rightarrow> Some (HashErr e)
      | Inr d \<Rightarrow>
          (case FileClose p s of Some e \<Rightarrow> Some (HashErr e)
           | None \<Rightarrow>
               if sha256hex C d \<noteq> expectedHash then Some (HashMismatch (sha256hex C d) expectedHash) else None))"

fun tryKeys :: "'key crypto \<Rightarrow> bytes \<Rightarrow> bytes \<Rightarrow> string list \<Rightarrow> bool \<Rightarrow> pluginErr option" where
  "tryKeys C binaryData sigData [] failed = Some (if failed then BadSignature else NoKeys)"
| "tryKeys C binaryData sigData (keyStr # ks) failed =
     (case parseKey C keyStr of None \<Rightarrow> tryKeys C binaryData sigData ks True
      | Some key \<Rightarrow>
          if \<not> minisignVerify C key binaryData sigData then tryKeys C binaryData sigData ks True
          else None)"

definition verifySignature :: "'key crypto \<Rightarrow> Verifier \<Rightarrow> path \<Rightarrow> path \<Rightarrow> os \<Rightarrow> pluginErr option" where
  "verifySignature C v binaryPath sigPath s =
     (case ReadFile sigPath s of Inl e \<Rightarrow> Some (ReadSig e)
      | Inr sigData \<Rightarrow>
          (case ReadFile binaryPath s of Inl e \<Rightarrow> Some (ReadBinary e)
           | Inr binaryData \<Rightarrow> tryKeys C binaryData sigData (vf_trusted v) False))"

definition Verify :: "'key crypto \<Rightarrow> Verifier \<Rightarrow> path \<Rightarrow> Manifest \<Rightarrow> os \<Rightarrow> pluginErr option" where
  "Verify C v pluginDir m s =
     (case verifyDirOwnership v pluginDir s of Some e \<Rightarrow> Some e
      | None \<Rightarrow>
     (case verifyFileOwnership v (BinaryPath m pluginDir) s of Some e \<Rightarrow> Some e
      | None \<Rightarrow>
     (case verifySHA256 C (BinaryPath m pluginDir) (mf_SHA256 m) s of Some e \<Rightarrow> Some e
      | None \<Rightarrow> verifySignature C v (BinaryPath m pluginDir) (SignaturePath m pluginDir) s)))"

section \<open>Loading and discovery\<close>

text \<open>\<open>launch\<close> stands for go-plugin: it starts the binary and connects to the module it serves.\<close>

definition LoadWithVerifier ::
  "'key crypto \<Rightarrow> (path \<Rightarrow> goerr + 'plugin) \<Rightarrow> Verifier \<Rightarrow> path \<Rightarrow> os \<Rightarrow> pluginErr + 'plugin" where
  "LoadWithVerifier C launch v pluginDir s =
     (case LoadManifest pluginDir s of Inl e \<Rightarrow> Inl e
      | Inr m \<Rightarrow>
          (case Verify C v pluginDir m s of Some e \<Rightarrow> Inl e
           | None \<Rightarrow> (case launch (BinaryPath m pluginDir) of Inl e \<Rightarrow> Inl (Launch e) | Inr p \<Rightarrow> Inr p)))"

definition LoadPlugin :: "'key crypto \<Rightarrow> (path \<Rightarrow> goerr + 'plugin) \<Rightarrow> path \<Rightarrow> os \<Rightarrow> pluginErr + 'plugin" where
  "LoadPlugin C launch pluginDir s = LoadWithVerifier C launch (NewVerifier s) pluginDir s"

definition discoverOne :: "'key crypto \<Rightarrow> path \<Rightarrow> os \<Rightarrow> string \<times> bool \<Rightarrow> Manifest list" where
  "discoverOne C pluginsDir s entry =
     (let pluginDir = JoinPath [pluginsDir, fst entry]
      in if \<not> snd entry then []
         else if (case RealStat pluginDir s of Inr info \<Rightarrow> worldWritable (fi_Mode info) | Inl _ \<Rightarrow> False) then []
         else case LoadManifest pluginDir s of Inl _ \<Rightarrow> []
              | Inr m \<Rightarrow> (case Verify C (NewVerifier s) pluginDir m s of Some _ \<Rightarrow> [] | None \<Rightarrow> [m]))"

definition Discover :: "'key crypto \<Rightarrow> path \<Rightarrow> os \<Rightarrow> oserr + Manifest list" where
  "Discover C pluginsDir s =
     (case ReadDir pluginsDir s of Inl e \<Rightarrow> Inl e
      | Inr entries \<Rightarrow> Inr (concat (map (discoverOne C pluginsDir s) entries)))"

section \<open>Properties of the verifier\<close>

lemma tryKeys_None:
  "tryKeys C b sg ks failed = None \<longleftrightarrow>
     (\<exists>k\<in>set ks. \<exists>key. parseKey C k = Some key \<and> minisignVerify C key b sg)"
  by (induction ks arbitrary: failed) (auto split: option.split)

text \<open>The condition the verifier stands for, over the files as they are.\<close>

definition genuine :: "'key crypto \<Rightarrow> string list \<Rightarrow> path \<Rightarrow> Manifest \<Rightarrow> os \<Rightarrow> bool" where
  "genuine C ks pluginDir m s \<longleftrightarrow>
     (\<exists>dirInfo binInfo b sg.
        RealStat pluginDir s = Inr dirInfo \<and> \<not> worldWritable (fi_Mode dirInfo) \<and>
        RealStat (BinaryPath m pluginDir) s = Inr binInfo \<and> \<not> worldWritable (fi_Mode binInfo) \<and>
        ReadFile (BinaryPath m pluginDir) s = Inr b \<and> ReadFile (SignaturePath m pluginDir) s = Inr sg \<and>
        sha256hex C b = mf_SHA256 m \<and>
        (\<exists>k\<in>set ks. \<exists>key. parseKey C k = Some key \<and> minisignVerify C key b sg))"

lemma Verify_genuine:
  assumes "vf_stat v = RealStat" and "FileClose (BinaryPath m pluginDir) s = None"
  shows "Verify C v pluginDir m s = None \<longleftrightarrow> genuine C (vf_trusted v) pluginDir m s"
proof -
  have owner: "RealStat p s = Inr info \<Longrightarrow> checkOwner w info s = None" for p info w
    by (auto simp: RealStat_def checkOwner_def split: sum.splits)
  have 1: "verifyDirOwnership v pluginDir s = None \<longleftrightarrow>
      (\<exists>info. RealStat pluginDir s = Inr info \<and> \<not> worldWritable (fi_Mode info))"
    using assms(1) owner by (simp add: verifyDirOwnership_def split: sum.split)
  have 2: "verifyFileOwnership v p s = None \<longleftrightarrow>
      (\<exists>info. RealStat p s = Inr info \<and> \<not> worldWritable (fi_Mode info))" for p
    using assms(1) owner by (simp add: verifyFileOwnership_def split: sum.split)
  have 3: "verifySHA256 C (BinaryPath m pluginDir) h s = None \<longleftrightarrow>
      (\<exists>b. ReadFile (BinaryPath m pluginDir) s = Inr b \<and> sha256hex C b = h)" for h
    using assms(2) by (simp add: verifySHA256_def split: sum.split)
  have 4: "verifySignature C v p q s = None \<longleftrightarrow>
      (\<exists>b sg. ReadFile p s = Inr b \<and> ReadFile q s = Inr sg \<and>
         (\<exists>k\<in>set (vf_trusted v). \<exists>key. parseKey C k = Some key \<and> minisignVerify C key b sg))" for p q
    by (simp add: verifySignature_def tryKeys_None split: sum.split)
  have "Verify C v pluginDir m s = None \<longleftrightarrow>
      verifyDirOwnership v pluginDir s = None \<and> verifyFileOwnership v (BinaryPath m pluginDir) s = None \<and>
      verifySHA256 C (BinaryPath m pluginDir) (mf_SHA256 m) s = None \<and>
      verifySignature C v (BinaryPath m pluginDir) (SignaturePath m pluginDir) s = None"
    by (simp add: Verify_def split: option.split)
  then show ?thesis unfolding 1 2 3 4 genuine_def by (simp only: sum.inject) (auto; blast)
qed

text \<open>C7: A plugin runs only if it is genuine. When loading returns a plugin, the binary that was
  launched is the one named in the manifest, neither it nor its directory is world-writable, its hash
  is the one in the manifest, and its signature verifies under the embedded key or one from the trust
  directory. Conversely a genuine plugin with a complete manifest is launched.\<close>

theorem plugin_verified:
  assumes "LoadManifest pluginDir s = Inr m" and "FileClose (BinaryPath m pluginDir) s = None"
  shows "((\<exists>p. LoadPlugin C launch pluginDir s = Inr p) \<longleftrightarrow>
            genuine C (embeddedPublicKey # trustedKeys s) pluginDir m s \<and>
            (\<exists>p. launch (BinaryPath m pluginDir) = Inr p)) \<and>
         (\<not> genuine C (embeddedPublicKey # trustedKeys s) pluginDir m s \<longrightarrow>
            (\<exists>e. LoadPlugin C launch pluginDir s = Inl e \<and> (\<forall>x. e \<noteq> Launch x)))"
proof -
  have v: "Verify C (NewVerifier s) pluginDir m s = None \<longleftrightarrow>
      genuine C (embeddedPublicKey # trustedKeys s) pluginDir m s"
    using Verify_genuine [of "NewVerifier s", OF _ assms(2)] by (simp add: NewVerifier_def)
  have keys: "tryKeys C b sg ks f \<noteq> Some (Launch x)" for b sg ks f x
    by (induction ks arbitrary: f) (auto split: option.split)
  have nl: "Verify C (NewVerifier s) pluginDir m s \<noteq> Some (Launch x)" for x
    by (auto simp: Verify_def verifyDirOwnership_def verifyFileOwnership_def checkOwner_def
        verifySHA256_def verifySignature_def keys split: option.splits sum.splits if_splits)
  show ?thesis
  proof (cases "Verify C (NewVerifier s) pluginDir m s")
    case None
    with v assms(1) show ?thesis by (auto simp: LoadPlugin_def LoadWithVerifier_def split: sum.split)
  next
    case (Some e)
    with v nl assms(1) show ?thesis by (auto simp: LoadPlugin_def LoadWithVerifier_def)
  qed
qed

text \<open>Discovery lists exactly the genuine plugins: the manifests of the subdirectories that have
  a complete manifest and pass every check of the verifier, in the order of the directory.\<close>

theorem discover_genuine:
  assumes "ReadDir pluginsDir s = Inr entries" and "\<forall>p. FileClose p s = None"
  shows "\<exists>ms. Discover C pluginsDir s = Inr ms \<and>
           set ms = {m. \<exists>name. (name, True) \<in> set entries \<and>
                        LoadManifest (JoinPath [pluginsDir, name]) s = Inr m \<and>
                        genuine C (embeddedPublicKey # trustedKeys s) (JoinPath [pluginsDir, name]) m s}"
proof -
  have v: "Verify C (NewVerifier s) d m s = None \<longleftrightarrow> genuine C (embeddedPublicKey # trustedKeys s) d m s" for d m
    using Verify_genuine [of "NewVerifier s" m d s C] assms(2) by (simp add: NewVerifier_def)
  have ww: "genuine C ks d m s \<Longrightarrow> \<exists>info. RealStat d s = Inr info \<and> \<not> worldWritable (fi_Mode info)" for ks d m
    by (auto simp: genuine_def)
  have one: "m \<in> set (discoverOne C pluginsDir s (name, isdir)) \<longleftrightarrow>
      isdir \<and> LoadManifest (JoinPath [pluginsDir, name]) s = Inr m \<and>
      genuine C (embeddedPublicKey # trustedKeys s) (JoinPath [pluginsDir, name]) m s" for m name isdir
    using v [of "JoinPath [pluginsDir, name]" m] ww [of _ "JoinPath [pluginsDir, name]" m]
    by (auto simp: discoverOne_def Let_def split: sum.splits option.splits)
  have "m \<in> set (concat (map (discoverOne C pluginsDir s) entries)) \<longleftrightarrow>
      (\<exists>name. (name, True) \<in> set entries \<and> LoadManifest (JoinPath [pluginsDir, name]) s = Inr m \<and>
          genuine C (embeddedPublicKey # trustedKeys s) (JoinPath [pluginsDir, name]) m s)" for m
  proof -
    have "m \<in> set (concat (map (discoverOne C pluginsDir s) entries)) \<longleftrightarrow>
        (\<exists>name isdir. (name, isdir) \<in> set entries \<and> m \<in> set (discoverOne C pluginsDir s (name, isdir)))"
      by auto
    then show ?thesis unfolding one by (simp add: ex_bool_eq)
  qed
  then have "set (concat (map (discoverOne C pluginsDir s) entries)) =
      {m. \<exists>name. (name, True) \<in> set entries \<and> LoadManifest (JoinPath [pluginsDir, name]) s = Inr m \<and>
          genuine C (embeddedPublicKey # trustedKeys s) (JoinPath [pluginsDir, name]) m s}"
    by (intro set_eqI) (simp only: mem_Collect_eq)
  then show ?thesis using assms(1) by (simp add: Discover_def)
qed

definition sameButOwners :: "os \<Rightarrow> os \<Rightarrow> bool" where
  "sameButOwners s s' \<longleftrightarrow>
     faults s' = faults s \<and>
     (\<forall>p. map_option (\<lambda>n. case n of File d m _ \<Rightarrow> (Some d, m) | Directory m _ \<Rightarrow> (None, m)) (node_at s' p) =
          map_option (\<lambda>n. case n of File d m _ \<Rightarrow> (Some d, m) | Directory m _ \<Rightarrow> (None, m)) (node_at s p))"


lemma sameButOwners_ReadFile: "sameButOwners s s' \<Longrightarrow> ReadFile p s' = ReadFile p s"
proof -
  assume a: "sameButOwners s s'"
  then have "map_option (\<lambda>n. case n of File d m _ \<Rightarrow> (Some d, m) | Directory m _ \<Rightarrow> (None, m)) (node_at s' p) =
      map_option (\<lambda>n. case n of File d m _ \<Rightarrow> (Some d, m) | Directory m _ \<Rightarrow> (None, m)) (node_at s p)"
    by (simp add: sameButOwners_def)
  with a show ?thesis
    by (cases "node_at s p"; cases "node_at s' p")
       (auto simp: ReadFile_def sameButOwners_def split: option.splits node.splits)
qed

lemma sameButOwners_RealStat: "sameButOwners s s' \<Longrightarrow> RealStat p s' = RealStat p s"
proof -
  assume a: "sameButOwners s s'"
  then have "map_option (\<lambda>n. case n of File d m _ \<Rightarrow> (Some d, m) | Directory m _ \<Rightarrow> (None, m)) (node_at s' p) =
      map_option (\<lambda>n. case n of File d m _ \<Rightarrow> (Some d, m) | Directory m _ \<Rightarrow> (None, m)) (node_at s p)"
    by (simp add: sameButOwners_def)
  with a show ?thesis
    by (cases "node_at s p"; cases "node_at s' p")
       (auto simp: RealStat_def Stat_def sameButOwners_def split: option.splits node.splits)
qed

text \<open>Ownership is not checked in production. The verdict of the verifier that \<open>NewVerifier\<close> builds
  depends on a directory's and a binary's mode and contents only: with two systems that differ in
  the owners of files alone, it returns the same.\<close>

theorem ownership_ignored:
  assumes "sameButOwners s s'"
  shows "Verify C (NewVerifierWithKeys ks) pluginDir m s' = Verify C (NewVerifierWithKeys ks) pluginDir m s"
proof -
  have own: "RealStat p t = Inr info \<Longrightarrow> checkOwner w info t' = None" for p t info w t'
    by (auto simp: RealStat_def checkOwner_def split: sum.splits)
  note same = sameButOwners_ReadFile [OF assms] sameButOwners_RealStat [OF assms]
  have "verifyDirOwnership (NewVerifierWithKeys ks) p s' = verifyDirOwnership (NewVerifierWithKeys ks) p s"
    "verifyFileOwnership (NewVerifierWithKeys ks) p s' = verifyFileOwnership (NewVerifierWithKeys ks) p s" for p
    using own by (simp_all add: verifyDirOwnership_def verifyFileOwnership_def NewVerifierWithKeys_def same split: sum.split)
  moreover have "FileClose p s' = FileClose p s" for p
    using assms by (simp add: FileClose_def sameButOwners_def)
  ultimately show ?thesis
    unfolding Verify_def verifySHA256_def verifySignature_def same by (simp only:)
qed

section \<open>Witnesses\<close>

definition hiJson :: json where
  "hiJson = JObj [(''name'', JStr ''hi''), (''binary'', JStr ''b''), (''sha256'', JStr ''00'')]"

definition hi :: Manifest where
  "hi = emptyManifest\<lparr>mf_Name := ''hi'', mf_Binary := ''b'', mf_SHA256 := ''00''\<rparr>"

definition osPlugin :: "nat \<Rightarrow> os" where
  "osPlugin uid = emptyOs\<lparr>nodes :=
     [(''/p'', Directory mode700 0), (''/p/hi'', Directory mode700 uid),
      (''/p/hi/plugin.json'', File (Marshal hiJson) mode600 uid),
      (''/p/hi/b'', File ''ELF'' mode700 uid), (''/p/hi/b.minisig'', File ''sig'' mode600 uid)]\<rparr>"

definition crypto0 :: "unit crypto" where
  "crypto0 = \<lparr>sha256hex = \<lambda>_. ''00'', parseKey = \<lambda>_. Some (), minisignVerify = \<lambda>_ _ sg. sg = ''sig''\<rparr>"

lemmas path_eval = emptyOs_def node_at_def Clean_def cleanComps_def cleanStep_def JoinPath_def

lemma hi_LoadManifest: "LoadManifest ''/p/hi'' (osPlugin uid) = Inr hi"
proof -
  have "plain hiJson" by (simp add: hiJson_def ascii_def)
  then have "parse (Marshal hiJson) = Some hiJson" by (rule parse_print(1))
  then have "decodeManifest (Marshal hiJson) = Some hi"
    by (simp add: decodeManifest_def hiJson_def hi_def emptyManifest_def manifestField_def ToLower_def lowerByte_def)
  moreover have "ReadFile (JoinPath [''/p/hi'', ''plugin.json'']) (osPlugin uid) = Inr (Marshal hiJson)"
    by (simp add: ReadFile_def osPlugin_def path_eval)
  ultimately show ?thesis by (simp add: LoadManifest_def hi_def emptyManifest_def)
qed

lemma hi_genuine: "genuine crypto0 (k # ks) ''/p/hi'' hi (osPlugin uid)"
proof -
  have d: "RealStat ''/p/hi'' (osPlugin uid) = Inr \<lparr>fi_Mode = 0x80000000 OR mode700, fi_SysUid = None\<rparr>"
    and f: "RealStat (BinaryPath hi ''/p/hi'') (osPlugin uid) = Inr \<lparr>fi_Mode = mode700, fi_SysUid = None\<rparr>"
    and b: "ReadFile (BinaryPath hi ''/p/hi'') (osPlugin uid) = Inr ''ELF''"
    and g: "ReadFile (SignaturePath hi ''/p/hi'') (osPlugin uid) = Inr ''sig''"
    by (simp_all add: RealStat_def Stat_def ReadFile_def BinaryPath_def SignaturePath_def hi_def osPlugin_def path_eval)
  show ?thesis
    unfolding genuine_def d f b g by (auto simp: worldWritable_def crypto0_def hi_def)
qed

theorem ownership_ignored_witness:
  "Verify crypto0 (NewVerifierWithKeys [''k'']) ''/p/hi'' hi (osPlugin 1000) = None"
proof -
  have "sameButOwners (osPlugin 0) (osPlugin 1000)"
    by (simp add: sameButOwners_def osPlugin_def emptyOs_def node_at_def)
  from ownership_ignored [OF this, of crypto0 "[''k'']" "''/p/hi''" hi]
  show ?thesis
    using Verify_genuine [of "NewVerifierWithKeys [''k'']" hi "''/p/hi''" "osPlugin 0" crypto0] hi_genuine
    by (simp add: NewVerifierWithKeys_def FileClose_def osPlugin_def emptyOs_def)
qed

theorem plugin_verified_witness:
  "\<exists>p. LoadPlugin crypto0 (\<lambda>_. Inr ()) ''/p/hi'' (osPlugin 0) = Inr p"
  using plugin_verified [OF hi_LoadManifest, of 0 crypto0 "\<lambda>_. Inr ()"] hi_genuine
  by (simp add: FileClose_def osPlugin_def emptyOs_def)

theorem discover_genuine_witness:
  "\<exists>ms. Discover crypto0 ''/p'' (osPlugin 0) = Inr ms \<and> hi \<in> set ms"
proof -
  have rd: "ReadDir ''/p'' (osPlugin 0) = Inr [(''hi'', True)]"
    by (simp add: ReadDir_def osPlugin_def path_eval isDirectory_def Dir_def Base_def)
  have fc: "\<forall>p. FileClose p (osPlugin 0) = None" by (simp add: FileClose_def osPlugin_def emptyOs_def)
  have jp: "JoinPath [''/p'', ''hi''] = ''/p/hi''" by (simp add: path_eval)
  show ?thesis
    using discover_genuine [OF rd fc, of crypto0] hi_LoadManifest [of 0] hi_genuine [of _ _ 0] by (auto simp: jp)
qed

end
