(* ===== verification/Plugin_Adapter.thy ===== *)
theory Plugin_Adapter
  imports Hello
begin

text \<open>
  Both ends of the connection between the daemon and an external plugin. \<open>moduleClientAdapter\<close>
  (\<open>internal/extplugin/client.go\<close>) makes a \<open>Module\<close> of a gRPC client; \<open>HostServiceImpl\<close>
  (\<open>internal/extplugin/host.go\<close>) serves the daemon's host to the plugin. The gRPC transport between them is a
  parameter: it gives each call a context of its own, may fail a call before or after the plugin's handler has run, and ends the
  call's context once the handler returns. \<open>grpcClient\<close> is the client over a transport of the plugin-side service of \<open>Sdk\<close>. The
  theorems compose the two ends: which calls arrive unchanged and which do not.
\<close>

section \<open>The client side of a plugin's module\<close>

record ('m, 'w) ModuleServiceClient =
  mc_Info :: "'m \<Rightarrow> goerr + ModuleInfo"
  mc_Start :: "ctx \<Rightarrow> 'm \<Rightarrow> 'w \<Rightarrow> (goerr + string) \<times> 'm \<times> 'w"
  mc_Stop :: "'m \<Rightarrow> 'w \<Rightarrow> (goerr + string) \<times> 'm \<times> 'w"
  mc_Status :: "'m \<Rightarrow> 'w \<Rightarrow> goerr + StatusResponse"
  mc_Health :: "'m \<Rightarrow> 'w \<Rightarrow> (goerr + HealthResponse) \<times> 'm \<times> 'w"
  mc_Commands :: "'m \<Rightarrow> goerr + PbCommandSpec list"
  mc_Dispatch :: "string list \<Rightarrow> (string, string) gomap \<Rightarrow> string list \<Rightarrow> 'm \<Rightarrow> 'w \<Rightarrow>
                    (goerr + DispatchResponse) \<times> 'm \<times> 'w"
  mc_ConfigSchema :: "'m \<Rightarrow> goerr + bytes"

definition adapter_Info :: "goerr + ModuleInfo \<Rightarrow> ModuleInfo" where
  "adapter_Info r =
     (case r of Inl _ \<Rightarrow> \<lparr>mi_Name = [], mi_Version = [], mi_Description = [], mi_LicenseFeature = []\<rparr>
      | Inr i \<Rightarrow> \<lparr>mi_Name = mi_Name i, mi_Version = mi_Version i, mi_Description = mi_Description i,
                   mi_LicenseFeature = mi_LicenseFeature i\<rparr>)"

definition adapter_Init :: "'w HostServices option \<Rightarrow> 'm \<Rightarrow> 'w \<Rightarrow> goerr option \<times> 'm \<times> 'w" where
  "adapter_Init host m w = (None, m, w)"

definition adapter_Start :: "goerr + string \<Rightarrow> goerr option" where
  "adapter_Start r =
     (case r of Inl e \<Rightarrow> Some (Wrapf ''start: '' e [])
      | Inr msg \<Rightarrow> if msg \<noteq> [] then Some (Errorf (''start: '' @ msg)) else None)"

definition adapter_Stop :: "goerr + string \<Rightarrow> goerr option" where
  "adapter_Stop r =
     (case r of Inl e \<Rightarrow> Some (Wrapf ''stop: '' e [])
      | Inr msg \<Rightarrow> if msg \<noteq> [] then Some (Errorf (''stop: '' @ msg)) else None)"

definition adapter_Status :: "goerr + StatusResponse \<Rightarrow> Status \<times> goerr option" where
  "adapter_Status r =
     (case r of Inl e \<Rightarrow> (\<lparr>st_State = [], st_Detail = []\<rparr>, Some (Wrapf ''status: '' e []))
      | Inr resp \<Rightarrow>
          if sr_Error resp \<noteq> [] then (\<lparr>st_State = [], st_Detail = []\<rparr>, Some (Errorf (''status: '' @ sr_Error resp)))
          else (\<lparr>st_State = sr_State resp, st_Detail = sr_Detail resp\<rparr>, None))"

definition timeFromUnixNano :: "64 word \<Rightarrow> time" where
  "timeFromUnixNano nanos = sint nanos"

definition adapter_Health :: "goerr + HealthResponse \<Rightarrow> HealthReport" where
  "adapter_Health r =
     (case r of Inl e \<Rightarrow> \<lparr>hr_Level = Unhealthy, hr_Message = Error e, hr_CheckedAt = zeroTime\<rparr>
      | Inr resp \<Rightarrow> \<lparr>hr_Level = scast (hp_Level resp), hr_Message = hp_Message resp,
                      hr_CheckedAt = timeFromUnixNano (hp_CheckedAtUnixNano resp)\<rparr>)"

definition protoFlagToSDK :: "PbFlagSpec \<Rightarrow> FlagSpec" where
  "protoFlagToSDK f =
     \<lparr>fl_Name = pf_Name f, fl_Shorthand = pf_Shorthand f, fl_Usage = pf_Usage f,
      fl_Default = pf_Default f, fl_Type = pf_Type f\<rparr>"

primrec protoCommandSpecToSDK :: "PbCommandSpec \<Rightarrow> CommandSpec" where
  "protoCommandSpecToSDK (PbCommandSpec name use shrt flags subs tray minA maxA) =
     CommandSpec name use shrt (map protoFlagToSDK flags) (map protoCommandSpecToSDK subs) tray
       (scast minA) (scast maxA)"

definition adapter_Commands :: "goerr + PbCommandSpec list \<Rightarrow> CommandSpec list" where
  "adapter_Commands r = (case r of Inl _ \<Rightarrow> [] | Inr cs \<Rightarrow> map protoCommandSpecToSDK cs)"

definition adapter_Dispatch :: "goerr + DispatchResponse \<Rightarrow> Result option \<times> goerr option" where
  "adapter_Dispatch r =
     (case r of Inl e \<Rightarrow> (None, Some (Wrapf ''dispatch: '' e []))
      | Inr resp \<Rightarrow>
          if dr_Error resp \<noteq> [] then (None, Some (Errorf (''dispatch: '' @ dr_Error resp)))
          else (Some \<lparr>rs_Output = dr_Output resp, rs_JSON = dr_Json resp,
                      rs_ExitCode = scast (dr_ExitCode resp)\<rparr>, None))"

definition adapter_ConfigSchema :: "goerr + bytes \<Rightarrow> bytes" where
  "adapter_ConfigSchema r = (case r of Inl _ \<Rightarrow> [] | Inr b \<Rightarrow> b)"

definition moduleClientAdapter :: "('m, 'w) ModuleServiceClient \<Rightarrow> ('m, 'w) Module" where
  "moduleClientAdapter mc =
     \<lparr>m_Info = \<lambda>m. adapter_Info (mc_Info mc m),
      m_Init = adapter_Init,
      m_Start = \<lambda>c m w. (case mc_Start mc c m w of (r, m', w') \<Rightarrow> (adapter_Start r, m', w')),
      m_Stop = \<lambda>m w. (case mc_Stop mc m w of (r, m', w') \<Rightarrow> (adapter_Stop r, m', w')),
      m_Status = \<lambda>m w. adapter_Status (mc_Status mc m w),
      m_Health = \<lambda>m w. (case mc_Health mc m w of (r, m', w') \<Rightarrow> (adapter_Health r, m', w')),
      m_Commands = \<lambda>m. adapter_Commands (mc_Commands mc m),
      m_Dispatch = \<lambda>p f a m w. (case mc_Dispatch mc p f a m w of (r, m', w') \<Rightarrow> (adapter_Dispatch r, m', w')),
      m_ConfigSchema = \<lambda>m. adapter_ConfigSchema (mc_ConfigSchema mc m)\<rparr>"

section \<open>The transport\<close>

text \<open>\<open>tp_ctx\<close> is the context a handler receives, for that of the caller; \<open>tp_send\<close> the error with which a call fails before
  it reaches the handler, if any; \<open>tp_end\<close> what happens once the handler has returned: its context ends, which goroutines of the
  plugin may notice, and the answer may be lost; \<open>tp_query\<close> the error of a call of a method that only reads.\<close>

record ('m, 'w) transport =
  tp_ctx :: "ctx \<Rightarrow> 'w \<Rightarrow> ctx"
  tp_send :: "string \<Rightarrow> 'w \<Rightarrow> goerr option \<times> 'w"
  tp_end :: "string \<Rightarrow> 'm \<Rightarrow> 'w \<Rightarrow> goerr option \<times> 'm \<times> 'w"
  tp_query :: "string \<Rightarrow> goerr option"

definition rpc ::
  "('m, 'w) transport \<Rightarrow> string \<Rightarrow> ('m \<Rightarrow> 'w \<Rightarrow> (goerr + 'a) \<times> 'm \<times> 'w) \<Rightarrow> 'm \<Rightarrow> 'w \<Rightarrow> (goerr + 'a) \<times> 'm \<times> 'w" where
  "rpc T method handler m w =
     (case tp_send T method w of
        (Some e, w1) \<Rightarrow> (Inl e, m, w1)
      | (None, w1) \<Rightarrow>
          (case handler m w1 of
             (r, m2, w2) \<Rightarrow>
               (case tp_end T method m2 w2 of
                  (Some e, m3, w3) \<Rightarrow> (Inl e, m3, w3) | (None, m3, w3) \<Rightarrow> (r, m3, w3))))"

definition query :: "('m, 'w) transport \<Rightarrow> string \<Rightarrow> goerr + 'a \<Rightarrow> goerr + 'a" where
  "query T method r = (case tp_query T method of Some e \<Rightarrow> Inl e | None \<Rightarrow> r)"

text \<open>The client side of the plugin's service. The handler of \<open>Start\<close> runs the module under the call's context.\<close>

definition grpcClient :: "('m, 'w) transport \<Rightarrow> ('m, 'w) Module \<Rightarrow> ('m, 'w) ModuleServiceClient" where
  "grpcClient T M =
     \<lparr>mc_Info = \<lambda>m. query T ''Info'' (Impl_Info M ''v1'' m),
      mc_Start = \<lambda>c. rpc T ''Start'' (\<lambda>m w. Impl_Start M ''v1'' (tp_ctx T c w) m w),
      mc_Stop = rpc T ''Stop'' (Impl_Stop M ''v1''),
      mc_Status = \<lambda>m w. query T ''Status'' (Impl_Status M ''v1'' m w),
      mc_Health = rpc T ''Health'' (Impl_Health M ''v1''),
      mc_Commands = \<lambda>m. query T ''Commands'' (Impl_Commands M ''v1'' m),
      mc_Dispatch = \<lambda>p f a. rpc T ''Dispatch'' (Impl_Dispatch M ''v1'' p f a),
      mc_ConfigSchema = \<lambda>m. query T ''ConfigSchema'' (Impl_ConfigSchema M ''v1'' m)\<rparr>"

text \<open>A transport that fails no call. It still ends the contexts.\<close>

definition lossless :: "('m, 'w) transport \<Rightarrow> bool" where
  "lossless T \<longleftrightarrow> (\<forall>k. tp_query T k = None) \<and> (\<forall>k w. tp_send T k w = (None, w)) \<and> (\<forall>k m w. fst (tp_end T k m w) = None)"

lemma rpc_lossless:
  "lossless T \<Longrightarrow> rpc T k h m w = (case h m w of (r, m1, w1) \<Rightarrow> (r, snd (tp_end T k m1 w1)))"
  by (auto simp: rpc_def lossless_def split: prod.split option.split) (metis fst_conv option.distinct(1))+

lemma query_lossless: "lossless T \<Longrightarrow> query T k r = r"
  by (simp add: query_def lossless_def)

lemma rpc_not_sent: "tp_send T k w = (Some e, w1) \<Longrightarrow> rpc T k h m w = (Inl e, m, w1)"
  by (simp add: rpc_def)

section \<open>The host side\<close>

definition hostv :: "string \<Rightarrow> goerr option" where
  "hostv v = (if v \<noteq> ''v1'' then Some (Errorf (''unsupported api_version: '' @ v)) else None)"

definition Host_SecretsGet :: "'w HostServices \<Rightarrow> string \<Rightarrow> string \<Rightarrow> 'w \<Rightarrow> (goerr + bytes \<times> string) \<times> 'w" where
  "Host_SecretsGet h v key w =
     (case hostv v of Some e \<Rightarrow> (Inl e, w)
      | None \<Rightarrow>
          (case h_SecretsGet h key w of
             (Inl e, w') \<Rightarrow> (Inr ([], if e = ErrSecretNotFound then ''not found'' else Error e), w')
           | (Inr value, w') \<Rightarrow> (Inr (value, []), w')))"

definition Host_SecretsSet :: "'w HostServices \<Rightarrow> string \<Rightarrow> string \<Rightarrow> bytes \<Rightarrow> 'w \<Rightarrow> (goerr + string) \<times> 'w" where
  "Host_SecretsSet h v key value w =
     (case hostv v of Some e \<Rightarrow> (Inl e, w)
      | None \<Rightarrow> (case h_SecretsSet h key value w of (e, w') \<Rightarrow> (Inr (errMsg e), w')))"

definition Host_SecretsDelete :: "'w HostServices \<Rightarrow> string \<Rightarrow> string \<Rightarrow> 'w \<Rightarrow> (goerr + string) \<times> 'w" where
  "Host_SecretsDelete h v key w =
     (case hostv v of Some e \<Rightarrow> (Inl e, w)
      | None \<Rightarrow> (case h_SecretsDelete h key w of (e, w') \<Rightarrow> (Inr (errMsg e), w')))"

definition Host_FeatureEnabled :: "'w HostServices \<Rightarrow> string \<Rightarrow> string \<Rightarrow> 'w \<Rightarrow> (goerr + bool) \<times> 'w" where
  "Host_FeatureEnabled h v key w =
     (case hostv v of Some e \<Rightarrow> (Inl e, w)
      | None \<Rightarrow> (case h_FeatureEnabled h key w of (b, w') \<Rightarrow> (Inr b, w')))"

definition Host_Tier :: "'w HostServices \<Rightarrow> string \<Rightarrow> 'w \<Rightarrow> goerr + string" where
  "Host_Tier h v w = (case hostv v of Some e \<Rightarrow> Inl e | None \<Rightarrow> Inr (h_Tier h w))"

definition Host_DataDir :: "'w HostServices \<Rightarrow> string \<Rightarrow> goerr + string" where
  "Host_DataDir h v = (case hostv v of Some e \<Rightarrow> Inl e | None \<Rightarrow> Inr (h_DataDir h))"

definition Host_Config :: "'w HostServices \<Rightarrow> string \<Rightarrow> goerr + bytes" where
  "Host_Config h v = (case hostv v of Some e \<Rightarrow> Inl e | None \<Rightarrow> Inr (h_Config h))"

text \<open>The event a plugin sends (\<open>EventsProxy.Publish\<close>) and the host publishes.\<close>

definition proxyEvent :: "Event \<Rightarrow> string \<times> string \<times> string \<times> 64 word \<times> (string, string) gomap" where
  "proxyEvent ev = (ev_Module ev, ev_Type ev, ev_Message ev, UnixNano (ev_At ev), ev_Fields ev)"

definition Host_PublishEvent ::
  "'w HostServices \<Rightarrow> string \<Rightarrow> string \<times> string \<times> string \<times> 64 word \<times> (string, string) gomap \<Rightarrow> 'w \<Rightarrow> (goerr + unit) \<times> 'w" where
  "Host_PublishEvent h v req w =
     (case hostv v of Some e \<Rightarrow> (Inl e, w)
      | None \<Rightarrow>
          (case req of (m, t, msg, nanos, kvs) \<Rightarrow>
             (Inr (), h_Publish h \<lparr>ev_Module = m, ev_Type = t, ev_Message = msg, ev_At = timeFromUnixNano nanos,
                                   ev_Fields = kvs\<rparr> w)))"

section \<open>Round trips\<close>

lemma scast_clampInt32_iff:
  "(scast (clampInt32 v) :: 64 word) = v \<longleftrightarrow> - (2 ^ 31) \<le> sint v \<and> sint v < 2 ^ 31"
proof -
  have up: "sint (scast (x :: 32 word) :: 64 word) = sint x" for x
  proof -
    have "- (2 ^ 31) \<le> sint x" "sint x < 2 ^ 31" using sint_range_size [of x] by (simp_all add: word_size)
    then show ?thesis
      by (simp only: scast_eq signed_of_int) (simp add: signed_take_bit_int_eq_self)
  qed
  have "(scast (clampInt32 v) :: 64 word) = v \<longleftrightarrow> sint (clampInt32 v) = sint v"
    by (metis up signed_word_eqI)
  then show ?thesis unfolding sint_clampInt32 by auto
qed

primrec argsFit :: "CommandSpec \<Rightarrow> bool" where
  "argsFit (CommandSpec name use shrt flags subs tray minA maxA) \<longleftrightarrow>
     - (2 ^ 31) \<le> sint minA \<and> sint minA < 2 ^ 31 \<and> - (2 ^ 31) \<le> sint maxA \<and> sint maxA < 2 ^ 31 \<and>
     list_all (\<lambda>b. b) (map argsFit subs)"

lemma protoFlag_id [simp]: "protoFlagToSDK (flagSpecToProto f) = f"
  by (simp add: protoFlagToSDK_def flagSpecToProto_def)

lemma protoFlag_map [simp]: "map (protoFlagToSDK \<circ> flagSpecToProto) fs = fs"
  by (simp add: comp_def)

lemma command_spec_roundtrip_iff: "protoCommandSpecToSDK (commandSpecToProto cs) = cs \<longleftrightarrow> argsFit cs"
proof (induction cs rule: CommandSpec.induct)
  case (CommandSpec name use shrt flags subs tray minA maxA)
  have "map (protoCommandSpecToSDK \<circ> commandSpecToProto) subs = subs \<longleftrightarrow> list_all (\<lambda>b. b) (map argsFit subs)"
    using CommandSpec by (induction subs) auto
  then show ?case by (auto simp: scast_clampInt32_iff)
qed

text \<open>A command tree survives the wire. Translating a plugin's command tree to protobuf and back in
  the daemon gives the same tree exactly when every argument bound in it fits 32 bits.\<close>

theorem command_spec_roundtrip: "protoCommandSpecToSDK (commandSpecToProto cs) = cs \<longleftrightarrow> argsFit cs"
  by (rule command_spec_roundtrip_iff)

section \<open>The adapter against the module it stands for\<close>

lemma checkVersion_v1 [simp]: "checkVersion ''v1'' = None"
  by (simp add: checkVersion_def)

lemmas adapter_defs = moduleClientAdapter_def grpcClient_def Impl_Info_def Impl_Start_def Impl_Stop_def
  Impl_Status_def Impl_Commands_def Impl_Dispatch_def Impl_ConfigSchema_def
  adapter_Info_def adapter_Start_def adapter_Stop_def adapter_Status_def adapter_Commands_def
  adapter_Dispatch_def adapter_ConfigSchema_def adapter_Health_def Impl_Health_def errMsg_def

text \<open>What the daemon gets of a module's answers: an error with an empty message is lost, any other arrives as its message
  behind the name of the call; without a result, there is an empty one.\<close>

definition passed :: "string \<Rightarrow> goerr option \<Rightarrow> goerr option" where
  "passed call e =
     (case e of None \<Rightarrow> None | Some e \<Rightarrow> if Error e = [] then None else Some (Errorf (call @ '': '' @ Error e)))"

definition int32 :: "64 word \<Rightarrow> bool" where
  "int32 v \<longleftrightarrow> - (2 ^ 31) \<le> sint v \<and> sint v < 2 ^ 31"

lemma clamp_int32: "int32 v \<Longrightarrow> (scast (clampInt32 v) :: 64 word) = v"
  by (simp add: int32_def scast_clampInt32_iff)

lemma UnixNano_id: "- (2 ^ 63) \<le> t \<Longrightarrow> t < 2 ^ 63 \<Longrightarrow> timeFromUnixNano (UnixNano t) = t"
  unfolding timeFromUnixNano_def UnixNano_def
  by (simp only: signed_of_int) (simp add: signed_take_bit_int_eq_self)


text \<open>A transport for the witnesses, which ends a context without anybody noticing.\<close>

definition calmTransport :: "('m, 'w) transport" where
  "calmTransport = \<lparr>tp_ctx = \<lambda>_ _. 7, tp_send = \<lambda>_ w. (None, w), tp_end = \<lambda>_ m w. (None, m, w), tp_query = \<lambda>_. None\<rparr>"

lemma calm_lossless: "lossless calmTransport"
  by (simp add: lossless_def calmTransport_def)


text \<open>A plugin cannot tell a missing secret from a failing store unless the host returns the bare
  sentinel. Of an error with a message other than the reserved one, the plugin gets an error that matches
  \<open>ErrSecretNotFound\<close> exactly when the host's error is that value itself; a wrapped one arrives as a
  plain error.\<close>

theorem plugin_secret_errors:
  assumes "h_SecretsGet h key w = (Inl e, w')" and "Error e \<noteq> ''''" and "Error e \<noteq> ''not found''"
    and "hc_SecretsGet hc key = fst (Host_SecretsGet h ''v1'' key w)"
  shows "\<exists>x. SecretsProxy_Get hc key = Inl x \<and>
           (errorsIs x ''secret not found'' \<longleftrightarrow> e = ErrSecretNotFound)"
  using assms by (auto simp: SecretsProxy_Get_def Host_SecretsGet_def hostv_def ErrSecretNotFound_def)

text \<open>Events of a plugin arrive as they were sent, as long as their time fits 64 bits.\<close>

theorem plugin_event_roundtrip:
  assumes "- (2 ^ 63) \<le> ev_At ev" "ev_At ev < 2 ^ 63"
  shows "Host_PublishEvent h ''v1'' (proxyEvent ev) w = (Inr (), h_Publish h ev w)"
proof -
  have "sint (word_of_int (ev_At ev) :: 64 word) = ev_At ev"
    using assms by (simp only: signed_of_int) (simp add: signed_take_bit_int_eq_self)
  then show ?thesis
    by (cases ev) (simp add: Host_PublishEvent_def hostv_def proxyEvent_def timeFromUnixNano_def UnixNano_def)
qed

theorem plugin_secret_errors_witness:
  "\<exists>x hc. hc_SecretsGet hc ''k'' = fst (Host_SecretsGet quietHost ''v1'' ''k'' world0) \<and>
     SecretsProxy_Get hc ''k'' = Inl x \<and> errorsIs x ''secret not found''"
proof -
  let ?hc = "\<lparr>hc_Config = Inr [], hc_DataDir = Inr [], hc_SecretsGet = \<lambda>k. fst (Host_SecretsGet quietHost ''v1'' k world0),
     hc_SecretsSet = \<lambda>_ _. Inr [], hc_SecretsDelete = \<lambda>_. Inr [], hc_FeatureEnabled = \<lambda>_. Inr False, hc_Tier = Inr []\<rparr>"
  have "h_SecretsGet quietHost ''k'' world0 = (Inl ErrSecretNotFound, world0)" by (simp add: quietHost_def)
  from plugin_secret_errors [OF this, of ?hc] show ?thesis
    by (intro exI [of _ "projl (SecretsProxy_Get ?hc ''k'')"] exI [of _ ?hc]) (auto simp: ErrSecretNotFound_def)
qed

theorem plugin_event_roundtrip_witness:
  "Host_PublishEvent quietHost ''v1'' (proxyEvent \<lparr>ev_Module = ''hi'', ev_Type = EventInfo, ev_Message = ''up'',
     ev_At = 42, ev_Fields = []\<rparr>) world0 = (Inr (), world0)"
  using plugin_event_roundtrip [of "\<lparr>ev_Module = ''hi'', ev_Type = EventInfo, ev_Message = ''up'', ev_At = 42, ev_Fields = []\<rparr>" quietHost world0]
  by (simp add: quietHost_def)

end
