(* ===== verification/Secrets.thy ===== *)
theory Secrets
  imports Os_Model Sdk Plugin_Adapter
begin

text \<open>
  The secret store (\<open>internal/secrets/store.go\<close>). The keyring library is a parameter: a record of its
  three calls over a state \<open>'r\<close>, with the locale \<open>keyring\<close> stating its documented behaviour: a call
  that fails changes nothing, a key holds what was last stored under it, and a missing key is reported
  as \<open>ErrKeyNotFound\<close>. The locale \<open>secret_store\<close> is what the daemon promises its modules, one store
  per namespace; \<open>sublocale\<close> proves that the namespaced views of the code provide it over any keyring.
  The master key of the file backend is modelled over the file system.
\<close>

section \<open>Keyring and store\<close>

definition ErrKeyNotFound :: string where
  "ErrKeyNotFound = ''The specified item could not be found in the keyring''"

record 'r Keyring =
  kr_Get :: "string \<Rightarrow> 'r \<Rightarrow> goerr + bytes"
  kr_Set :: "string \<Rightarrow> bytes \<Rightarrow> 'r \<Rightarrow> goerr option \<times> 'r"
  kr_Remove :: "string \<Rightarrow> 'r \<Rightarrow> goerr option \<times> 'r"

record Store =
  ss_namespace :: string
  ss_fileDir :: string
  ss_serviceName :: string

record SecretsConfig =
  sc_ServiceName :: string
  sc_FileDir :: string
  sc_HasPassword :: bool
  sc_AllowedBackends :: "string list"

record RingConfig =
  rc_ServiceName :: string
  rc_AllowedBackends :: "string list"
  rc_FileDir :: string
  rc_HasPassword :: bool

abbreviation defaultBackends :: "string list" where
  "defaultBackends \<equiv> [''wincred'', ''keychain'', ''secret-service'', ''file'']"

definition Open_ring :: "SecretsConfig \<Rightarrow> RingConfig" where
  "Open_ring cfg =
     (let name = (if sc_ServiceName cfg = [] then ''penguind'' else sc_ServiceName cfg);
          backends = (if sc_AllowedBackends cfg = [] then defaultBackends else sc_AllowedBackends cfg)
      in if sc_FileDir cfg \<noteq> []
         then \<lparr>rc_ServiceName = name, rc_AllowedBackends = backends, rc_FileDir = sc_FileDir cfg,
               rc_HasPassword = sc_HasPassword cfg\<rparr>
         else \<lparr>rc_ServiceName = name, rc_AllowedBackends = backends, rc_FileDir = [], rc_HasPassword = False\<rparr>)"

definition Open :: "(RingConfig \<Rightarrow> goerr + 'r) \<Rightarrow> SecretsConfig \<Rightarrow> goerr + Store \<times> 'r" where
  "Open openRing cfg =
     (case openRing (Open_ring cfg) of Inl e \<Rightarrow> Inl (Wrapf ''failed to open keyring: '' e [])
      | Inr r \<Rightarrow> Inr (\<lparr>ss_namespace = [], ss_fileDir = sc_FileDir cfg,
                       ss_serviceName = rc_ServiceName (Open_ring cfg)\<rparr>, r))"

definition makeKey :: "Store \<Rightarrow> string \<Rightarrow> string" where
  "makeKey st key = (if ss_namespace st = [] then key else ss_namespace st @ ''/'' @ key)"

definition Store_Get :: "'r Keyring \<Rightarrow> Store \<Rightarrow> string \<Rightarrow> 'r \<Rightarrow> goerr + bytes" where
  "Store_Get K st key r =
     (case kr_Get K (makeKey st key) r of
        Inl e \<Rightarrow>
          (if errorsIs e ErrKeyNotFound
           then Inl (Wrapf (''failed to get secret '' @ Quote key @ '': '') ErrSecretNotFound [])
           else Inl (Wrapf (''failed to get secret '' @ Quote key @ '': '') e []))
      | Inr d \<Rightarrow> Inr d)"

definition Store_Set :: "'r Keyring \<Rightarrow> Store \<Rightarrow> string \<Rightarrow> bytes \<Rightarrow> 'r \<Rightarrow> goerr option \<times> 'r" where
  "Store_Set K st key value r =
     (case kr_Set K (makeKey st key) value r of
        (Some e, r') \<Rightarrow> (Some (Wrapf (''failed to set secret '' @ Quote key @ '': '') e []), r')
      | (None, r') \<Rightarrow> (None, r'))"

definition Store_Delete :: "'r Keyring \<Rightarrow> Store \<Rightarrow> string \<Rightarrow> 'r \<Rightarrow> goerr option \<times> 'r" where
  "Store_Delete K st key r =
     (case kr_Remove K (makeKey st key) r of
        (Some e, r') \<Rightarrow>
          (if errorsIs e ErrKeyNotFound then (Some (Wrapf ''secret not found: '' ErrSecretNotFound []), r')
           else (Some (Wrapf (''failed to delete secret '' @ Quote key @ '': '') e []), r'))
      | (None, r') \<Rightarrow> (None, r'))"

definition Namespaced :: "Store \<Rightarrow> string \<Rightarrow> Store" where
  "Namespaced st m = \<lparr>ss_namespace = m, ss_fileDir = ss_fileDir st, ss_serviceName = ss_serviceName st\<rparr>"

section \<open>The contracts\<close>

locale keyring =
  fixes K :: "'r Keyring"
  assumes set_get: "kr_Set K k v r = (None, r') \<Longrightarrow> kr_Get K k r' = Inr v"
    and set_other: "kr_Set K k v r = (None, r') \<Longrightarrow> k' \<noteq> k \<Longrightarrow> kr_Get K k' r' = kr_Get K k' r"
    and set_failed: "kr_Set K k v r = (Some e, r') \<Longrightarrow> r' = r"
    and remove_get: "kr_Remove K k r = (None, r') \<Longrightarrow> \<exists>e. kr_Get K k r' = Inl e \<and> errorsIs e ErrKeyNotFound"
    and remove_other: "kr_Remove K k r = (None, r') \<Longrightarrow> k' \<noteq> k \<Longrightarrow> kr_Get K k' r' = kr_Get K k' r"
    and remove_failed: "kr_Remove K k r = (Some e, r') \<Longrightarrow> r' = r"
begin

lemma get_frame:
  assumes "k' \<noteq> k"
  shows "kr_Get K k' (snd (kr_Set K k v r)) = kr_Get K k' r"
    and "kr_Get K k' (snd (kr_Remove K k r)) = kr_Get K k' r"
proof -
  obtain e r1 where 1: "kr_Set K k v r = (e, r1)" by fastforce
  then show "kr_Get K k' (snd (kr_Set K k v r)) = kr_Get K k' r"
    using set_other [OF _ assms, of v r r1] set_failed [of k v r _ r1] by (cases e) auto
  obtain e' r2 where 2: "kr_Remove K k r = (e', r2)" by fastforce
  then show "kr_Get K k' (snd (kr_Remove K k r)) = kr_Get K k' r"
    using remove_other [OF _ assms, of r r2] remove_failed [of k r _ r2] by (cases e') auto
qed

end

text \<open>A module's writes (\<open>Some\<close>) and deletions (\<open>None\<close>), in order.\<close>

fun storeRun :: "(string \<Rightarrow> string \<Rightarrow> bytes \<Rightarrow> 'r \<Rightarrow> goerr option \<times> 'r) \<Rightarrow>
    (string \<Rightarrow> string \<Rightarrow> 'r \<Rightarrow> goerr option \<times> 'r) \<Rightarrow> string \<Rightarrow> (string \<times> bytes option) list \<Rightarrow> 'r \<Rightarrow> 'r" where
  "storeRun sset sdel n [] r = r"
| "storeRun sset sdel n ((k, Some v) # ops) r = storeRun sset sdel n ops (snd (sset n k v r))"
| "storeRun sset sdel n ((k, None) # ops) r = storeRun sset sdel n ops (snd (sdel n k r))"

text \<open>A family of stores indexed by module name, each independent of the others.\<close>

locale secret_store =
  fixes sget :: "string \<Rightarrow> string \<Rightarrow> 'r \<Rightarrow> goerr + bytes"
    and sset :: "string \<Rightarrow> string \<Rightarrow> bytes \<Rightarrow> 'r \<Rightarrow> goerr option \<times> 'r"
    and sdel :: "string \<Rightarrow> string \<Rightarrow> 'r \<Rightarrow> goerr option \<times> 'r"
    and modname :: "string \<Rightarrow> bool"
  assumes get_set: "modname n \<Longrightarrow> sset n k v r = (None, r') \<Longrightarrow> sget n k r' = Inr v"
    and get_del: "modname n \<Longrightarrow> sdel n k r = (None, r') \<Longrightarrow> \<exists>e. sget n k r' = Inl e \<and> errorsIs e ''secret not found''"
    and set_frame: "modname n \<Longrightarrow> modname n' \<Longrightarrow> (n', k') \<noteq> (n, k) \<Longrightarrow>
                      sget n' k' (snd (sset n k v r)) = sget n' k' r"
    and del_frame: "modname n \<Longrightarrow> modname n' \<Longrightarrow> (n', k') \<noteq> (n, k) \<Longrightarrow>
                      sget n' k' (snd (sdel n k r)) = sget n' k' r"
begin

text \<open>Whatever one module does to its store, another module's secrets stay as they are.\<close>

lemma isolated: "modname n \<Longrightarrow> modname n' \<Longrightarrow> n' \<noteq> n \<Longrightarrow> sget n' k (storeRun sset sdel n ops r) = sget n' k r"
proof (induction ops arbitrary: r)
  case Nil
  then show ?case by simp
next
  case (Cons op ops)
  then show ?case by (cases op; cases "snd op") (simp_all add: set_frame del_frame)
qed

end

text \<open>Names of modules as they occur: not empty, no slash.\<close>

definition nsName :: "string \<Rightarrow> bool" where
  "nsName n \<longleftrightarrow> n \<noteq> [] \<and> CHR ''/'' \<notin> set n"

lemma first_sep_unique:
  "c \<notin> set n \<Longrightarrow> c \<notin> set n' \<Longrightarrow> n @ c # k = n' @ c # k' \<longleftrightarrow> n = n' \<and> k = k'"
proof (induction n arbitrary: n')
  case Nil
  then show ?case by (cases n') auto
next
  case (Cons x n)
  then show ?case by (cases n') auto
qed

lemma makeKey_inj:
  "nsName n \<Longrightarrow> nsName n' \<Longrightarrow>
   makeKey (Namespaced st n) k = makeKey (Namespaced st n') k' \<longleftrightarrow> n = n' \<and> k = k'"
  by (simp add: makeKey_def Namespaced_def nsName_def first_sep_unique)

lemma Store_Set_snd: "snd (Store_Set K st k v r) = snd (kr_Set K (makeKey st k) v r)"
  by (simp add: Store_Set_def split: prod.split option.split)

lemma Store_Delete_snd: "snd (Store_Delete K st k r) = snd (kr_Remove K (makeKey st k) r)"
  by (simp add: Store_Delete_def split: prod.split option.split)

sublocale keyring \<subseteq> ns: secret_store
  "\<lambda>n. Store_Get K (Namespaced st n)" "\<lambda>n. Store_Set K (Namespaced st n)" "\<lambda>n. Store_Delete K (Namespaced st n)" nsName
  for st
proof unfold_locales
  fix n k v r r' assume "Store_Set K (Namespaced st n) k v r = (None, r')"
  then show "Store_Get K (Namespaced st n) k r' = Inr v"
    by (auto simp: Store_Set_def Store_Get_def set_get split: prod.splits option.splits)
next
  fix n k r r' assume "Store_Delete K (Namespaced st n) k r = (None, r')"
  then have "kr_Remove K (makeKey (Namespaced st n) k) r = (None, r')"
    by (auto simp: Store_Delete_def split: prod.splits option.splits if_splits)
  from remove_get [OF this]
  show "\<exists>e. Store_Get K (Namespaced st n) k r' = Inl e \<and> errorsIs e ''secret not found''"
    by (auto simp: Store_Get_def ErrSecretNotFound_def)
next
  fix n n' k k' :: string and v r
  assume "nsName n" "nsName n'" "(n', k') \<noteq> (n, k)"
  then have ne: "makeKey (Namespaced st n') k' \<noteq> makeKey (Namespaced st n) k" by (simp add: makeKey_inj)
  show "Store_Get K (Namespaced st n') k' (snd (Store_Set K (Namespaced st n) k v r)) =
      Store_Get K (Namespaced st n') k' r"
    using get_frame(1) [OF ne, of v r] by (simp add: Store_Set_snd Store_Get_def)
  show "Store_Get K (Namespaced st n') k' (snd (Store_Delete K (Namespaced st n) k r)) =
      Store_Get K (Namespaced st n') k' r"
    using get_frame(2) [OF ne, of r] by (simp add: Store_Delete_snd Store_Get_def)
qed

context keyring
begin

lemma store_isolated:
  "nsName n \<Longrightarrow> nsName n' \<Longrightarrow> n' \<noteq> n \<Longrightarrow>
   Store_Get K (Namespaced st n') k
     (storeRun (\<lambda>n. Store_Set K (Namespaced st n)) (\<lambda>n. Store_Delete K (Namespaced st n)) n ops r) =
   Store_Get K (Namespaced st n') k r"
  by (rule ns.isolated)

lemma store_get_set:
  "nsName n \<Longrightarrow> Store_Set K (Namespaced st n) k v r = (None, r') \<Longrightarrow> Store_Get K (Namespaced st n) k r' = Inr v"
  by (rule ns.get_set)

lemma store_get_del:
  "nsName n \<Longrightarrow> Store_Delete K (Namespaced st n) k r = (None, r') \<Longrightarrow>
   \<exists>e. Store_Get K (Namespaced st n) k r' = Inl e \<and> errorsIs e ''secret not found''"
  by (rule ns.get_del)

end

section \<open>The in-memory keyring\<close>

text \<open>The keyring that the library offers for tests, an association list that never fails.\<close>

definition arrayKeyring :: "((string, bytes) gomap) Keyring" where
  "arrayKeyring =
     \<lparr>kr_Get = \<lambda>k r. (case get r k of None \<Rightarrow> Inl (Sentinel ErrKeyNotFound) | Some v \<Rightarrow> Inr v),
      kr_Set = \<lambda>k v r. (None, put k v r),
      kr_Remove = \<lambda>k r. (if get r k = None then (Some (Sentinel ErrKeyNotFound), r) else (None, del k r))\<rparr>"

interpretation arr: keyring arrayKeyring
  by unfold_locales (auto simp: arrayKeyring_def split: if_splits)

section \<open>Properties of the store\<close>

text \<open>Modules cannot reach each other's secrets. Over any keyring with the documented behaviour,
  whatever sequence of writes and deletions one module performs in its namespaced view, every read in
  another module's view returns what it returned before.\<close>

theorem namespaces_isolated:
  assumes "keyring K" and "nsName n" "nsName n'" "n' \<noteq> n"
  shows "Store_Get K (Namespaced st n') k
           (storeRun (\<lambda>n. Store_Set K (Namespaced st n)) (\<lambda>n. Store_Delete K (Namespaced st n)) n ops r) =
         Store_Get K (Namespaced st n') k r"
  using keyring.store_isolated [OF assms] .

theorem namespaces_isolated_witness:
  "Store_Get arrayKeyring (Namespaced \<lparr>ss_namespace = [], ss_fileDir = [], ss_serviceName = []\<rparr> ''squawk'') ''token''
     (storeRun (\<lambda>n. Store_Set arrayKeyring (Namespaced \<lparr>ss_namespace = [], ss_fileDir = [], ss_serviceName = []\<rparr> n))
        (\<lambda>n. Store_Delete arrayKeyring (Namespaced \<lparr>ss_namespace = [], ss_fileDir = [], ss_serviceName = []\<rparr> n))
        ''vpn'' [(''token'', Some ''x''), (''token'', None)] [(''squawk/token'', ''s'')]) = Inr ''s''"
  by (subst namespaces_isolated [OF arr.keyring_axioms])
     (simp_all add: nsName_def Store_Get_def makeKey_def Namespaced_def arrayKeyring_def)

text \<open>A secret reads back as it was stored, and a deleted or missing one is reported by an error that
  matches \<open>ErrSecretNotFound\<close> under \<open>errors.Is\<close> but is never that value itself, so that a plugin, whose
  host compares with \<open>==\<close>, does not see it.\<close>

theorem secret_get_set:
  assumes "keyring K" and "nsName n"
  shows "(\<forall>v r r'. Store_Set K (Namespaced st n) k v r = (None, r') \<longrightarrow> Store_Get K (Namespaced st n) k r' = Inr v) \<and>
         (\<forall>r r'. Store_Delete K (Namespaced st n) k r = (None, r') \<longrightarrow>
            (\<exists>e. Store_Get K (Namespaced st n) k r' = Inl e \<and> errorsIs e ''secret not found'')) \<and>
         (\<forall>r e. Store_Get K (Namespaced st n) k r = Inl e \<longrightarrow> e \<noteq> ErrSecretNotFound)"
proof (intro conjI allI impI)
  fix v r r' assume a: "Store_Set K (Namespaced st n) k v r = (None, r')"
  show "Store_Get K (Namespaced st n) k r' = Inr v"
    using keyring.store_get_set [OF assms a] .
next
  fix r r' assume a: "Store_Delete K (Namespaced st n) k r = (None, r')"
  show "\<exists>e. Store_Get K (Namespaced st n) k r' = Inl e \<and> errorsIs e ''secret not found''"
    using keyring.store_get_del [OF assms a] .
next
  fix r e assume "Store_Get K (Namespaced st n) k r = Inl e"
  then show "e \<noteq> ErrSecretNotFound"
    by (auto simp: Store_Get_def ErrSecretNotFound_def split: sum.splits if_splits)
qed

theorem secret_get_set_witness:
  "Store_Get arrayKeyring (Namespaced \<lparr>ss_namespace = [], ss_fileDir = [], ss_serviceName = []\<rparr> ''vpn'') ''k''
     (snd (Store_Set arrayKeyring (Namespaced \<lparr>ss_namespace = [], ss_fileDir = [], ss_serviceName = []\<rparr> ''vpn'') ''k'' ''v'' [])) =
   Inr ''v''"
proof -
  let ?st = "Namespaced \<lparr>ss_namespace = [], ss_fileDir = [], ss_serviceName = []\<rparr> ''vpn''"
  have "Store_Set arrayKeyring ?st ''k'' ''v'' [] = (None, snd (Store_Set arrayKeyring ?st ''k'' ''v'' []))"
    by (simp add: Store_Set_def arrayKeyring_def)
  with secret_get_set [OF arr.keyring_axioms] show ?thesis by (simp add: nsName_def)
qed

section \<open>The master key\<close>

datatype keyErr = StatDir oserr | DirWorldWritable | WrongSize nat | ReadKey oserr | NoRandom | WriteKey oserr

text \<open>\<open>rnd\<close> is what \<open>rand.Read\<close> puts into the 32-byte buffer, or \<open>None\<close> when it fails.\<close>

definition EnsureMasterKey :: "path \<Rightarrow> bytes option \<Rightarrow> os \<Rightarrow> (keyErr + bytes) \<times> os" where
  "EnsureMasterKey p rnd s =
     (case Stat (Dir p) s of Inl e \<Rightarrow> (Inl (StatDir e), s)
      | Inr info \<Rightarrow>
          if worldWritable (nmode info) then (Inl DirWorldWritable, s)
          else case ReadFile p s of
                 Inr k \<Rightarrow> (if length k \<noteq> 32 then (Inl (WrongSize (length k)), s) else (Inr k, s))
               | Inl e \<Rightarrow>
                   if e \<noteq> ErrNotExist then (Inl (ReadKey e), s)
                   else case rnd of None \<Rightarrow> (Inl NoRandom, s)
                        | Some key \<Rightarrow>
                            (case WriteFile p key mode600 s of
                               (Some e', s') \<Rightarrow> (Inl (WriteKey e'), s')
                             | (None, s') \<Rightarrow> (Inr key, s')))"

lemma WriteFile_new:
  "WriteFile p d m s = (None, s') \<Longrightarrow> node_at s p = None \<Longrightarrow>
   node_at s' p = Some (File d m (getuid s)) \<and> faults s' = faults s \<and> getuid s' = getuid s \<and>
   (\<forall>q. Clean q \<noteq> Clean p \<longrightarrow> node_at s' q = node_at s q)"
  by (auto simp: WriteFile_def Let_def split: option.splits if_splits)

text \<open>C23: The master key. For a path that is not its own directory, and a source of randomness that gives 32 bytes if
  any: a key that is returned has 32 bytes and comes from a directory that is not world-writable; it is then on disk, created with mode 0600 if it was not there, and asking again, with
  whatever randomness, returns the same key and changes nothing.\<close>

theorem master_key_stable:
  assumes "EnsureMasterKey p rnd s = (Inr key, s')" and "\<forall>k. rnd = Some k \<longrightarrow> length k = 32"
    and "Clean (Dir p) \<noteq> Clean p"
  shows "length key = 32 \<and> ReadFile p s' = Inr key \<and> EnsureMasterKey p rnd' s' = (Inr key, s') \<and>
         (\<exists>n. Stat (Dir p) s = Inr n \<and> \<not> worldWritable (nmode n)) \<and>
         (node_at s p = None \<longrightarrow> (\<exists>u. node_at s' p = Some (File key mode600 u)))"
proof -
  from assms(1) obtain n where n: "Stat (Dir p) s = Inr n" "\<not> worldWritable (nmode n)"
    by (auto simp: EnsureMasterKey_def split: sum.splits if_splits)
  show ?thesis
  proof (cases "ReadFile p s")
    case (Inr k)
    with assms(1) n have "key = k" "length k = 32" "s' = s"
      by (auto simp: EnsureMasterKey_def split: if_splits)
    then show ?thesis
      using n Inr by (simp add: EnsureMasterKey_def) (auto simp: ReadFile_Inr)
  next
    case (Inl e)
    with assms(1) n obtain k where e: "e = ErrNotExist" and k: "rnd = Some k" "key = k"
        "WriteFile p k mode600 s = (None, s')"
      by (auto simp: EnsureMasterKey_def split: if_splits option.splits prod.splits)
    have none: "node_at s p = None" and nf: "faults s (OpReadFile p) = None"
      using Inl e by (auto simp: ReadFile_def split: option.splits node.splits)
    note w = WriteFile_new [OF k(3) none]
    have rd: "ReadFile p s' = Inr k" using w nf by (auto simp: ReadFile_Inr)
    have "node_at s' (Dir p) = node_at s (Dir p)" "faults s' = faults s" using w assms(3) by auto
    then have "Stat (Dir p) s' = Inr n" using n(1) by (simp add: Stat_def split: option.splits)
    with n rd k assms(2) w none show ?thesis by (auto simp: EnsureMasterKey_def)
  qed
qed

theorem master_key_stable_witness:
  "fst (EnsureMasterKey ''/v/k'' None (snd (EnsureMasterKey ''/v/k'' (Some (replicate 32 (CHR ''a''))) dirOs))) =
     Inr (replicate 32 (CHR ''a''))"
proof -
  note ev = dirOs_def emptyOs_def node_at_def Clean_def cleanComps_def cleanStep_def Dir_def isDirectory_def
  have "fst (EnsureMasterKey ''/v/k'' (Some (replicate 32 (CHR ''a''))) dirOs) = Inr (replicate 32 (CHR ''a''))"
    by (simp add: EnsureMasterKey_def Stat_def ReadFile_def WriteFile_def worldWritable_def ev Let_def)
  then have "EnsureMasterKey ''/v/k'' (Some (replicate 32 (CHR ''a''))) dirOs =
      (Inr (replicate 32 (CHR ''a'')), snd (EnsureMasterKey ''/v/k'' (Some (replicate 32 (CHR ''a''))) dirOs))"
    by (metis prod.collapse)
  from master_key_stable [OF this, of None] show ?thesis by (simp add: ev)
qed

end
