(* ===== verification/ConfigStore.thy ===== *)
theory ConfigStore
  imports Os_Model Sdk
begin

text \<open>
  Configuration (\<open>internal/daemon/configstore.go\<close>) and the daemon's lock file
  (\<open>lock_unix.go\<close>). YAML decoding and the JSON Schema library are parameters. The main facts: a
  module's configuration file lies directly in \<open>modules.d\<close> whatever the name, and a module receives
  only configuration that decoded and passed its schema.
\<close>

section \<open>Daemon configuration\<close>

record DaemonConfig =
  dc_SocketPath :: string
  dc_PluginsDir :: string
  dc_LogLevel :: string
  dc_Group :: string

definition defaultConfig :: DaemonConfig where
  "defaultConfig = \<lparr>dc_SocketPath = ''/run/penguin/penguind.sock'', dc_PluginsDir = ''/opt/penguin/plugins'',
                    dc_LogLevel = ''info'', dc_Group = ''penguin''\<rparr>"

datatype cfgErr =
    ReadCfg oserr | ParseCfg goerr | InvalidName string | ReadModule string oserr | ParseModule string goerr
  | ParseSchema string goerr | CompileSchema string goerr | MarshalCfg goerr | UnmarshalCfg goerr
  | SchemaFailed string "string list" | SchemaError string goerr

definition orDefault :: "string \<Rightarrow> string \<Rightarrow> string" where
  "orDefault x d = (if x = [] then d else x)"

definition cs_Daemon :: "(bytes \<Rightarrow> goerr + DaemonConfig) \<Rightarrow> path \<Rightarrow> os \<Rightarrow> cfgErr + DaemonConfig" where
  "cs_Daemon yaml dir s =
     (case ReadFile (JoinPath [dir, ''config.yaml'']) s of
        Inl e \<Rightarrow> (if e = ErrNotExist then Inr defaultConfig else Inl (ReadCfg e))
      | Inr d \<Rightarrow>
          (case yaml d of Inl e \<Rightarrow> Inl (ParseCfg e)
           | Inr cfg \<Rightarrow>
               Inr \<lparr>dc_SocketPath = orDefault (dc_SocketPath cfg) (dc_SocketPath defaultConfig),
                    dc_PluginsDir = orDefault (dc_PluginsDir cfg) (dc_PluginsDir defaultConfig),
                    dc_LogLevel = orDefault (dc_LogLevel cfg) (dc_LogLevel defaultConfig),
                    dc_Group = orDefault (dc_Group cfg) (dc_Group defaultConfig)\<rparr>))"

section \<open>Schema validation\<close>

text \<open>A validation error of the library: where it happened and what caused it.\<close>

datatype ValidationError = ValidationError (InstanceLocation: "string list") (Causes: "ValidationError list")

datatype validation = Valid | Invalid ValidationError | OtherErr goerr

record ('y, 'j, 'sch) schemaLib =
  sl_Unmarshal :: "bytes \<Rightarrow> goerr + 'sch"
  sl_AddResource :: "'sch \<Rightarrow> goerr option"
  sl_Compile :: "'sch \<Rightarrow> goerr option"
  sl_Marshal :: "'y \<Rightarrow> goerr + bytes"
  sl_UnmarshalData :: "bytes \<Rightarrow> goerr + 'j"
  sl_Validate :: "'sch \<Rightarrow> 'j \<Rightarrow> validation"

fun extractErrorPaths :: "ValidationError \<Rightarrow> string list" where
  "extractErrorPaths (ValidationError loc causes) =
     (if loc \<noteq> [] then [Join ''.'' loc] else []) @ concat (map extractErrorPaths causes)"

definition validateSchema :: "('y, 'j, 'sch) schemaLib \<Rightarrow> 'y \<Rightarrow> bytes \<Rightarrow> string \<Rightarrow> cfgErr option" where
  "validateSchema L data schemaBytes moduleName =
     (case sl_Unmarshal L schemaBytes of Inl e \<Rightarrow> Some (ParseSchema moduleName e)
      | Inr sch \<Rightarrow>
     (case sl_AddResource L sch of Some e \<Rightarrow> Some (CompileSchema moduleName e)
      | None \<Rightarrow>
     (case sl_Compile L sch of Some e \<Rightarrow> Some (CompileSchema moduleName e)
      | None \<Rightarrow>
     (case sl_Marshal L data of Inl e \<Rightarrow> Some (MarshalCfg e)
      | Inr jsonData \<Rightarrow>
     (case sl_UnmarshalData L jsonData of Inl e \<Rightarrow> Some (UnmarshalCfg e)
      | Inr jsonObj \<Rightarrow>
     (case sl_Validate L sch jsonObj of Valid \<Rightarrow> None
      | Invalid ve \<Rightarrow> Some (SchemaFailed moduleName (extractErrorPaths ve))
      | OtherErr e \<Rightarrow> Some (SchemaError moduleName e)))))))"

section \<open>Module configuration\<close>

definition badName :: "string \<Rightarrow> bool" where
  "badName name \<longleftrightarrow> Contains name ''/'' \<or> Contains name [CHR 0x5C] \<or> Contains name ''..''"

definition modulePath :: "path \<Rightarrow> string \<Rightarrow> path" where
  "modulePath dir name = JoinPath [dir, ''modules.d'', name @ ''.yaml'']"

text \<open>\<open>none\<close> is the empty map.\<close>

definition cs_Module ::
  "(bytes \<Rightarrow> goerr + 'y) \<Rightarrow> 'y \<Rightarrow> ('y, 'j, 'sch) schemaLib \<Rightarrow> path \<Rightarrow> string \<Rightarrow> bytes \<Rightarrow> os \<Rightarrow> cfgErr + 'y" where
  "cs_Module yaml none L dir name schema s =
     (if badName name then Inl (InvalidName name)
      else case ReadFile (modulePath dir name) s of
             Inl e \<Rightarrow> (if e = ErrNotExist then Inr none else Inl (ReadModule name e))
           | Inr d \<Rightarrow>
               (case yaml d of Inl e \<Rightarrow> Inl (ParseModule name e)
                | Inr cfg \<Rightarrow>
                    if length schema > 0 then
                      (case validateSchema L cfg schema name of Some e \<Rightarrow> Inl e | None \<Rightarrow> Inr cfg)
                    else Inr cfg))"

text \<open>\<open>ModuleRaw\<close> reads the file twice, once to validate it and once to return its bytes: \<open>s\<close> is the file system at the first
  reading, \<open>s'\<close> at the second, which other processes may have changed.\<close>

definition ModuleRaw ::
  "(bytes \<Rightarrow> goerr + 'y) \<Rightarrow> 'y \<Rightarrow> ('y, 'j, 'sch) schemaLib \<Rightarrow> path \<Rightarrow> string \<Rightarrow> bytes \<Rightarrow> os \<Rightarrow> os \<Rightarrow> cfgErr + bytes" where
  "ModuleRaw yaml none L dir name schema s s' =
     (if badName name then Inl (InvalidName name)
      else case cs_Module yaml none L dir name schema s of Inl e \<Rightarrow> Inl e
           | Inr _ \<Rightarrow>
               (case ReadFile (modulePath dir name) s' of
                  Inl e \<Rightarrow> (if e = ErrNotExist then Inr [] else Inl (ReadModule name e))
                | Inr d \<Rightarrow> Inr d))"

section \<open>The lock file\<close>

text \<open>\<open>locks\<close> are the paths some open file holds an exclusive \<open>flock\<close> on.\<close>

datatype lockErr = OpenLock path oserr | AlreadyRunning path | FlockErr path string

definition AcquireLock :: "path \<Rightarrow> path list \<times> os \<Rightarrow> (lockErr + path) \<times> path list \<times> os" where
  "AcquireLock p st =
     (case st of (locks, s) \<Rightarrow>
        (case faults s (OpOpen p) of Some e \<Rightarrow> (Inl (OpenLock p (SysErr e)), locks, s)
         | None \<Rightarrow>
           (if \<not> isDirectory s (Dir p) then (Inl (OpenLock p ErrNotExist), locks, s)
            else
              let s1 = (case node_at s p of None \<Rightarrow> set_node p (File [] mode600 (getuid s)) s | Some _ \<Rightarrow> s)
              in if Clean p \<in> set locks then (Inl (AlreadyRunning p), locks, s1)
                 else (Inr (Clean p), Clean p # locks, s1))))"

definition ReleaseLock :: "path \<Rightarrow> path list \<times> os \<Rightarrow> path list \<times> os" where
  "ReleaseLock l st = (case st of (locks, s) \<Rightarrow> (remove1 l locks, s))"

section \<open>Properties\<close>

text \<open>No module name escapes \<open>modules.d\<close>. For every name the guard lets through, the file that is
  read is exactly \<open>name.yaml\<close> directly inside \<open>modules.d\<close> of the configuration directory; a name with a
  separator or two dots in a row is refused without touching the file system.\<close>

theorem module_path_confined:
  assumes "dir \<noteq> []"
  shows "(\<not> badName name \<longrightarrow> cleanComps (modulePath dir name) = cleanComps dir @ [''modules.d'', name @ ''.yaml'']) \<and>
         (badName name \<longrightarrow> cs_Module yaml none L dir name schema s = Inl (InvalidName name) \<and>
            ModuleRaw yaml none L dir name schema s s' = Inl (InvalidName name))"
proof (intro conjI impI)
  assume "\<not> badName name"
  then have sep: "CHR ''/'' \<notin> set name" by (simp add: badName_def Contains_single)
  let ?xs = "[''modules.d'', name @ ''.yaml'']"
  have ne: "name @ ''.yaml'' \<notin> {[], ''.'', ''..''}" by (cases name) auto
  have plain: "\<forall>x\<in>set ?xs. x \<notin> {[], ''.'', ''..''} \<and> CHR ''/'' \<notin> set x" using sep ne by auto
  have "JoinPath (dir # ?xs) = Clean (Join ''/'' (dir # ?xs))"
    using assms by (simp add: JoinPath_def)
  then have "cleanComps (modulePath dir name) = cleanComps (Join ''/'' (dir # ?xs))"
    by (simp only: modulePath_def cleanComps_Clean)
  also have "\<dots> = cleanComps dir @ ?xs" by (rule cleanComps_join [OF assms _ plain]) simp
  finally show "cleanComps (modulePath dir name) = cleanComps dir @ ?xs" .
qed (simp_all add: cs_Module_def ModuleRaw_def)

theorem module_path_confined_witness:
  "cleanComps (modulePath ''/etc/penguin'' ''squawk'') = [''etc'', ''penguin'', ''modules.d'', ''squawk.yaml'']"
  using module_path_confined [of "''/etc/penguin''" "''squawk''"]
  by (simp add: badName_def Contains_single cleanComps_def cleanStep_def)

text \<open>C21: When a module's configuration is validated. \<open>ModuleRaw\<close> succeeds exactly when the name is harmless, the file it reads
  first is missing or decodes as YAML and, if the module has a schema, passes its validation, and the second reading
  succeeds or finds no file; what it returns is what the second reading finds. So if the file is the same at both readings, what the module
  gets is nothing, when there is no file, or validated bytes; if it was replaced in between, the module gets
  whatever is there then, validated or not.\<close>

theorem config_validated:
  "(ModuleRaw yaml none L dir name schema s s' = Inr raw \<longleftrightarrow>
      \<not> badName name \<and>
      (ReadFile (modulePath dir name) s = Inl ErrNotExist \<or>
       (\<exists>d cfg. ReadFile (modulePath dir name) s = Inr d \<and> yaml d = Inr cfg \<and>
          (schema \<noteq> [] \<longrightarrow> validateSchema L cfg schema name = None))) \<and>
      (ReadFile (modulePath dir name) s' = Inl ErrNotExist \<and> raw = [] \<or> ReadFile (modulePath dir name) s' = Inr raw)) \<and>
   (ModuleRaw yaml none L dir name schema s s' = Inr raw \<longrightarrow> ReadFile (modulePath dir name) s' = ReadFile (modulePath dir name) s \<longrightarrow>
      ReadFile (modulePath dir name) s = Inl ErrNotExist \<and> raw = [] \<or>
      ReadFile (modulePath dir name) s = Inr raw \<and>
        (\<exists>cfg. yaml raw = Inr cfg \<and> (schema \<noteq> [] \<longrightarrow> validateSchema L cfg schema name = None)))"
  by (auto simp: ModuleRaw_def cs_Module_def split: if_splits sum.splits option.splits)

definition dnsOs :: "bytes \<Rightarrow> os" where
  "dnsOs d = emptyOs\<lparr>nodes := [(''/v'', Directory mode700 0), (''/v/modules.d'', Directory mode700 0),
     (''/v/modules.d/dns.yaml'', File d mode600 0)]\<rparr>"

definition onlyOne :: "(bytes, bytes, unit) schemaLib" where
  "onlyOne = \<lparr>sl_Unmarshal = \<lambda>_. Inr (), sl_AddResource = \<lambda>_. None, sl_Compile = \<lambda>_. None, sl_Marshal = Inr, sl_UnmarshalData = Inr,
     sl_Validate = \<lambda>_ d. if d = ''port: 1'' then Valid else Invalid (ValidationError [''port''] [])\<rparr>"

lemma dnsOs_read: "ReadFile (modulePath ''/v'' ''dns'') (dnsOs d) = Inr d"
  by (simp add: ReadFile_def modulePath_def JoinPath_def node_at_def dnsOs_def emptyOs_def Clean_def cleanComps_def cleanStep_def)

text \<open>A valid file is returned, an invalid one is refused, and one that takes its place after the validation is returned.\<close>

theorem config_validated_witness:
  "ModuleRaw Inr [] onlyOne ''/v'' ''dns'' ''{}'' (dnsOs ''port: 1'') (dnsOs ''port: 1'') = Inr ''port: 1'' \<and>
   (\<forall>raw. ModuleRaw Inr [] onlyOne ''/v'' ''dns'' ''{}'' (dnsOs ''port: 2'') (dnsOs ''port: 2'') \<noteq> Inr raw) \<and>
   ModuleRaw Inr [] onlyOne ''/v'' ''dns'' ''{}'' (dnsOs ''port: 1'') (dnsOs ''port: 2'') = Inr ''port: 2'' \<and>
   validateSchema onlyOne ''port: 1'' ''{}'' ''dns'' = None"
proof -
  have v: "validateSchema onlyOne d ''{}'' ''dns'' = None \<longleftrightarrow> d = ''port: 1''" for d
    by (simp add: validateSchema_def onlyOne_def)
  have b: "\<not> badName ''dns''" by (simp add: badName_def Contains_single)
  have "ModuleRaw Inr [] onlyOne ''/v'' ''dns'' ''{}'' (dnsOs ''port: 1'') (dnsOs ''port: 1'') = Inr ''port: 1''"
    by (simp add: config_validated [THEN conjunct1] dnsOs_read v b)
  moreover have "ModuleRaw Inr [] onlyOne ''/v'' ''dns'' ''{}'' (dnsOs ''port: 2'') (dnsOs ''port: 2'') \<noteq> Inr raw" for raw
    by (simp add: config_validated [THEN conjunct1] dnsOs_read v)
  moreover have "ModuleRaw Inr [] onlyOne ''/v'' ''dns'' ''{}'' (dnsOs ''port: 1'') (dnsOs ''port: 2'') = Inr ''port: 2''"
    by (simp add: config_validated [THEN conjunct1] dnsOs_read v b)
  ultimately show ?thesis by (simp add: v)
qed

text \<open>The daemon's configuration is complete: whenever reading it succeeds, every field is set, from
  the file or from the defaults.\<close>

theorem daemon_config_complete:
  assumes "cs_Daemon yaml dir s = Inr cfg"
  shows "dc_SocketPath cfg \<noteq> [] \<and> dc_PluginsDir cfg \<noteq> [] \<and> dc_LogLevel cfg \<noteq> [] \<and> dc_Group cfg \<noteq> []"
  using assms by (auto simp: cs_Daemon_def orDefault_def defaultConfig_def split: sum.splits if_splits)

theorem daemon_config_complete_witness: "dc_Group defaultConfig \<noteq> []"
proof -
  have "cs_Daemon (\<lambda>_. Inl (Errorf [])) ''/v'' dirOs = Inr defaultConfig"
    by (simp add: cs_Daemon_def ReadFile_def JoinPath_def node_at_def dirOs_def emptyOs_def Clean_def
        cleanComps_def cleanStep_def)
  from daemon_config_complete [OF this] show ?thesis by blast
qed

text \<open>One daemon per lock file. While a lock is held, no second acquisition of the same file, under any
  spelling of its path, succeeds; after the release one does again.\<close>

theorem lock_exclusive:
  assumes "AcquireLock p (locks, s) = (Inr l, locks', s')" and "Clean q = Clean p"
  shows "(\<forall>l'. fst (AcquireLock q (locks', s')) \<noteq> Inr l') \<and>
         (distinct locks \<longrightarrow> faults s' (OpOpen p) = None \<longrightarrow> isDirectory s' (Dir p) \<longrightarrow>
            (\<exists>l'. fst (AcquireLock p (ReleaseLock l (locks', s'))) = Inr l'))"
proof -
  have l: "l = Clean p" "locks' = Clean p # locks" "Clean p \<notin> set locks"
    using assms(1) by (auto simp: AcquireLock_def Let_def split: option.splits if_splits)
  then show ?thesis using assms(2) by (auto simp: AcquireLock_def ReleaseLock_def Let_def split: option.split)
qed

theorem lock_exclusive_witness:
  "\<forall>l'. fst (AcquireLock ''/v/./l'' (snd (AcquireLock ''/v/l'' ([], dirOs)))) \<noteq> Inr l'"
proof -
  note ev = node_at_def dirOs_def emptyOs_def Clean_def cleanComps_def cleanStep_def Dir_def isDirectory_def
  have "AcquireLock ''/v/l'' ([], dirOs) = (Inr ''/v/l'', snd (AcquireLock ''/v/l'' ([], dirOs)))"
    by (simp add: AcquireLock_def ev Let_def)
  then have "AcquireLock ''/v/l'' ([], dirOs) =
      (Inr ''/v/l'', fst (snd (AcquireLock ''/v/l'' ([], dirOs))), snd (snd (AcquireLock ''/v/l'' ([], dirOs))))"
    by simp
  from lock_exclusive [OF this, of "''/v/./l''"] show ?thesis by (simp add: ev)
qed

end
