(* ===== verification/Ipc.thy ===== *)
theory Ipc
  imports Os_Model Sdk
begin

text \<open>
  The daemon's Unix socket (\<open>internal/ipc/listen_unix.go\<close>): creating it and deciding which peers may
  call. The user database (\<open>os/user\<close>) and the kernel's socket calls are parameters. A request carries
  the peer information of its connection: none, some other kind of authentication, or the
  credentials of \<open>SO_PEERCRED\<close>.
\<close>

section \<open>Authorisation\<close>

record PeerCreds =
  pr_UID :: int
  pr_GID :: int
  pr_PID :: int

text \<open>\<open>user.LookupGroup\<close>, \<open>user.LookupId\<close> and \<open>User.GroupIds\<close>; \<open>None\<close> is an error. Group ids are decimal
  strings.\<close>

record userdb =
  ud_LookupGroup :: "string \<Rightarrow> string option"
  ud_GroupIds :: "string \<Rightarrow> string list option"

datatype peer = NoPeer | OtherAuth | Creds PeerCreds

datatype authErr = NoPeerInfo | NoPeerCredentials | NotAuthorized int int

definition defaultAuthorize :: "userdb \<Rightarrow> int \<Rightarrow> PeerCreds \<Rightarrow> string \<Rightarrow> bool" where
  "defaultAuthorize db selfUID creds allowedGroup =
     (if pr_UID creds = 0 \<or> pr_UID creds = selfUID then True
      else if allowedGroup = [] then False
      else case ud_LookupGroup db allowedGroup of None \<Rightarrow> False
           | Some gid \<Rightarrow>
               if Itoa (pr_GID creds) = gid then True
               else (case ud_GroupIds db (Itoa (pr_UID creds)) of None \<Rightarrow> False
                     | Some gids \<Rightarrow> list_ex (\<lambda>g. g = gid) gids))"

definition checkPeerAuth :: "userdb \<Rightarrow> int \<Rightarrow> peer \<Rightarrow> string \<Rightarrow> authErr option" where
  "checkPeerAuth db selfUID p allowedGroup =
     (case p of NoPeer \<Rightarrow> Some NoPeerInfo
      | OtherAuth \<Rightarrow> Some NoPeerCredentials
      | Creds creds \<Rightarrow>
          if defaultAuthorize db selfUID creds allowedGroup then None
          else Some (NotAuthorized (pr_UID creds) (pr_GID creds)))"

definition unaryInterceptor :: "userdb \<Rightarrow> int \<Rightarrow> string \<Rightarrow> peer \<Rightarrow> ('s \<Rightarrow> 'a \<times> 's) \<Rightarrow> 's \<Rightarrow> (authErr + 'a) \<times> 's" where
  "unaryInterceptor db selfUID allowedGroup p handler s =
     (case checkPeerAuth db selfUID p allowedGroup of Some e \<Rightarrow> (Inl e, s)
      | None \<Rightarrow> (case handler s of (r, s') \<Rightarrow> (Inr r, s')))"

definition streamInterceptor :: "userdb \<Rightarrow> int \<Rightarrow> string \<Rightarrow> peer \<Rightarrow> ('s \<Rightarrow> 'a \<times> 's) \<Rightarrow> 's \<Rightarrow> (authErr + 'a) \<times> 's" where
  "streamInterceptor db selfUID allowedGroup p handler s =
     (case checkPeerAuth db selfUID p allowedGroup of Some e \<Rightarrow> (Inl e, s)
      | None \<Rightarrow> (case handler s of (r, s') \<Rightarrow> (Inr r, s')))"

text \<open>\<open>ServerHandshake\<close>: what the connection's credentials become. A connection that is not a Unix socket
  has no authentication; the steps that read the credentials may fail.\<close>

definition ServerHandshake :: "bool \<Rightarrow> goerr option \<Rightarrow> goerr + goerr + PeerCreds \<Rightarrow> goerr + peer" where
  "ServerHandshake isUnix syscallConn control =
     (if \<not> isUnix then Inr OtherAuth
      else case syscallConn of Some e \<Rightarrow> Inl (Wrapf ''get syscall conn: '' e [])
           | None \<Rightarrow>
               (case control of Inl e \<Rightarrow> Inl (Wrapf ''control: '' e [])
                | Inr (Inl e) \<Rightarrow> Inl (Wrapf ''getpeercred: '' e [])
                | Inr (Inr c) \<Rightarrow> Inr (Creds c)))"

section \<open>The socket\<close>

datatype listenErr = PathTooLong nat | RemoveStale oserr | MkdirParent oserr | ListenErr string | ChmodSocket oserr

abbreviation maxUnixPath :: nat where "maxUnixPath \<equiv> 103"

text \<open>\<open>bind\<close> is \<open>net.ListenUnix\<close>; a socket is a file without contents here. Closing the listener after a
  failed chmod removes the socket, as Go does for listeners it created.\<close>

definition Listen :: "(path \<Rightarrow> os \<Rightarrow> string option) \<Rightarrow> path \<Rightarrow> os \<Rightarrow> listenErr option \<times> os" where
  "Listen bnd p s =
     (if length p > maxUnixPath then (Some (PathTooLong (length p)), s)
      else case Remove p s of
             (r1, s1) \<Rightarrow>
               if r1 \<noteq> None \<and> r1 \<noteq> Some ErrNotExist then (map_option RemoveStale r1, s1)
               else case MkdirAll (Dir p) mode750 s1 of
                      (Some e, s2) \<Rightarrow> (Some (MkdirParent e), s2)
                    | (None, s2) \<Rightarrow>
                        (case bnd p s2 of Some e \<Rightarrow> (Some (ListenErr e), s2)
                         | None \<Rightarrow>
                             let s3 = set_node p (File [] mode700 (getuid s2)) s2
                             in case Chmod p mode660 s3 of
                                  (Some e, s4) \<Rightarrow> (Some (ChmodSocket e), snd (Remove p s4))
                                | (None, s4) \<Rightarrow> (None, s4)))"

section \<open>Properties\<close>

lemma natDigits_inj: "natDigits a = natDigits b \<Longrightarrow> a = b"
  by (metis digitsVal_natDigits)

lemma Itoa_inj:
  assumes "Itoa i = Itoa j"
  shows "i = j"
proof -
  have h: "natDigits n \<noteq> CHR ''-'' # t" for n t
    using natDigits_digits [of n] by (auto simp: isDigit_def)
  show ?thesis
    using assms h h [symmetric] natDigits_inj by (auto simp: Itoa_def split: if_splits) force+
qed

text \<open>The policy: root, the daemon's own user, and the members of the allowed group.\<close>

definition permitted :: "userdb \<Rightarrow> int \<Rightarrow> string \<Rightarrow> peer \<Rightarrow> bool" where
  "permitted db selfUID allowedGroup p \<longleftrightarrow>
     (\<exists>c. p = Creds c \<and>
        (pr_UID c = 0 \<or> pr_UID c = selfUID \<or>
         (allowedGroup \<noteq> [] \<and>
          (\<exists>g. ud_LookupGroup db allowedGroup = Some (Itoa g) \<and>
             (pr_GID c = g \<or> (\<exists>gs. ud_GroupIds db (Itoa (pr_UID c)) = Some gs \<and> Itoa g \<in> set gs))))))"

lemma checkPeerAuth_permitted:
  assumes "\<forall>gid. ud_LookupGroup db allowedGroup = Some gid \<longrightarrow> (\<exists>g. gid = Itoa g)"
  shows "checkPeerAuth db selfUID p allowedGroup = None \<longleftrightarrow> permitted db selfUID allowedGroup p"
  using assms
  by (auto simp: checkPeerAuth_def permitted_def defaultAuthorize_def list_ex_iff dest: Itoa_inj
      split: peer.splits option.splits if_splits)

text \<open>C8: Only authorised peers reach a handler. A call through either interceptor runs its handler exactly
  when the connection carries peer credentials of root, of the daemon's own user, or of a member of the
  allowed group, by its primary group or a supplementary one; a peer of an unknown or empty group is
  refused, and a refused call changes nothing. The group database returns numbers as group ids.\<close>

theorem peer_gate:
  assumes "\<forall>gid. ud_LookupGroup db allowedGroup = Some gid \<longrightarrow> (\<exists>g. gid = Itoa g)"
  shows "if permitted db selfUID allowedGroup p
         then unaryInterceptor db selfUID allowedGroup p handler s = apfst Inr (handler s) \<and>
              streamInterceptor db selfUID allowedGroup p handler s = apfst Inr (handler s)
         else \<exists>e. unaryInterceptor db selfUID allowedGroup p handler s = (Inl e, s) \<and>
                  streamInterceptor db selfUID allowedGroup p handler s = (Inl e, s)"
  using checkPeerAuth_permitted [OF assms, of selfUID p]
  by (auto simp: unaryInterceptor_def streamInterceptor_def split: option.split prod.split)

theorem peer_gate_witness:
  "unaryInterceptor \<lparr>ud_LookupGroup = \<lambda>g. if g = ''penguin'' then Some (Itoa 42) else None,
                     ud_GroupIds = \<lambda>_. Some [Itoa 42]\<rparr> 0 ''penguin''
     (Creds \<lparr>pr_UID = 1000, pr_GID = 1000, pr_PID = 7\<rparr>) (\<lambda>s. ((), s + 1)) (0 :: nat) = (Inr (), 1)"
proof -
  let ?db = "\<lparr>ud_LookupGroup = \<lambda>g. if g = ''penguin'' then Some (Itoa 42) else None, ud_GroupIds = \<lambda>_. Some [Itoa 42]\<rparr>"
  have "\<forall>gid. ud_LookupGroup ?db ''penguin'' = Some gid \<longrightarrow> (\<exists>g. gid = Itoa g)" by auto
  from peer_gate [OF this, of 0 "Creds \<lparr>pr_UID = 1000, pr_GID = 1000, pr_PID = 7\<rparr>" "\<lambda>s. ((), s + 1)" "0 :: nat"]
  show ?thesis by (auto simp: permitted_def split: if_splits)
qed

text \<open>The socket. A path beyond the limit is refused without touching the file system; on success
  the socket is there with mode 0660, owned by the daemon.\<close>

theorem listen_socket:
  shows "(length p > 103 \<longrightarrow> Listen bnd p s = (Some (PathTooLong (length p)), s)) \<and>
         (\<forall>s'. Listen bnd p s = (None, s') \<longrightarrow> length p \<le> 103 \<and> (\<exists>u. node_at s' p = Some (File [] mode660 u)))"
  by (auto simp: Listen_def Let_def Chmod_def split: prod.splits option.splits if_splits)

theorem listen_socket_witness:
  "Listen (\<lambda>_ _. None) (replicate 104 (CHR ''a'')) emptyOs = (Some (PathTooLong 104), emptyOs)"
  using listen_socket [of "replicate 104 (CHR ''a'')" "\<lambda>_ _. None" emptyOs] by simp

end
