(* ===== verification/Cli.thy ===== *)
theory Cli
  imports Sdk Go_Strings "HOL-Library.Multiset"
begin

text \<open>
  The command line built from the daemon's command trees (\<open>internal/cli/builder.go\<close>) and the menu
  model of the tray (\<open>internal/tray/model.go\<close>). A cobra command is the datatype \<open>Command\<close>: what
  \<open>buildCommand\<close> puts into its fields, with the argument bounds and the dispatched path that its two
  closures capture. The daemon is a parameter: the responses it gives, and for a dispatch the stream of
  chunks and the error that ends it.
\<close>

section \<open>Building commands\<close>

datatype cliFlag = StringFlag string string string string | BoolFlag string string bool string
  | IntFlag string string int string

datatype Command = Command
  (cb_Use: string) (cb_Short: string) (cb_MinArgs: "32 word") (cb_MaxArgs: "32 word")
  (cb_Module: string) (cb_Path: "string list") (cb_Flags: "cliFlag list") (cb_Commands: "Command list")

definition buildFlag :: "PbFlagSpec \<Rightarrow> cliFlag list" where
  "buildFlag f =
     (if pf_Type f = ''string'' then [StringFlag (pf_Name f) (pf_Shorthand f) (pf_Default f) (pf_Usage f)]
      else if pf_Type f = ''bool'' then [BoolFlag (pf_Name f) (pf_Shorthand f) (pf_Default f = ''true'') (pf_Usage f)]
      else if pf_Type f = ''int'' then
        [IntFlag (pf_Name f) (pf_Shorthand f) (case Atoi (pf_Default f) of None \<Rightarrow> 0 | Some v \<Rightarrow> v) (pf_Usage f)]
      else [])"

fun buildCommand :: "string \<Rightarrow> string list \<Rightarrow> PbCommandSpec \<Rightarrow> Command" where
  "buildCommand m parents (PbCommandSpec name use shrt flags subs tray minA maxA) =
     Command name shrt minA maxA m (parents @ [name]) (concat (map buildFlag flags))
       (map (buildCommand m (parents @ [name])) subs)"

definition moduleCommand :: "string \<times> PbCommandSpec list \<Rightarrow> Command" where
  "moduleCommand mc =
     Command (fst mc) (''Commands provided by the '' @ fst mc @ '' module'') 0 (-1) (fst mc) [] []
       (map (buildCommand (fst mc) []) (snd mc))"

definition BuildRoot :: "goerr + (string \<times> PbCommandSpec list) list \<Rightarrow> goerr + Command list" where
  "BuildRoot listCommands =
     (case listCommands of Inl e \<Rightarrow> Inl (Wrapf ''list commands: '' e [])
      | Inr mods \<Rightarrow> Inr (map moduleCommand (filter (\<lambda>mc. snd mc \<noteq> []) mods)))"

text \<open>The \<open>Args\<close> closure.\<close>

definition checkArgs :: "32 word \<Rightarrow> 32 word \<Rightarrow> nat \<Rightarrow> string option" where
  "checkArgs minA maxA n =
     (if int n < sint minA then
        Some (''requires at least '' @ Itoa (sint minA) @ '' argument(s), got '' @ Itoa (int n))
      else if 0 \<le> sint maxA \<and> sint maxA < int n then
        Some (''accepts at most '' @ Itoa (sint maxA) @ '' argument(s), got '' @ Itoa (int n))
      else None)"

section \<open>Dispatching\<close>

datatype flagValue = FString string | FBool bool | FInt int

definition flagText :: "flagValue \<Rightarrow> string" where
  "flagText v = (case v of FString s \<Rightarrow> s | FBool b \<Rightarrow> (if b then ''true'' else ''false'') | FInt i \<Rightarrow> Itoa i)"

definition collectFlags :: "(string \<times> flagValue) list \<Rightarrow> (string, string) gomap" where
  "collectFlags changed = fold (\<lambda>(n, v) m. put n (flagText v) m) changed []"

record CliChunk =
  cc_Output :: string
  cc_ExitCode :: "32 word"
  cc_Final :: bool

text \<open>What a dispatch ends in: the process exits with a code, or \<open>RunE\<close> returns an error or nil.\<close>

datatype cliEnd = Exit "64 word" | ReturnErr string | ReturnOk

datatype openErr = Unavailable | OtherOpen string

text \<open>\<open>stream\<close> is the error of opening the stream, or the chunks received and the error that ended them
  (\<open>None\<close> for the regular end of the stream). \<open>printed\<close> is the output on the terminal.\<close>

definition cli_dispatch :: "openErr + CliChunk list \<times> goerr option \<Rightarrow> string \<times> cliEnd" where
  "cli_dispatch stream =
     (case stream of
        Inl Unavailable \<Rightarrow> ([], ReturnErr ''daemon unreachable'')
      | Inl (OtherOpen e) \<Rightarrow> ([], ReturnErr e)
      | Inr (chunks, err) \<Rightarrow>
          let exitCode = foldl (\<lambda>x c. if cc_Final c then cc_ExitCode c else x) 0 chunks;
              printed = concat (map cc_Output chunks)
          in (printed, if exitCode \<noteq> 0 then Exit (scast exitCode) else ReturnOk))"

section \<open>The tray\<close>

type_synonym Health = string

abbreviation HealthUnknown :: Health where "HealthUnknown \<equiv> ''unknown''"
abbreviation HealthOK :: Health where "HealthOK \<equiv> ''healthy''"
abbreviation HealthWarn :: Health where "HealthWarn \<equiv> ''degraded''"
abbreviation HealthBad :: Health where "HealthBad \<equiv> ''unhealthy''"

record TrayAction =
  ta_Label :: string
  ta_Path :: "string list"

record ModuleItem =
  it_Name :: string
  it_Loaded :: bool
  it_State :: string
  it_Health :: Health
  it_Detail :: string
  it_Actions :: "TrayAction list"

record Model =
  mo_Modules :: "ModuleItem list"
  mo_Overall :: Health
  mo_UpdatedAt :: time

definition parseHealth :: "string \<Rightarrow> Health" where
  "parseHealth s =
     (if s = ''healthy'' then HealthOK
      else if s = ''degraded'' then HealthWarn
      else if s = ''unhealthy'' then HealthBad
      else HealthUnknown)"

definition rank :: "Health \<Rightarrow> int" where
  "rank h =
     (case get [(HealthOK, 0), (HealthUnknown, 1), (HealthWarn, 2), (HealthBad, 3)] h of
        None \<Rightarrow> 0 | Some r \<Rightarrow> r)"

definition worstHealth :: "ModuleItem list \<Rightarrow> Health" where
  "worstHealth items =
     foldl (\<lambda>worst it. if \<not> it_Loaded it then worst
                       else if rank (it_Health it) > rank worst then it_Health it else worst) HealthOK items"

fun walk :: "string list \<Rightarrow> PbCommandSpec \<Rightarrow> TrayAction list" where
  "walk prefix (PbCommandSpec name use shrt flags subs tray minA maxA) =
     (if tray then [\<lparr>ta_Label = shrt, ta_Path = prefix @ [name]\<rparr>] else []) @
     concat (map (walk (prefix @ [name])) subs)"

definition actionsOf :: "(string, TrayAction list) gomap \<Rightarrow> string \<Rightarrow> TrayAction list" where
  "actionsOf out m = (case get out m of None \<Rightarrow> [] | Some xs \<Rightarrow> xs)"

definition addActions ::
  "string \<times> PbCommandSpec list \<Rightarrow> (string, TrayAction list) gomap \<Rightarrow> (string, TrayAction list) gomap" where
  "addActions mc out =
     (let as = concat (map (walk []) (snd mc))
      in if as = [] then out else put (fst mc) (actionsOf out (fst mc) @ as) out)"

definition trayActions :: "(string \<times> PbCommandSpec list) list \<Rightarrow> (string, TrayAction list) gomap" where
  "trayActions cmds = fold addActions cmds []"

record TrayModule =
  tm_Name :: string
  tm_State :: string

record TrayStatus =
  ts_Name :: string
  ts_Health :: string
  ts_HealthMessage :: string

definition trayItem ::
  "(string, TrayStatus) gomap \<Rightarrow> (string, TrayAction list) gomap \<Rightarrow> TrayModule \<Rightarrow> ModuleItem" where
  "trayItem statusByModule actions m =
     (let item = \<lparr>it_Name = tm_Name m, it_Loaded = (tm_State m \<noteq> ''disabled''), it_State = tm_State m,
                  it_Health = HealthUnknown, it_Detail = [],
                  it_Actions = actionsOf actions (tm_Name m)\<rparr>
      in case get statusByModule (tm_Name m) of None \<Rightarrow> item
         | Some st \<Rightarrow> item\<lparr>it_Health := parseHealth (ts_Health st), it_Detail := ts_HealthMessage st\<rparr>)"

definition Snapshot ::
  "goerr + TrayModule list \<Rightarrow> goerr + TrayStatus list \<Rightarrow> goerr + (string \<times> PbCommandSpec list) list \<Rightarrow> time \<Rightarrow>
   goerr + Model" where
  "Snapshot mods st cmds now =
     (case mods of Inl e \<Rightarrow> Inl (Wrapf ''list modules: '' e [])
      | Inr ms \<Rightarrow>
     (case st of Inl e \<Rightarrow> Inl (Wrapf ''get status: '' e [])
      | Inr ss \<Rightarrow>
     (case cmds of Inl e \<Rightarrow> Inl (Wrapf ''list commands: '' e [])
      | Inr cs \<Rightarrow>
          let statusByModule = fold (\<lambda>s m. put (ts_Name s) s m) ss [];
              items = sort_key it_Name (map (trayItem statusByModule (trayActions cs)) ms)
          in Inr \<lparr>mo_Modules = items, mo_Overall = worstHealth items, mo_UpdatedAt = now\<rparr>)))"

section \<open>Properties of the command line\<close>

text \<open>The command of a tree that a path of names denotes, in the source tree and in the built one.\<close>

inductive specAt :: "PbCommandSpec list \<Rightarrow> string list \<Rightarrow> PbCommandSpec \<Rightarrow> bool" where
  here: "s \<in> set specs \<Longrightarrow> specAt specs [pc_Name s] s"
| below: "s \<in> set specs \<Longrightarrow> specAt (pc_Subcommands s) p t \<Longrightarrow> specAt specs (pc_Name s # p) t"

inductive cmdAt :: "Command list \<Rightarrow> string list \<Rightarrow> Command \<Rightarrow> bool" where
  here: "c \<in> set cs \<Longrightarrow> cmdAt cs [cb_Use c] c"
| below: "c \<in> set cs \<Longrightarrow> cmdAt (cb_Commands c) p d \<Longrightarrow> cmdAt cs (cb_Use c # p) d"

inductive_cases cmdAtE: "cmdAt cs p c"

lemma buildCommand_sel:
  "cb_Use (buildCommand m ps s) = pc_Name s" "cb_Path (buildCommand m ps s) = ps @ [pc_Name s]"
  "cb_Commands (buildCommand m ps s) = map (buildCommand m (ps @ [pc_Name s])) (pc_Subcommands s)"
  "cb_MinArgs (buildCommand m ps s) = pc_MinArgs s" "cb_MaxArgs (buildCommand m ps s) = pc_MaxArgs s"
  "cb_Module (buildCommand m ps s) = m"
  by (cases s; simp)+

lemma cmdAt_built:
  "cmdAt (map (buildCommand m ps) specs) p c \<Longrightarrow>
   \<exists>s. specAt specs p s \<and> cb_Path c = ps @ p \<and> cb_Module c = m \<and>
       cb_MinArgs c = pc_MinArgs s \<and> cb_MaxArgs c = pc_MaxArgs s"
proof (induction "map (buildCommand m ps) specs" p c arbitrary: ps specs rule: cmdAt.induct)
  case (here c)
  then obtain s where s: "s \<in> set specs" "c = buildCommand m ps s" by auto
  then show ?case using specAt.here [OF s(1)] by (auto simp: buildCommand_sel)
next
  case (below c p d)
  then obtain s where s: "s \<in> set specs" "c = buildCommand m ps s" by auto
  then have "cb_Commands c = map (buildCommand m (ps @ [pc_Name s])) (pc_Subcommands s)"
    by (simp add: buildCommand_sel)
  from below.hyps(3) [OF this] obtain t where "specAt (pc_Subcommands s) p t" "cb_Path d = (ps @ [pc_Name s]) @ p"
      "cb_Module d = m" "cb_MinArgs d = pc_MinArgs t" "cb_MaxArgs d = pc_MaxArgs t"
    by blast
  then show ?case using s by (auto simp: buildCommand_sel intro: specAt.below)
qed

lemma built_cmdAt: "specAt specs p s \<Longrightarrow> \<exists>c. cmdAt (map (buildCommand m ps) specs) p c"
proof (induction arbitrary: ps rule: specAt.induct)
  case (here s specs)
  then have "buildCommand m ps s \<in> set (map (buildCommand m ps) specs)" by simp
  from cmdAt.here [OF this] show ?case by (auto simp: buildCommand_sel)
next
  case (below s specs p t)
  then have b: "buildCommand m ps s \<in> set (map (buildCommand m ps) specs)" by simp
  from below.IH [of "ps @ [pc_Name s]"] obtain c where
    "cmdAt (cb_Commands (buildCommand m ps s)) p c" by (auto simp: buildCommand_sel)
  from cmdAt.below [OF b this] show ?case by (auto simp: buildCommand_sel)
qed

text \<open>C35: The command line mirrors the command trees. In the tree built for a module, exactly the paths of
  its command specifications exist, and the command found under a path dispatches that full path to
  that module and enforces the argument bounds of the specification at it.\<close>

theorem cli_mirrors_specs:
  "(\<forall>p c. cmdAt (cb_Commands (moduleCommand (m, specs))) p c \<longrightarrow>
      (\<exists>s. specAt specs p s \<and> cb_Path c = p \<and> cb_Module c = m \<and>
           cb_MinArgs c = pc_MinArgs s \<and> cb_MaxArgs c = pc_MaxArgs s)) \<and>
   (\<forall>p s. specAt specs p s \<longrightarrow> (\<exists>c. cmdAt (cb_Commands (moduleCommand (m, specs))) p c))"
  using cmdAt_built [of m "[]" specs] built_cmdAt [of specs _ _ m "[]"]
  by (simp add: moduleCommand_def)

theorem cli_mirrors_specs_witness:
  "\<exists>c. cmdAt (cb_Commands (moduleCommand (''dns'', [PbCommandSpec ''config'' [] [] []
          [PbCommandSpec ''show'' [] [] [] [] False 0 0] False 0 0]))) [''config'', ''show''] c \<and>
       cb_Path c = [''config'', ''show'']"
proof -
  let ?s = "PbCommandSpec ''show'' [] [] [] [] False 0 0"
  let ?c = "PbCommandSpec ''config'' [] [] [] [?s] False 0 0"
  have "specAt (pc_Subcommands ?c) [pc_Name ?s] ?s" by (rule specAt.here) simp
  then have "specAt [?c] (pc_Name ?c # [pc_Name ?s]) ?s" by (rule specAt.below [rotated]) simp
  then show ?thesis using cli_mirrors_specs [of "''dns''" "[?c]"] by fastforce
qed

text \<open>Argument bounds. A command accepts \<open>n\<close> positional arguments exactly when \<open>n\<close> is at least the
  minimum and, unless the maximum is negative, at most the maximum.\<close>

theorem args_bounds:
  "checkArgs minA maxA n = None \<longleftrightarrow> sint minA \<le> int n \<and> (sint maxA < 0 \<or> int n \<le> sint maxA)"
  by (auto simp: checkArgs_def)

text \<open>The exit status of a dispatched command is decided by the last final chunk alone. An error that
  ends the stream, which is how the daemon reports an unknown module or a failing command, is dropped:
  with no final chunk the command line returns success, whatever the error was.\<close>

theorem stream_error_dropped:
  "cli_dispatch (Inr (chunks, Some e)) = cli_dispatch (Inr (chunks, None)) \<and>
   (list_all (\<lambda>c. \<not> cc_Final c) chunks \<longrightarrow> snd (cli_dispatch (Inr (chunks, Some e))) = ReturnOk)"
proof -
  have f: "list_all (\<lambda>c. \<not> cc_Final c) cs \<Longrightarrow> foldl (\<lambda>x c. if cc_Final c then cc_ExitCode c else x) a cs = a" for cs a
    by (induction cs arbitrary: a) simp_all
  show ?thesis by (simp add: cli_dispatch_def Let_def f)
qed

theorem stream_error_dropped_witness:
  "snd (cli_dispatch (Inr ([], Some (Errorf ''rpc error: code = NotFound'')))) = ReturnOk"
  using stream_error_dropped [of "[]" "Errorf ''rpc error: code = NotFound''", THEN conjunct2] by simp

section \<open>Properties of the tray\<close>

lemma walk_member:
  "a \<in> set (walk ps s) \<longleftrightarrow>
     (pc_Tray s \<and> a = \<lparr>ta_Label = pc_Short s, ta_Path = ps @ [pc_Name s]\<rparr>) \<or>
     (\<exists>t \<in> set (pc_Subcommands s). a \<in> set (walk (ps @ [pc_Name s]) t))"
  by (cases s) auto

lemma walk_specAt_aux:
  "specAt specs p t \<Longrightarrow> pc_Tray t \<Longrightarrow>
   \<exists>s \<in> set specs. \<lparr>ta_Label = pc_Short t, ta_Path = ps @ p\<rparr> \<in> set (walk ps s)"
proof (induction arbitrary: ps rule: specAt.induct)
  case (here s specs)
  then show ?case using walk_member [of _ ps s] by blast
next
  case (below s specs p t)
  from below.IH [OF below.prems, of "ps @ [pc_Name s]"] below.hyps(1) show ?case
    using walk_member [of "\<lparr>ta_Label = pc_Short t, ta_Path = ps @ pc_Name s # p\<rparr>" ps s] by auto
qed

lemma specAt_walk_aux:
  "a \<in> set (walk ps s) \<Longrightarrow> s \<in> set specs \<Longrightarrow>
   \<exists>p t. specAt specs p t \<and> pc_Tray t \<and> a = \<lparr>ta_Label = pc_Short t, ta_Path = ps @ p\<rparr>"
proof (induction s arbitrary: ps specs)
  case (PbCommandSpec name use shrt flags subs tray minA maxA)
  let ?s = "PbCommandSpec name use shrt flags subs tray minA maxA"
  from PbCommandSpec.prems(1) consider
      (h) "tray" "a = \<lparr>ta_Label = shrt, ta_Path = ps @ [name]\<rparr>"
    | (b) t where "t \<in> set subs" "a \<in> set (walk (ps @ [name]) t)"
    using walk_member [of a ps ?s] by auto
  then show ?case
  proof cases
    case h
    then show ?thesis using specAt.here [OF PbCommandSpec.prems(2)] by auto
  next
    case b
    from PbCommandSpec.IH [OF b(1) b(2) b(1)] obtain p u where
      u: "specAt subs p u" "pc_Tray u" "a = \<lparr>ta_Label = pc_Short u, ta_Path = (ps @ [name]) @ p\<rparr>" by blast
    have "specAt specs (name # p) u" using specAt.below [OF PbCommandSpec.prems(2), of p u] u(1) by simp
    then show ?thesis using u by auto
  qed
qed

lemma walk_specAt:
  "(\<exists>s \<in> set specs. a \<in> set (walk ps s)) \<longleftrightarrow>
     (\<exists>p t. specAt specs p t \<and> pc_Tray t \<and> a = \<lparr>ta_Label = pc_Short t, ta_Path = ps @ p\<rparr>)"
  using walk_specAt_aux specAt_walk_aux by (metis (no_types, lifting))


lemma set_addActions:
  "set (actionsOf (addActions c out) m) =
   set (actionsOf out m) \<union> (if fst c = m then \<Union>s \<in> set (snd c). set (walk [] s) else {})"
  by (auto simp: addActions_def actionsOf_def Let_def)

lemma set_fold_addActions:
  "set (actionsOf (fold addActions cmds out) m) =
   set (actionsOf out m) \<union> (\<Union>c \<in> set cmds. if fst c = m then \<Union>s \<in> set (snd c). set (walk [] s) else {})"
  by (induction cmds arbitrary: out) (simp_all add: set_addActions Un_assoc)

text \<open>The tray menu offers exactly the commands flagged for it. The actions listed under a module are
  those of the flagged commands at any depth of its trees, inner nodes included, each with the short
  description as its label and the full path from the root of the tree.\<close>

theorem tray_actions_exact:
  "a \<in> set (actionsOf (trayActions cmds) m) \<longleftrightarrow>
     (\<exists>specs p t. (m, specs) \<in> set cmds \<and> specAt specs p t \<and> pc_Tray t \<and>
                  a = \<lparr>ta_Label = pc_Short t, ta_Path = p\<rparr>)"
proof -
  have "a \<in> set (actionsOf (trayActions cmds) m) \<longleftrightarrow>
    (\<exists>specs. (m, specs) \<in> set cmds \<and> (\<exists>s \<in> set specs. a \<in> set (walk [] s)))"
  proof -
    have "actionsOf [] m = []" by (simp add: actionsOf_def)
    then show ?thesis by (simp add: trayActions_def set_fold_addActions) force
  qed
  then show ?thesis by (simp add: walk_specAt)
qed

lemma rank_OK [simp]: "rank HealthOK = 0"
  by (simp add: rank_def)

lemma rank_nonneg: "0 \<le> rank h"
  by (simp add: rank_def)

definition worse :: "Health \<Rightarrow> ModuleItem \<Rightarrow> Health" where
  "worse w it = (if \<not> it_Loaded it then w else if rank (it_Health it) > rank w then it_Health it else w)"

lemma worstHealth_fold: "worstHealth items = foldl worse HealthOK items"
  by (simp add: worstHealth_def worse_def [abs_def])

lemma foldl_worse:
  "rank w \<le> rank (foldl worse w items) \<and>
   (\<forall>it \<in> set items. it_Loaded it \<longrightarrow> rank (it_Health it) \<le> rank (foldl worse w items)) \<and>
   (foldl worse w items = w \<or> (\<exists>it \<in> set items. it_Loaded it \<and> foldl worse w items = it_Health it))"
proof (induction items arbitrary: w)
  case (Cons i items)
  show ?case using Cons.IH [of "worse w i"] by (auto simp: worse_def split: if_splits)
qed simp

text \<open>The tray's model of the daemon. When all three calls succeed the model lists one item per module
  of the daemon, sorted by name, and its overall health is the worst health of the loaded modules: it
  ranks at least as high as each of them and is the health of one of them, or healthy. A module that is
  not loaded does not count.\<close>

theorem snapshot_model:
  assumes "Snapshot (Inr ms) (Inr ss) (Inr cs) now = Inr mo"
  shows "image_mset it_Name (mset (mo_Modules mo)) = image_mset tm_Name (mset ms) \<and>
         sorted (map it_Name (mo_Modules mo)) \<and>
         (\<forall>it \<in> set (mo_Modules mo). it_Loaded it = (it_State it \<noteq> ''disabled'')) \<and>
         (\<forall>it \<in> set (mo_Modules mo). it_Loaded it \<longrightarrow> rank (it_Health it) \<le> rank (mo_Overall mo)) \<and>
         (mo_Overall mo = HealthOK \<or> (\<exists>it \<in> set (mo_Modules mo). it_Loaded it \<and> mo_Overall mo = it_Health it))"
proof -
  let ?sb = "fold (\<lambda>s m. put (ts_Name s) s m) ss []"
  let ?it = "trayItem ?sb (trayActions cs)"
  have n: "it_Name (?it m) = tm_Name m" "it_Loaded (?it m) = (it_State (?it m) \<noteq> ''disabled'')" for m
    by (simp_all add: trayItem_def Let_def split: option.splits)
  have mods: "mo_Modules mo = sort_key it_Name (map ?it ms)" and over: "mo_Overall mo = worstHealth (mo_Modules mo)"
    using assms by (auto simp: Snapshot_def Let_def)
  have "image_mset it_Name (mset (mo_Modules mo)) = image_mset tm_Name (mset ms)"
    by (simp add: mods n multiset.map_comp comp_def)
  moreover have "sorted (map it_Name (mo_Modules mo))" by (simp add: mods)
  moreover have "\<forall>it \<in> set (mo_Modules mo). it_Loaded it = (it_State it \<noteq> ''disabled'')"
    using n(2) by (auto simp: mods)
  ultimately show ?thesis
    using foldl_worse [of HealthOK "mo_Modules mo"] unfolding over worstHealth_fold by blast
qed

theorem snapshot_model_witness:
  "\<exists>mo. Snapshot (Inr [\<lparr>tm_Name = ''vpn'', tm_State = ''running''\<rparr>, \<lparr>tm_Name = ''dns'', tm_State = ''running''\<rparr>])
        (Inr [\<lparr>ts_Name = ''vpn'', ts_Health = ''degraded'', ts_HealthMessage = []\<rparr>,
              \<lparr>ts_Name = ''dns'', ts_Health = ''healthy'', ts_HealthMessage = []\<rparr>])
        (Inr []) 0 = Inr mo \<and> sorted (map it_Name (mo_Modules mo)) \<and> mo_Overall mo = HealthWarn"
proof -
  let ?ms = "[\<lparr>tm_Name = ''vpn'', tm_State = ''running''\<rparr>, \<lparr>tm_Name = ''dns'', tm_State = ''running''\<rparr>]"
  let ?ss = "[\<lparr>ts_Name = ''vpn'', ts_Health = ''degraded'', ts_HealthMessage = []\<rparr>,
              \<lparr>ts_Name = ''dns'', ts_Health = ''healthy'', ts_HealthMessage = []\<rparr>]"
  obtain mo where mo: "Snapshot (Inr ?ms) (Inr ?ss) (Inr []) 0 = Inr mo"
    by (simp add: Snapshot_def Let_def)
  moreover have "mo_Overall mo = HealthWarn"
    using mo by (auto simp: Snapshot_def Let_def trayItem_def trayActions_def parseHealth_def worstHealth_def rank_def)
  ultimately show ?thesis using snapshot_model [OF mo] by blast
qed

end
