(* ===== verification/Http.thy ===== *)
theory Http
  imports Json Sdk
begin

text \<open>
  What the components that talk to a server share. The network is a parameter of the model: a function
  from requests to what becomes of them. The text form of an instant depends on the time zone of the
  process and is a parameter too. \<open>decodeFirst\<close> is \<open>json.NewDecoder(body).Decode\<close>, which reads the first
  value of the body and ignores what follows it.
\<close>

record HttpRequest =
  rq_Method :: string
  rq_URL :: string
  rq_Header :: "(string, string) gomap"
  rq_Body :: bytes

text \<open>What becomes of a request: it cannot be built, gets no response, or gets a status and a body, whose
  reading may fail.\<close>

datatype httpResult = BadRequest goerr | NoResponse goerr | Response int "goerr + bytes"

text \<open>How an instant is written as a JSON string and read back.\<close>

record timeCodec =
  formatTime :: "time \<Rightarrow> string"
  parseTime :: "string \<Rightarrow> time option"

text \<open>A scalar field: \<open>null\<close> leaves it as it is.\<close>

definition scalar :: "(json \<Rightarrow> 'v option) \<Rightarrow> ('v \<Rightarrow> 's) \<Rightarrow> json \<Rightarrow> 's \<Rightarrow> 's option" where
  "scalar dec upd j x = (case j of JNull \<Rightarrow> Some x | _ \<Rightarrow> map_option upd (dec j))"

definition decTime :: "timeCodec \<Rightarrow> json \<Rightarrow> time option" where
  "decTime tc j = (case j of JStr s \<Rightarrow> parseTime tc s | _ \<Rightarrow> None)"

definition decodeFirst :: "bytes \<Rightarrow> json option" where
  "decodeFirst d = map_option fst (pval (2 * length d + 2) d)"

text \<open>A body that cannot be read to the end does not decode.\<close>

definition decodeBody :: "(json \<Rightarrow> 'v option) \<Rightarrow> goerr + bytes \<Rightarrow> goerr + 'v" where
  "decodeBody dec body =
     (case body of Inl e \<Rightarrow> Inl e
      | Inr d \<Rightarrow>
          (case Option.bind (decodeFirst d) dec of None \<Rightarrow> Inl (Errorf ''json'') | Some v \<Rightarrow> Inr v))"

lemma parse_decodeFirst: "parse d = Some j \<Longrightarrow> decodeFirst d = Some j"
  by (auto simp: parse_def decodeFirst_def split: option.splits if_splits)

end
