(* ===== verification/Licensing.thy ===== *)
theory Licensing
  imports Http Atomic
begin

text \<open>
  The licence client (\<open>internal/licensing/client.go\<close>): it asks the licence server for the tier and the
  entitled features, keeps them in memory, writes them to a cache file and falls back on them when the
  server cannot be reached. The network is a parameter (\<open>httpDo\<close>), as is the text format of an instant
  in the process's time zone (\<open>timeCodec\<close>); the file system is the one of \<open>Os_Model\<close>. The writer of the
  cache file is an instance of the locale \<open>durable_file\<close>.
\<close>

section \<open>Types\<close>

record Feature =
  fe_Name :: string
  fe_Entitled :: bool
  fe_Units :: int
  fe_Description :: string
  fe_Metadata :: "(string, string) gomap option"

record LicenseInfo =
  li_Valid :: bool
  li_Customer :: string
  li_Product :: string
  li_LicenseVersion :: string
  li_LicenseKey :: string
  li_ExpiresAt :: time
  li_IssuedAt :: time
  li_Tier :: string
  li_Features :: "Feature list option"
  li_Limits :: "(string, int) gomap option"
  li_Metadata :: "(string, string) gomap option"
  li_ServerID :: string
  li_Message :: string

record cacheFile =
  cf_Tier :: string
  cf_Features :: "(string, bool) gomap option"
  cf_FetchedAt :: time

record Options =
  op_LicenseKey :: string
  op_Product :: string
  op_BaseURL :: string
  op_CacheDir :: path
  op_RefreshInterval :: duration

record Client =
  licenseKey :: string
  product :: string
  baseURL :: string
  cacheDir :: path
  refreshInterval :: duration
  cachedTier :: string
  cachedFeatures :: "(string, bool) gomap"
  cachedAt :: time
  stopClosed :: bool

section \<open>JSON\<close>

definition featureField :: "string \<Rightarrow> json \<Rightarrow> Feature \<Rightarrow> Feature option" where
  "featureField k j x =
     (if k = ''name'' then scalar decString (\<lambda>v. x\<lparr>fe_Name := v\<rparr>) j x
      else if k = ''entitled'' then scalar decBool (\<lambda>v. x\<lparr>fe_Entitled := v\<rparr>) j x
      else if k = ''units'' then scalar decInt (\<lambda>v. x\<lparr>fe_Units := v\<rparr>) j x
      else if k = ''description'' then scalar decString (\<lambda>v. x\<lparr>fe_Description := v\<rparr>) j x
      else if k = ''metadata'' then map_option (\<lambda>v. x\<lparr>fe_Metadata := v\<rparr>) (decMap decString j (fe_Metadata x))
      else Some x)"

definition decFeature :: "json \<Rightarrow> Feature option" where
  "decFeature j =
     decObject featureField
       \<lparr>fe_Name = [], fe_Entitled = False, fe_Units = 0, fe_Description = [], fe_Metadata = None\<rparr> j"

definition decFeatures :: "json \<Rightarrow> Feature list option option" where
  "decFeatures j =
     (case j of JNull \<Rightarrow> Some None | JArr js \<Rightarrow> map_option Some (decSlice decFeature js) | _ \<Rightarrow> None)"

definition infoField :: "timeCodec \<Rightarrow> string \<Rightarrow> json \<Rightarrow> LicenseInfo \<Rightarrow> LicenseInfo option" where
  "infoField tc k j x =
     (if k = ''valid'' then scalar decBool (\<lambda>v. x\<lparr>li_Valid := v\<rparr>) j x
      else if k = ''customer'' then scalar decString (\<lambda>v. x\<lparr>li_Customer := v\<rparr>) j x
      else if k = ''product'' then scalar decString (\<lambda>v. x\<lparr>li_Product := v\<rparr>) j x
      else if k = ''license_version'' then scalar decString (\<lambda>v. x\<lparr>li_LicenseVersion := v\<rparr>) j x
      else if k = ''license_key'' then scalar decString (\<lambda>v. x\<lparr>li_LicenseKey := v\<rparr>) j x
      else if k = ''expires_at'' then scalar (decTime tc) (\<lambda>v. x\<lparr>li_ExpiresAt := v\<rparr>) j x
      else if k = ''issued_at'' then scalar (decTime tc) (\<lambda>v. x\<lparr>li_IssuedAt := v\<rparr>) j x
      else if k = ''tier'' then scalar decString (\<lambda>v. x\<lparr>li_Tier := v\<rparr>) j x
      else if k = ''features'' then map_option (\<lambda>v. x\<lparr>li_Features := v\<rparr>) (decFeatures j)
      else if k = ''limits'' then map_option (\<lambda>v. x\<lparr>li_Limits := v\<rparr>) (decMap decInt j (li_Limits x))
      else if k = ''metadata'' then map_option (\<lambda>v. x\<lparr>li_Metadata := v\<rparr>) (decMap decString j (li_Metadata x))
      else if k = ''server_id'' then scalar decString (\<lambda>v. x\<lparr>li_ServerID := v\<rparr>) j x
      else if k = ''message'' then scalar decString (\<lambda>v. x\<lparr>li_Message := v\<rparr>) j x
      else Some x)"

definition emptyInfo :: LicenseInfo where
  "emptyInfo =
     \<lparr>li_Valid = False, li_Customer = [], li_Product = [], li_LicenseVersion = [], li_LicenseKey = [],
      li_ExpiresAt = zeroTime, li_IssuedAt = zeroTime, li_Tier = [], li_Features = None, li_Limits = None,
      li_Metadata = None, li_ServerID = [], li_Message = []\<rparr>"

definition decodeInfo :: "timeCodec \<Rightarrow> bytes \<Rightarrow> LicenseInfo option" where
  "decodeInfo tc d = (case parse d of None \<Rightarrow> None | Some j \<Rightarrow> decObject (infoField tc) emptyInfo j)"

definition cacheField :: "timeCodec \<Rightarrow> string \<Rightarrow> json \<Rightarrow> cacheFile \<Rightarrow> cacheFile option" where
  "cacheField tc k j x =
     (if k = ''tier'' then scalar decString (\<lambda>v. x\<lparr>cf_Tier := v\<rparr>) j x
      else if k = ''features'' then map_option (\<lambda>v. x\<lparr>cf_Features := v\<rparr>) (decMap decBool j (cf_Features x))
      else if k = ''fetched_at'' then scalar (decTime tc) (\<lambda>v. x\<lparr>cf_FetchedAt := v\<rparr>) j x
      else Some x)"

definition decodeCache :: "timeCodec \<Rightarrow> bytes \<Rightarrow> cacheFile option" where
  "decodeCache tc d =
     (case parse d of None \<Rightarrow> None
      | Some j \<Rightarrow> decObject (cacheField tc) \<lparr>cf_Tier = [], cf_Features = None, cf_FetchedAt = zeroTime\<rparr> j)"

text \<open>\<open>json.MarshalIndent\<close> of the cache: the keys of a map are printed in order, a nil map is \<open>null\<close>.\<close>

definition cacheJson :: "timeCodec \<Rightarrow> cacheFile \<Rightarrow> json" where
  "cacheJson tc x =
     JObj [(''tier'', JStr (cf_Tier x)),
           (''features'', case cf_Features x of None \<Rightarrow> JNull
                          | Some m \<Rightarrow> JObj (map (\<lambda>(k, b). (k, JBool b)) (sort_key fst m))),
           (''fetched_at'', JStr (formatTime tc (cf_FetchedAt x)))]"

definition encodeCache :: "timeCodec \<Rightarrow> cacheFile \<Rightarrow> bytes" where
  "encodeCache tc x = MarshalIndent (cacheJson tc x)"

section \<open>The cache file\<close>

definition cachePath :: "path \<Rightarrow> path" where
  "cachePath dir = JoinPath [dir, ''license-cache.json'']"

definition persistFile :: "timeCodec \<Rightarrow> cacheFile \<Rightarrow> path \<Rightarrow> os \<Rightarrow> oserr option \<times> os" where
  "persistFile tc x dir s =
     (case MkdirAll dir mode700 s of (Some e, s1) \<Rightarrow> (Some e, s1)
      | (None, s1) \<Rightarrow>
     (case CreateTemp dir ''.license-cache-'' s1 of (Inl e, s2) \<Rightarrow> (Some e, s2)
      | (Inr t, s2) \<Rightarrow>
     (case Chmod t mode600 s2 of (Some e, s3) \<Rightarrow> (Some e, snd (Remove t s3))
      | (None, s3) \<Rightarrow>
     (case FileWrite t (encodeCache tc x) s3 of (Some e, s4) \<Rightarrow> (Some e, snd (Remove t s4))
      | (None, s4) \<Rightarrow>
     (case FileClose t s4 of Some e \<Rightarrow> (Some e, snd (Remove t s4))
      | None \<Rightarrow>
     (case Rename t (cachePath dir) s4 of (Some e, s5) \<Rightarrow> (Some e, snd (Remove t s5))
      | (None, s5) \<Rightarrow> (None, s5)))))))"

definition persistCache :: "timeCodec \<Rightarrow> Client \<Rightarrow> os \<Rightarrow> oserr option \<times> os" where
  "persistCache tc c s =
     (if cacheDir c = [] then (None, s)
      else persistFile tc \<lparr>cf_Tier = cachedTier c, cf_Features = Some (cachedFeatures c), cf_FetchedAt = cachedAt c\<rparr>
             (cacheDir c) s)"

definition loadCache :: "timeCodec \<Rightarrow> Client \<Rightarrow> os \<Rightarrow> Client" where
  "loadCache tc c s =
     (if cacheDir c = [] then c
      else case ReadFile (cachePath (cacheDir c)) s of Inl e \<Rightarrow> c
           | Inr raw \<Rightarrow>
          (case decodeCache tc raw of None \<Rightarrow> c
           | Some x \<Rightarrow>
               c\<lparr>cachedTier := cf_Tier x,
                 cachedFeatures := (case cf_Features x of None \<Rightarrow> cachedFeatures c | Some m \<Rightarrow> m),
                 cachedAt := cf_FetchedAt x\<rparr>))"

section \<open>The client\<close>

definition NewClient :: "timeCodec \<Rightarrow> Options \<Rightarrow> os \<Rightarrow> Client" where
  "NewClient tc opts s =
     loadCache tc
       \<lparr>licenseKey = op_LicenseKey opts,
        product = (if op_Product opts = [] then ''penguin'' else op_Product opts),
        baseURL = (if op_BaseURL opts = [] then ''https://license.penguintech.io'' else op_BaseURL opts),
        cacheDir = op_CacheDir opts,
        refreshInterval = (if op_RefreshInterval opts = 0 then 5 * minute else op_RefreshInterval opts),
        cachedTier = [], cachedFeatures = [], cachedAt = zeroTime, stopClosed = False\<rparr> s"

definition FeatureEnabled :: "Client \<Rightarrow> string \<Rightarrow> bool" where
  "FeatureEnabled c key =
     (if licenseKey c = [] then False
      else case get (cachedFeatures c) key of Some enabled \<Rightarrow> enabled | None \<Rightarrow> False)"

definition Tier :: "Client \<Rightarrow> string" where
  "Tier c = cachedTier c"

definition fetch :: "timeCodec \<Rightarrow> (HttpRequest \<Rightarrow> httpResult) \<Rightarrow> Client \<Rightarrow> goerr + LicenseInfo" where
  "fetch tc httpDo c =
     (case httpDo \<lparr>rq_Method = ''POST'', rq_URL = baseURL c @ ''/api/v2/validate'',
                   rq_Header = [(''Content-Type'', ''application/json''), (''Authorization'', ''Bearer '' @ licenseKey c)],
                   rq_Body = Marshal (JObj [(''product'', JStr (product c))])\<rparr> of
        BadRequest e \<Rightarrow> Inl (Wrapf ''failed to create request: '' e [])
      | NoResponse e \<Rightarrow> Inl (Wrapf ''license server unreachable: '' e [])
      | Response st (Inl e) \<Rightarrow> Inl (Wrapf ''failed to read response: '' e [])
      | Response st (Inr respBody) \<Rightarrow>
          if st \<noteq> 200 then Inl (Errorf (''license server returned '' @ Itoa st @ '': '' @ respBody))
          else (case decodeInfo tc respBody of
                  None \<Rightarrow> Inl (Wrapf ''failed to parse response: '' (Errorf ''json'') [])
                | Some info \<Rightarrow> Inr info))"

definition updateCache :: "timeCodec \<Rightarrow> LicenseInfo \<Rightarrow> time \<Rightarrow> Client \<Rightarrow> os \<Rightarrow> Client \<times> os" where
  "updateCache tc info now c s =
     (let c' = c\<lparr>cachedTier := li_Tier info,
                 cachedFeatures := fold (\<lambda>f m. put (fe_Name f) (fe_Entitled f) m)
                   (case li_Features info of None \<Rightarrow> [] | Some fs \<Rightarrow> fs) [],
                 cachedAt := now\<rparr>
      in (c', snd (persistCache tc c' s)))"

definition Validate ::
  "timeCodec \<Rightarrow> (HttpRequest \<Rightarrow> httpResult) \<Rightarrow> time \<Rightarrow> Client \<Rightarrow> os \<Rightarrow> goerr option \<times> Client \<times> os" where
  "Validate tc httpDo now c s =
     (if licenseKey c = [] then (None, c\<lparr>cachedTier := [], cachedFeatures := []\<rparr>, s)
      else case fetch tc httpDo c of Inl e \<Rightarrow> (None, c, s)
           | Inr info \<Rightarrow> (None, updateCache tc info now c s))"

text \<open>The refresh goroutine: \<open>Start\<close> validates once and then at each tick, with what the network answers
  at that moment, until the stop channel or the context is closed.\<close>

datatype wake = Tick "HttpRequest \<Rightarrow> httpResult" time | StopSignal | CtxDone

fun refreshLoop :: "timeCodec \<Rightarrow> wake list \<Rightarrow> Client \<Rightarrow> os \<Rightarrow> Client \<times> os" where
  "refreshLoop tc [] c s = (c, s)"
| "refreshLoop tc (Tick httpDo now # ws) c s =
     (case Validate tc httpDo now c s of (_, c', s') \<Rightarrow> refreshLoop tc ws c' s')"
| "refreshLoop tc (StopSignal # ws) c s = (c, s)"
| "refreshLoop tc (CtxDone # ws) c s = (c, s)"

definition Start_refresh ::
  "timeCodec \<Rightarrow> (HttpRequest \<Rightarrow> httpResult) \<Rightarrow> time \<Rightarrow> wake list \<Rightarrow> Client \<Rightarrow> os \<Rightarrow> Client \<times> os" where
  "Start_refresh tc httpDo now ws c s =
     (case Validate tc httpDo now c s of (_, c', s') \<Rightarrow> refreshLoop tc ws c' s')"

text \<open>\<open>Stop\<close> closes the stop channel; closing it twice panics.\<close>

definition Stop_refresh :: "Client \<Rightarrow> string + Client" where
  "Stop_refresh c =
     (if stopClosed c then Inl ''close of closed channel'' else Inr (c\<lparr>stopClosed := True\<rparr>))"


section \<open>The cache file is replaced atomically\<close>

lemma length_cleanStep: "length (cleanStep r c st) \<le> Suc (length st)"
  by (auto simp: cleanStep_def split: list.splits)

lemma cleanStep_empty: "cleanStep r [] st = st"
  by (simp add: cleanStep_def)

lemma length_fold_cleanStep: "length (fold (cleanStep r) cs st) \<le> length st + length (filter (\<lambda>c. c \<noteq> []) cs)"
proof (induction cs arbitrary: st)
  case (Cons c cs)
  show ?case
  proof (cases "c = []")
    case True
    then show ?thesis using Cons.IH [of st] by (simp add: cleanStep_empty)
  next
    case False
    then show ?thesis using Cons.IH [of "cleanStep r c st"] length_cleanStep [of r c st] by simp
  qed
qed simp

lemma length_cleanComps: "length (cleanComps p) \<le> length (filter (\<lambda>c. c \<noteq> []) (Split sep p))"
  using length_fold_cleanStep [of "HasPrefix p ''/''" "Split sep p" "[]"] by (simp add: cleanComps_def)

lemma ancestor_shorter:
  assumes "a \<in> set (ancestors d)"
  shows "length (cleanComps a) \<le> length (cleanComps d)"
proof -
  obtain k where k: "1 \<le> k" "k \<le> length (cleanComps d)"
    and a: "a = Join ''/'' (take k (cleanComps d)) \<or> a = sep # Join ''/'' (take k (cleanComps d))"
    using assms by (auto simp: ancestors_def Let_def split: if_splits)
  let ?cs = "take k (cleanComps d)"
  have sp: "Split sep (Join ''/'' ?cs) = ?cs"
    using k by (intro Split_Join) (auto dest: in_set_takeD cleanComps_plain)
  then have "length (filter (\<lambda>c. c \<noteq> []) (Split sep a)) \<le> k"
    using a k le_trans [OF length_filter_le [of "\<lambda>c. c \<noteq> []" ?cs]] by auto
  then show ?thesis using length_cleanComps [of a] k(2) by linarith
qed

lemma cachePath_comps: "dir \<noteq> [] \<Longrightarrow> cleanComps (cachePath dir) = cleanComps dir @ [''license-cache.json'']"
  unfolding cachePath_def by (rule cleanComps_JoinPath) auto

lemma cache_parents_differ:
  assumes "dir \<noteq> []"
  shows "\<forall>a\<in>set (ancestors dir). Clean (cachePath dir) \<noteq> Clean a"
proof
  fix a assume "a \<in> set (ancestors dir)"
  then have "length (cleanComps a) < length (cleanComps (cachePath dir))"
    using ancestor_shorter [of a dir] cachePath_comps [OF assms] by simp
  then show "Clean (cachePath dir) \<noteq> Clean a" using cleanComps_eqI [of "cachePath dir" a] by auto
qed

lemma cache_temp_differs:
  assumes "dir \<noteq> []"
  shows "Clean (cachePath dir) \<noteq> Clean (tempName dir ''.license-cache-'' n)"
proof
  assume "Clean (cachePath dir) = Clean (tempName dir ''.license-cache-'' n)"
  then have "cleanComps (cachePath dir) = cleanComps (dir @ sep # ''.license-cache-'' @ natDigits n)"
    unfolding tempName_def by (rule cleanComps_eqI)
  also have "\<dots> = cleanComps dir @ [''.license-cache-'' @ natDigits n]"
    using assms by (intro cleanComps_child) (auto simp: natDigits_plain)
  finally show False using cachePath_comps [OF assms] by simp
qed

lemma persist_steps:
  assumes p: "dir \<noteq> []" and "persistFile tc x dir s = (r, s')"
  shows "case r of Some e \<Rightarrow> untouched (cachePath dir) s s' | None \<Rightarrow> replaced (cachePath dir) (encodeCache tc x) s s'"
proof -
  let ?p = "cachePath dir"
  obtain r1 s1 where 1: "MkdirAll dir mode700 s = (r1, s1)" by fastforce
  obtain r2 s2 where 2: "CreateTemp dir ''.license-cache-'' s1 = (r2, s2)" by fastforce
  note steps = temp_steps [OF cache_parents_differ [OF p] allI [OF cache_temp_differs [OF p]] 1 2]
  show ?thesis
  proof (cases r2)
    case (Inl e)
    then show ?thesis using assms(2) [symmetric] 1 2 steps(1,2)
      by (cases r1) (simp_all add: persistFile_def)
  next
    case (Inr t)
    obtain r3 s3 where 3: "Chmod t mode600 s2 = (r3, s3)" by fastforce
    obtain r4 s4 where 4: "FileWrite t (encodeCache tc x) s3 = (r4, s4)" by fastforce
    obtain r5 s5 where 5: "Rename t ?p s4 = (r5, s5)" by fastforce
    obtain cl where cl: "FileClose t s4 = cl" by blast
    note u3 = steps(3) [OF Inr 3] and u4 = steps(4) [OF Inr 3 4]
    have uid: "getuid s1 = getuid s" using steps(1) by (simp add: untouched_def)
    have fin: "replaced ?p (encodeCache tc x) s s5" if "r3 = None" "r4 = None" "r5 = None"
    proof (rule replaced_by_rename [OF conjunct1 [OF u4]])
      show "node_at s4 t = Some (File (encodeCache tc x) mode600 (getuid s))"
        using temp_written [of dir "''.license-cache-''" s1 t s2 s3 "encodeCache tc x" s4] 2 3 4 Inr that(1,2) uid
        by simp
    qed (use 5 that in simp)
    have "s5 = s4" if "r5 = Some e" for e using 5 that Rename_failed by auto
    then show ?thesis
      using assms(2) [symmetric] 1 2 3 4 5 Inr steps(1) u3 u4 fin cl
      by (cases r1; cases r3; cases r4; cases cl; cases r5) (simp_all add: persistFile_def)
  qed
qed

section \<open>The cache file is read back\<close>

definition codecOk :: "timeCodec \<Rightarrow> time \<Rightarrow> bool" where
  "codecOk tc t \<longleftrightarrow> ascii (formatTime tc t) \<and> parseTime tc (formatTime tc t) = Some t"

definition cacheOk :: "timeCodec \<Rightarrow> cacheFile \<Rightarrow> bool" where
  "cacheOk tc x \<longleftrightarrow>
     ascii (cf_Tier x) \<and> codecOk tc (cf_FetchedAt x) \<and>
     (case cf_Features x of None \<Rightarrow> True | Some m \<Rightarrow> wf_map m \<and> list_all (\<lambda>(k, b). ascii k) m)"

definition sortedCache :: "cacheFile \<Rightarrow> cacheFile" where
  "sortedCache x = x\<lparr>cf_Features := map_option (sort_key fst) (cf_Features x)\<rparr>"

lemma distinct_sort_key: "wf_map m \<Longrightarrow> distinct (keys (sort_key fst m))"
  by (metis wf_map_def distinct_map distinct_sort set_sort)

lemma decode_encode_cache:
  assumes "cacheOk tc x"
  shows "decodeCache tc (encodeCache tc x) = Some (sortedCache x)"
proof -
  have "plain (cacheJson tc x)"
    using assms by (auto simp: cacheOk_def codecOk_def cacheJson_def ascii_def list_all_iff split: option.splits)
  then have p: "parse (encodeCache tc x) = Some (cacheJson tc x)" by (simp add: encodeCache_def parse_print(2))
  have m: "decMembers decBool (map (\<lambda>(k, b). (k, JBool b)) (sort_key fst m)) [] = Some (sort_key fst m)"
    if "cf_Features x = Some m" for m
    using decMembers_encoded [of "[]" "sort_key fst m" decBool JBool] distinct_sort_key [of m] assms that
    by (simp add: cacheOk_def decBool_def)
  have low: "ToLower ''tier'' = ''tier''" "ToLower ''features'' = ''features''" "ToLower ''fetched_at'' = ''fetched_at''"
    by (simp_all add: ToLower_def lowerByte_def Let_def)
  have "decodeCache tc (encodeCache tc x) =
      decObject (cacheField tc) \<lparr>cf_Tier = [], cf_Features = None, cf_FetchedAt = zeroTime\<rparr> (cacheJson tc x)"
    by (simp add: decodeCache_def p)
  then show ?thesis
    using assms m
    by (cases "cf_Features x")
      (auto simp: cacheJson_def decObject_def low cacheField_def scalar_def decString_def
        decTime_def decMap_def cacheOk_def codecOk_def sortedCache_def)
qed

interpretation cached: durable_file "persistFile tc" "encodeCache tc" cachePath "\<lambda>dir. dir \<noteq> []"
  "decodeCache tc" sortedCache "cacheOk tc" for tc
  using persist_steps decode_encode_cache by unfold_locales fastforce+


section \<open>Properties\<close>

definition unreachable :: "wake \<Rightarrow> bool" where
  "unreachable w \<longleftrightarrow> (case w of Tick httpDo now \<Rightarrow> \<forall>rq b. httpDo rq \<noteq> Response 200 (Inr b) | _ \<Rightarrow> True)"

lemma fetch_unreachable: "\<forall>rq b. httpDo rq \<noteq> Response 200 (Inr b) \<Longrightarrow> \<exists>e. fetch tc httpDo c = Inl e"
  by (auto simp: fetch_def split: httpResult.splits sum.splits)

lemma refreshLoop_unreachable:
  "list_all unreachable ws \<Longrightarrow> licenseKey c \<noteq> [] \<Longrightarrow> refreshLoop tc ws c s = (c, s)"
proof (induction ws)
  case (Cons w ws)
  show ?case
  proof (cases w)
    case (Tick httpDo now)
    then have "\<forall>rq b. httpDo rq \<noteq> Response 200 (Inr b)" using Cons.prems(1) by (simp add: unreachable_def)
    from fetch_unreachable [OF this] obtain e where "fetch tc httpDo c = Inl e" by blast
    then show ?thesis using Cons Tick by (simp add: Validate_def)
  qed simp_all
qed simp

text \<open>Validation decides entitlements as the server's last word has them. \<open>Validate\<close> never reports an
  error. Without a licence key every feature is off. When the server does not answer properly nothing
  changes, in memory or on disk. When it answers, a feature is on exactly when the last entry of that
  name in the answer is entitled and the tier is the one of the answer: the fields that say whether the
  licence is valid and when it expires have no influence.\<close>

theorem validate_effect:
  assumes "Validate tc httpDo now c s = (r, c', s')"
  shows "r = None \<and>
    (licenseKey c = [] \<longrightarrow> (\<forall>k. \<not> FeatureEnabled c' k) \<and> Tier c' = [] \<and> s' = s) \<and>
    (\<forall>e. licenseKey c \<noteq> [] \<and> fetch tc httpDo c = Inl e \<longrightarrow> c' = c \<and> s' = s) \<and>
    (\<forall>info. licenseKey c \<noteq> [] \<and> fetch tc httpDo c = Inr info \<longrightarrow>
       Tier c' = li_Tier info \<and>
       (\<forall>k. FeatureEnabled c' k \<longleftrightarrow>
          (\<exists>f. List.find (\<lambda>f. fe_Name f = k) (rev (case li_Features info of None \<Rightarrow> [] | Some fs \<Rightarrow> fs)) = Some f \<and>
               fe_Entitled f)))"
proof (cases "licenseKey c = []")
  case True
  then show ?thesis using assms by (auto simp: Validate_def FeatureEnabled_def Tier_def)
next
  case False
  show ?thesis
  proof (cases "fetch tc httpDo c")
    case (Inl e)
    then show ?thesis using assms False by (auto simp: Validate_def)
  next
    case (Inr info)
    then show ?thesis using assms False
      by (auto simp: Validate_def updateCache_def Let_def FeatureEnabled_def Tier_def get_fold_put split: option.splits)
  qed
qed

theorem validate_effect_witness:
  "fst (snd (Validate \<lparr>formatTime = Itoa, parseTime = Atoi\<rparr> (\<lambda>_. NoResponse (Errorf ''no route to host'')) 5
       \<lparr>licenseKey = ''K'', product = ''penguin'', baseURL = ''https://l'', cacheDir = [], refreshInterval = minute,
        cachedTier = ''pro'', cachedFeatures = [(''vpn'', True)], cachedAt = 3, stopClosed = False\<rparr> emptyOs)) =
     \<lparr>licenseKey = ''K'', product = ''penguin'', baseURL = ''https://l'', cacheDir = [], refreshInterval = minute,
        cachedTier = ''pro'', cachedFeatures = [(''vpn'', True)], cachedAt = 3, stopClosed = False\<rparr>"
proof -
  let ?tc = "\<lparr>formatTime = Itoa, parseTime = Atoi\<rparr>"
  let ?h = "\<lambda>_. NoResponse (Errorf ''no route to host'')"
  let ?c = "\<lparr>licenseKey = ''K'', product = ''penguin'', baseURL = ''https://l'', cacheDir = [], refreshInterval = minute,
        cachedTier = ''pro'', cachedFeatures = [(''vpn'', True)], cachedAt = 3, stopClosed = False\<rparr>"
  have "fetch ?tc ?h ?c = Inl (Wrapf ''license server unreachable: '' (Errorf ''no route to host'') [])"
    by (simp add: fetch_def)
  moreover have "Validate ?tc ?h 5 ?c emptyOs = (fst (Validate ?tc ?h 5 ?c emptyOs),
      fst (snd (Validate ?tc ?h 5 ?c emptyOs)), snd (snd (Validate ?tc ?h 5 ?c emptyOs)))"
    by (simp only: prod.collapse)
  from validate_effect [OF this] calculation show ?thesis by (simp only: Client.select_convs) blast
qed

text \<open>C18: Entitlements survive a restart without the server. Once the cache has been written, a client
  created from it with the same key and cache directory, in an environment where every refresh fails,
  shows the same tier and enables the same features as the one that wrote it, for ASCII names and an
  instant that its text form gives back.\<close>

theorem entitlements_survive_restart:
  assumes "persistCache tc c s = (None, s')" and "cacheDir c \<noteq> []" and "licenseKey c \<noteq> []"
    and "cacheOk tc \<lparr>cf_Tier = cachedTier c, cf_Features = Some (cachedFeatures c), cf_FetchedAt = cachedAt c\<rparr>"
    and "faults s (OpReadFile (cachePath (cacheDir c))) = None"
    and "op_CacheDir opts = cacheDir c" and "op_LicenseKey opts = licenseKey c"
    and "list_all unreachable ws"
    and "refreshLoop tc ws (NewClient tc opts s') s' = (c', s'')"
  shows "Tier c' = Tier c \<and> (\<forall>k. FeatureEnabled c' k = FeatureEnabled c k) \<and> s'' = s'"
proof -
  let ?x = "\<lparr>cf_Tier = cachedTier c, cf_Features = Some (cachedFeatures c), cf_FetchedAt = cachedAt c\<rparr>"
  have p: "persistFile tc ?x (cacheDir c) s = (None, s')" using assms(1,2) by (simp add: persistCache_def)
  obtain d where d: "ReadFile (cachePath (cacheDir c)) s' = Inr d" "decodeCache tc d = Some (sortedCache ?x)"
    using cached.load_after_write [OF assms(2,4) p assms(5)] by blast
  let ?n = "NewClient tc opts s'"
  have n: "licenseKey ?n = licenseKey c" "cachedTier ?n = cachedTier c"
      "cachedFeatures ?n = sort_key fst (cachedFeatures c)"
    using d assms(2,6,7) by (simp_all add: NewClient_def loadCache_def sortedCache_def)
  have "distinct (keys (sort_key fst (cachedFeatures c)))"
    using assms(4) distinct_sort_key by (auto simp: cacheOk_def)
  then have g: "get (sort_key fst (cachedFeatures c)) k = get (cachedFeatures c) k" for k
    using assms(4) by (intro map_of_eqI [THEN fun_cong]) (auto simp: cacheOk_def wf_map_def)
  have "c' = ?n" "s'' = s'" using refreshLoop_unreachable [OF assms(8), of ?n] assms(3,9) n(1) by auto
  then show ?thesis using n g by (simp add: Tier_def FeatureEnabled_def)
qed

definition proClient :: Client where
  "proClient = \<lparr>licenseKey = ''K'', product = ''penguin'', baseURL = ''https://l'', cacheDir = ''/v'', refreshInterval = minute,
     cachedTier = ''pro'', cachedFeatures = [(''vpn'', True), (''dns'', False)], cachedAt = 3, stopClosed = False\<rparr>"

abbreviation decimalTimes :: timeCodec where
  "decimalTimes \<equiv> \<lparr>formatTime = Itoa, parseTime = Atoi\<rparr>"

lemma persist_dirOs: "\<exists>s'. persistFile tc x ''/v'' dirOs = (None, s')"
proof -
  note ev = emptyOs_def cleanComps_def cleanStep_def ancestors_def Clean_def upt_rec isDirectory_def isFile_def
    node_at_def dirOs_def tempName_def natDigits.simps
  have d: "isDirectory dirOs ''/v''" "tempSeed dirOs = 0" "getuid dirOs = 0"
      "list_all (\<lambda>a. isDirectory dirOs a \<and> \<not> isFile dirOs a) (ancestors ''/v'')" "faults dirOs c = None" for c
    by (simp_all add: ev)
  let ?t = "''/v/.license-cache-0''"
  have t0: "tempName ''/v'' ''.license-cache-'' 0 = ?t" by code_simp
  have c: "Clean ?t = ?t" "Clean ''/v'' = ''/v''" "Clean ''/v/license-cache.json'' = ''/v/license-cache.json''"
      "cachePath ''/v'' = ''/v/license-cache.json''" "Dir ''/v/license-cache.json'' = ''/v''"
    by (simp_all add: Clean_def cleanComps_def cleanStep_def cachePath_def JoinPath_def Dir_def)
  have n: "node_at dirOs ?t = None" "node_at dirOs ''/v/license-cache.json'' = None"
      "node_at dirOs ''/v'' = Some (Directory mode700 0)"
    by (simp_all add: node_at_def c) (simp_all add: dirOs_def)
  have t: "CreateTemp ''/v'' ''.license-cache-'' dirOs = (Inr ?t, set_node ?t (File [] mode600 0) dirOs)"
    by (simp add: CreateTemp_def d find_upt_first t0 n)
  show ?thesis
    by (simp add: persistFile_def mkdir_exists [OF d(4,5)] t Chmod_def FileWrite_def FileClose_def d(5) Rename_def
        isDirectory_def c n)
qed

theorem entitlements_survive_restart_witness:
  "Tier (fst (refreshLoop decimalTimes [Tick (\<lambda>_. NoResponse (Errorf ''no route to host'')) 9, StopSignal]
     (NewClient decimalTimes \<lparr>op_LicenseKey = ''K'', op_Product = [], op_BaseURL = [], op_CacheDir = ''/v'', op_RefreshInterval = 0\<rparr>
       (snd (persistCache decimalTimes proClient dirOs))) (snd (persistCache decimalTimes proClient dirOs)))) = ''pro''"
proof -
  let ?s = "snd (persistCache decimalTimes proClient dirOs)"
  have p: "persistCache decimalTimes proClient dirOs = (None, ?s)"
    using persist_dirOs [of decimalTimes "\<lparr>cf_Tier = cachedTier proClient, cf_Features = Some (cachedFeatures proClient), cf_FetchedAt = cachedAt proClient\<rparr>"]
    by (auto simp: persistCache_def proClient_def)
  have "cacheOk decimalTimes \<lparr>cf_Tier = cachedTier proClient, cf_Features = Some (cachedFeatures proClient), cf_FetchedAt = cachedAt proClient\<rparr>"
    by (simp add: cacheOk_def codecOk_def proClient_def ascii_def wf_map_def Atoi_Itoa)
      (simp add: Itoa_def natDigits.simps)
  from entitlements_survive_restart [OF p _ _ this _ _ _ _ surjective_pairing,
      of "\<lparr>op_LicenseKey = ''K'', op_Product = [], op_BaseURL = [], op_CacheDir = ''/v'', op_RefreshInterval = 0\<rparr>"
         "[Tick (\<lambda>_. NoResponse (Errorf ''no route to host'')) 9, StopSignal]"]
  show ?thesis by (simp add: proClient_def dirOs_def emptyOs_def unreachable_def Tier_def)
qed

text \<open>The cache file is replaced atomically. During a validation every directory state shows at the
  cache path what was there before or the complete encoding of the client's new state, readable by the
  owner only.\<close>

theorem cache_atomic:
  assumes "Validate tc httpDo now c s = (r, c', s')" and "cacheDir c \<noteq> []"
  shows "\<exists>ts. trace s' = trace s @ ts \<and>
    (\<forall>t \<in> set ts. get t (Clean (cachePath (cacheDir c))) = node_at s (cachePath (cacheDir c)) \<or>
       get t (Clean (cachePath (cacheDir c))) =
         Some (File (encodeCache tc \<lparr>cf_Tier = Tier c', cf_Features = Some (cachedFeatures c'), cf_FetchedAt = now\<rparr>)
                 mode600 (getuid s)))"
proof (cases "s' = s")
  case False
  then obtain info where f: "updateCache tc info now c s = (c', s')"
    using assms(1) by (auto simp: Validate_def split: if_splits sum.splits)
  let ?x = "\<lparr>cf_Tier = Tier c', cf_Features = Some (cachedFeatures c'), cf_FetchedAt = now\<rparr>"
  have "s' = snd (persistFile tc ?x (cacheDir c) s)"
    using f assms(2) by (auto simp: updateCache_def persistCache_def Tier_def Let_def)
  then obtain r where "persistFile tc ?x (cacheDir c) s = (r, s')" by (metis prod.collapse)
  from cached.crash_safe [OF assms(2) this] show ?thesis by blast
qed simp

theorem cache_atomic_witness:
  "\<exists>ts. trace (snd (snd (Validate decimalTimes (\<lambda>_. Response 200 (Inr ''{}'')) 7 proClient dirOs))) = trace dirOs @ ts"
proof -
  obtain r c' s' where v: "Validate decimalTimes (\<lambda>_. Response 200 (Inr ''{}'')) 7 proClient dirOs = (r, c', s')"
    using prod_cases3 by blast
  have "cacheDir proClient \<noteq> []" by (simp add: proClient_def)
  from cache_atomic [OF v this] show ?thesis unfolding v by auto
qed

end
