(* ===== verification/Update.thy ===== *)
theory Update
  imports Http Os_Model "HOL-Library.Product_Lexorder"
begin

text \<open>
  The self-updater (\<open>internal/update/updater.go\<close>): it finds the latest release, downloads its archive and
  signature, verifies the signature, takes the binary out of the archive and installs it. Parameters are
  the network, the minisign library, the reader of compressed archives and the installer of
  \<open>minio/selfupdate\<close>. Version numbers are Go ints, 64-bit words compared as signed numbers.
\<close>

section \<open>Types\<close>

record Asset =
  as_Name :: string
  as_DownloadURL :: string

record Release =
  re_TagName :: string
  re_Assets :: "Asset list"

record UpdateConfig =
  uc_CurrentVersion :: string
  uc_Repo :: string
  uc_PublicKey :: string
  uc_TargetPath :: path

record Updater =
  currentVersion :: string
  repo :: string
  publicKey :: string
  targetPath :: path
  upBaseURL :: string

text \<open>An entry of an archive. \<open>te_Data\<close> is what reading it to its end gives.\<close>

record TarEntry =
  te_Regular :: bool
  te_Name :: string
  te_Data :: "goerr + bytes"

text \<open>\<open>mk_Parse\<close> and \<open>mk_Verify\<close> are \<open>minisign.PublicKey.UnmarshalText\<close> and \<open>minisign.Verify\<close>; \<open>untar\<close> opens a
  compressed archive, giving its entries and the error that cuts them short, \<open>None\<close> for a regular end;
  \<open>install\<close> is \<open>selfupdate.Apply\<close>.\<close>

record 'k updateLib =
  mk_Parse :: "bytes \<Rightarrow> goerr + 'k"
  mk_Verify :: "'k \<Rightarrow> bytes \<Rightarrow> bytes \<Rightarrow> bool"
  untar :: "bytes \<Rightarrow> goerr + TarEntry list \<times> goerr option"
  install :: "path \<Rightarrow> bytes \<Rightarrow> os \<Rightarrow> goerr option \<times> os"

section \<open>Checking for a release\<close>

text \<open>\<open>New\<close>; \<open>executable\<close> is what \<open>os.Executable\<close> returns.\<close>

definition NewUpdater :: "goerr + path \<Rightarrow> UpdateConfig \<Rightarrow> goerr + Updater" where
  "NewUpdater executable cfg =
     (case (if uc_TargetPath cfg = [] then executable else Inr (uc_TargetPath cfg)) of
        Inl e \<Rightarrow> Inl (Wrapf ''failed to determine executable path: '' e [])
      | Inr target \<Rightarrow>
          Inr \<lparr>currentVersion = uc_CurrentVersion cfg, repo = uc_Repo cfg, publicKey = uc_PublicKey cfg,
               targetPath = target, upBaseURL = ''https://api.github.com''\<rparr>)"

definition assetField :: "string \<Rightarrow> json \<Rightarrow> Asset \<Rightarrow> Asset option" where
  "assetField k j x =
     (if k = ''name'' then scalar decString (\<lambda>v. x\<lparr>as_Name := v\<rparr>) j x
      else if k = ''browser_download_url'' then scalar decString (\<lambda>v. x\<lparr>as_DownloadURL := v\<rparr>) j x
      else Some x)"

definition decAssets :: "json \<Rightarrow> Asset list option" where
  "decAssets j =
     (case j of JNull \<Rightarrow> Some []
      | JArr js \<Rightarrow> decSlice (decObject assetField \<lparr>as_Name = [], as_DownloadURL = []\<rparr>) js
      | _ \<Rightarrow> None)"

definition releaseField :: "string \<Rightarrow> json \<Rightarrow> Release \<Rightarrow> Release option" where
  "releaseField k j x =
     (if k = ''tag_name'' then scalar decString (\<lambda>v. x\<lparr>re_TagName := v\<rparr>) j x
      else if k = ''assets'' then map_option (\<lambda>v. x\<lparr>re_Assets := v\<rparr>) (decAssets j)
      else Some x)"

definition getGOOS :: string where "getGOOS = ''linux''"

definition getGOARCH :: string where "getGOARCH = ''amd64''"

definition compatible :: "Asset \<Rightarrow> bool" where
  "compatible a \<longleftrightarrow>
     Contains (as_Name a) getGOOS \<and> Contains (as_Name a) getGOARCH \<and> HasSuffix (as_Name a) ''.tar.gz''"

definition plainGet :: "string \<Rightarrow> HttpRequest" where
  "plainGet url = \<lparr>rq_Method = ''GET'', rq_URL = url, rq_Header = [], rq_Body = []\<rparr>"

definition Check :: "(HttpRequest \<Rightarrow> httpResult) \<Rightarrow> Updater \<Rightarrow> goerr + Release" where
  "Check httpDo u =
     (case httpDo (plainGet (upBaseURL u @ ''/repos/'' @ repo u @ ''/releases/latest'')) of
        BadRequest e \<Rightarrow> Inl (Wrapf ''failed to create request: '' e [])
      | NoResponse e \<Rightarrow> Inl (Wrapf ''failed to fetch latest release: '' e [])
      | Response st body \<Rightarrow>
          if st \<noteq> 200 then Inl (Errorf (''GitHub API returned '' @ Itoa st))
          else case decodeBody (decObject releaseField \<lparr>re_TagName = [], re_Assets = []\<rparr>) body of
                 Inl e \<Rightarrow> Inl (Wrapf ''failed to parse release: '' e [])
               | Inr gh \<Rightarrow>
                   let assets = filter compatible (re_Assets gh)
                   in if assets = [] then
                        Inl (Errorf (''no compatible asset found for '' @ getGOOS @ ''/'' @ getGOARCH))
                      else Inr \<lparr>re_TagName = re_TagName gh, re_Assets = assets\<rparr>)"

section \<open>Applying a release\<close>

definition download :: "(HttpRequest \<Rightarrow> httpResult) \<Rightarrow> string \<Rightarrow> goerr + bytes" where
  "download httpDo url =
     (case httpDo (plainGet url) of
        BadRequest e \<Rightarrow> Inl e
      | NoResponse e \<Rightarrow> Inl e
      | Response st body \<Rightarrow>
          if st \<noteq> 200 then Inl (Errorf (''download failed with status '' @ Itoa st)) else body)"

definition wordChar :: "char \<Rightarrow> bool" where
  "wordChar c \<longleftrightarrow>
     isDigit c \<or> c = CHR ''_'' \<or>
     (let n = of_char c :: nat in 65 \<le> n \<and> n \<le> 90 \<or> 97 \<le> n \<and> n \<le> 122)"

definition isBinaryName :: "string \<Rightarrow> bool" where
  "isBinaryName name =
     (let base = Base name
      in base = ''penguin'' \<or> base = ''penguin.exe'' \<or> HasPrefix base ''penguin_'' \<or>
         (HasPrefix base ''penguin'' \<and> list_all wordChar (drop 7 base)))"

fun scanEntries :: "TarEntry list \<Rightarrow> goerr option \<Rightarrow> goerr + bytes" where
  "scanEntries [] None = Inl (Errorf ''no binary found in archive'')"
| "scanEntries [] (Some e) = Inl (Wrapf ''tar read error: '' e [])"
| "scanEntries (h # hs) err =
     (if te_Regular h \<and> isBinaryName (te_Name h) then te_Data h else scanEntries hs err)"

definition extractBinary :: "'k updateLib \<Rightarrow> bytes \<Rightarrow> goerr + bytes" where
  "extractBinary lib data =
     (case untar lib data of
        Inl e \<Rightarrow> Inl (Wrapf ''failed to decompress: '' e [])
      | Inr (entries, err) \<Rightarrow> scanEntries entries err)"

definition Apply :: "'k updateLib \<Rightarrow> (HttpRequest \<Rightarrow> httpResult) \<Rightarrow> Updater \<Rightarrow> Release \<Rightarrow> os \<Rightarrow> goerr option \<times> os" where
  "Apply lib httpDo u rel s =
     (case re_Assets rel of [] \<Rightarrow> (Some (Errorf ''no assets in release''), s)
      | asset # _ \<Rightarrow>
     (case download httpDo (as_DownloadURL asset) of
        Inl e \<Rightarrow> (Some (Wrapf ''failed to download binary: '' e []), s)
      | Inr binData \<Rightarrow>
     (case download httpDo (as_DownloadURL asset @ ''.minisig'') of
        Inl e \<Rightarrow> (Some (Wrapf ''failed to download signature: '' e []), s)
      | Inr sigData \<Rightarrow>
     (case mk_Parse lib (TrimSpace (publicKey u)) of
        Inl e \<Rightarrow> (Some (Wrapf ''invalid public key: '' e []), s)
      | Inr pubKey \<Rightarrow>
          if \<not> mk_Verify lib pubKey binData sigData then
            (Some (Errorf ''signature verification failed: binary may be tampered''), s)
          else
     (case extractBinary lib binData of
        Inl e \<Rightarrow> (Some (Wrapf ''failed to extract binary: '' e []), s)
      | Inr newBinary \<Rightarrow>
     (case install lib (targetPath u) newBinary s of
        (Some e, s') \<Rightarrow> (Some (Wrapf ''failed to apply update: '' e []), s')
      | (None, s') \<Rightarrow> (None, s')))))))"

section \<open>Versions\<close>

definition leadingNumber :: "string \<Rightarrow> 64 word" where
  "leadingNumber part =
     foldl (\<lambda>r ch. r * 10 + of_nat (of_char ch - 48)) 0 (takeWhile isDigit part)"

definition parseVersion :: "string \<Rightarrow> (64 word) list" where
  "parseVersion v =
     (let parts = Split (CHR ''.'') (TrimPrefix v ''v'')
      in map (\<lambda>i. if i < length parts then leadingNumber (parts ! i) else 0) [0..<3])"

fun compareParts :: "(64 word) list \<Rightarrow> (64 word) list \<Rightarrow> int" where
  "compareParts (a # as) (b # bs) =
     (if sint a < sint b then -1 else if sint b < sint a then 1 else compareParts as bs)"
| "compareParts [] [] = 0"
| "compareParts [] (b # bs) = -1"
| "compareParts (a # as) [] = 1"

definition CompareVersions :: "string \<Rightarrow> string \<Rightarrow> int" where
  "CompareVersions v1 v2 = compareParts (parseVersion v1) (parseVersion v2)"


section \<open>Laws of the comparison\<close>

lemma compareParts_sym: "compareParts as bs = - compareParts bs as"
  by (induction as bs rule: compareParts.induct) auto

lemma compareParts_le:
  "compareParts (a # as) (b # bs) \<le> 0 \<longleftrightarrow> sint a < sint b \<or> sint a = sint b \<and> compareParts as bs \<le> 0"
  by auto

lemma compareParts_trans:
  "length as = length bs \<Longrightarrow> length bs = length cs \<Longrightarrow>
   compareParts as bs \<le> 0 \<Longrightarrow> compareParts bs cs \<le> 0 \<Longrightarrow> compareParts as cs \<le> 0"
proof (induction as bs cs rule: list_induct3)
  case (Cons a as b bs c cs)
  from Cons.prems [unfolded compareParts_le] Cons.IH
  have "sint a < sint c \<or> sint a = sint c \<and> compareParts as cs \<le> 0" by linarith
  then show ?case unfolding compareParts_le .
qed simp

lemma length_parseVersion [simp]: "length (parseVersion v) = 3"
  by (simp add: parseVersion_def Let_def)

lemma leadingNumber_digits:
  assumes "rest = [] \<or> \<not> isDigit (hd rest)"
  shows "leadingNumber (natDigits n @ rest) = of_nat n"
proof -
  have d: "list_all isDigit (natDigits n)" by (rule natDigits_digits)
  then have "takeWhile isDigit (natDigits n @ rest) = natDigits n"
    using assms by (cases rest) (auto simp: list_all_iff takeWhile_append2)
  moreover have "foldl (\<lambda>r ch. r * 10 + of_nat (of_char ch - 48)) (of_nat k :: 64 word) ds =
      of_nat (foldl (\<lambda>m c. 10 * m + digitVal c) k ds)" for ds k
  proof (induction ds arbitrary: k)
    case (Cons d ds)
    have "of_nat k * 10 + of_nat (of_char d - 48) = (of_nat (10 * k + digitVal d) :: 64 word)"
      by (simp add: digitVal_def)
    then show ?case using Cons.IH [of "10 * k + digitVal d"] by (simp only: foldl_Cons)
  qed simp
  from this [of 0] have "foldl (\<lambda>r ch. r * 10 + of_nat (of_char ch - 48)) (0 :: 64 word) (natDigits n) = of_nat n"
    using digitsVal_natDigits [of n] by (simp add: digitsVal_def)
  ultimately show ?thesis by (simp add: leadingNumber_def)
qed

text \<open>The text of a version with three numbers and a suffix, such as a pre-release tag.\<close>

definition versionText :: "nat \<Rightarrow> nat \<Rightarrow> nat \<Rightarrow> string \<Rightarrow> string" where
  "versionText a b c suffix = ''v'' @ natDigits a @ ''.'' @ natDigits b @ ''.'' @ natDigits c @ suffix"

lemma dot_natDigits: "CHR ''.'' \<notin> set (natDigits n)"
  using natDigits_digits [of n] by (auto simp: list_all_iff isDigit_def)

lemma Split_hd: "\<exists>r ss. Split c (x @ s) = (x @ r) # ss \<and> (r = [] \<or> s \<noteq> [] \<and> hd r = hd s)" if "c \<notin> set x"
proof (cases "c \<in> set s")
  case True
  then obtain p q where "s = p @ c # q" "c \<notin> set p" by (meson split_list_first)
  then have "Split c (x @ s) = (x @ p) # Split c q"
    using that Split_append_sep [of c "x @ p" q] by (simp add: Split_single)
  then show ?thesis using \<open>s = p @ c # q\<close> by (cases p) auto
next
  case False
  then show ?thesis using that Split_single [of c "x @ s"] by auto
qed

lemma parseVersion_text:
  assumes "suffix = [] \<or> \<not> isDigit (hd suffix)"
  shows "parseVersion (versionText a b c suffix) = [of_nat a, of_nat b, of_nat c]"
proof -
  obtain r ss where r: "Split (CHR ''.'') (natDigits c @ suffix) = (natDigits c @ r) # ss" "r = [] \<or> suffix \<noteq> [] \<and> hd r = hd suffix"
    using Split_hd [OF dot_natDigits] by blast
  have "r = [] \<or> \<not> isDigit (hd r)" using r(2) assms by auto
  note nums = leadingNumber_digits [of "[]" a] leadingNumber_digits [of "[]" b] leadingNumber_digits [OF this, of c]
  have "Split (CHR ''.'') (natDigits a @ CHR ''.'' # natDigits b @ CHR ''.'' # natDigits c @ suffix) =
      natDigits a # natDigits b # (natDigits c @ r) # ss"
    by (simp add: Split_append_sep Split_single dot_natDigits r(1))
  then have "Split (CHR ''.'') (TrimPrefix (versionText a b c suffix) ''v'') =
      natDigits a # natDigits b # (natDigits c @ r) # ss"
    by (simp add: versionText_def TrimPrefix_def)
  then show ?thesis using nums by (simp add: parseVersion_def upt_rec)
qed

section \<open>Properties\<close>

lemma scanEntries_Inr:
  "scanEntries es err = Inr d \<Longrightarrow>
   \<exists>pre h post. es = pre @ h # post \<and> te_Regular h \<and> isBinaryName (te_Name h) \<and> te_Data h = Inr d \<and>
     (\<forall>x \<in> set pre. \<not> (te_Regular x \<and> isBinaryName (te_Name x)))"
proof (induction es err rule: scanEntries.induct)
  case (3 h hs err)
  show ?case
  proof (cases "te_Regular h \<and> isBinaryName (te_Name h)")
    case True
    with 3 show ?thesis by (intro exI [of _ "[]"]) auto
  next
    case False
    with 3 obtain pre h' post where "hs = pre @ h' # post" "te_Regular h'" "isBinaryName (te_Name h')" "te_Data h' = Inr d"
      "\<forall>x \<in> set pre. \<not> (te_Regular x \<and> isBinaryName (te_Name x))" by auto
    with False show ?thesis by (intro exI [of _ "h # pre"] exI [of _ h'] exI [of _ post]) auto
  qed
qed simp_all

text \<open>C12: Only a signed binary is installed. If \<open>Apply\<close> succeeds or leaves the system in any other state than
  it found it in, then the archive of the release's first asset was downloaded, its signature verifies
  under the configured key, and what went to the installer, for the configured target, is the first
  regular entry of that archive that has the name of the program.\<close>

theorem update_verified:
  assumes "Apply lib httpDo u rel s = (r, s')" and "r = None \<or> s' \<noteq> s"
  shows "\<exists>asset rest archive sig key entries err pre h post new.
    re_Assets rel = asset # rest \<and>
    download httpDo (as_DownloadURL asset) = Inr archive \<and>
    download httpDo (as_DownloadURL asset @ ''.minisig'') = Inr sig \<and>
    mk_Parse lib (TrimSpace (publicKey u)) = Inr key \<and> mk_Verify lib key archive sig \<and>
    untar lib archive = Inr (entries, err) \<and> entries = pre @ h # post \<and>
    te_Regular h \<and> isBinaryName (te_Name h) \<and> te_Data h = Inr new \<and>
    (\<forall>x \<in> set pre. \<not> (te_Regular x \<and> isBinaryName (te_Name x))) \<and>
    snd (install lib (targetPath u) new s) = s' \<and> (r = None \<longrightarrow> fst (install lib (targetPath u) new s) = None)"
proof -
  obtain asset rest archive sig key new where
      a: "re_Assets rel = asset # rest" "download httpDo (as_DownloadURL asset) = Inr archive"
         "download httpDo (as_DownloadURL asset @ ''.minisig'') = Inr sig"
         "mk_Parse lib (TrimSpace (publicKey u)) = Inr key" "mk_Verify lib key archive sig"
    and e: "extractBinary lib archive = Inr new"
    and i: "snd (install lib (targetPath u) new s) = s'" "r = None \<longrightarrow> fst (install lib (targetPath u) new s) = None"
    using assms by (auto simp: Apply_def split: list.splits sum.splits if_splits prod.splits option.splits)
  obtain entries err where t: "untar lib archive = Inr (entries, err)" "scanEntries entries err = Inr new"
    using e by (auto simp: extractBinary_def split: sum.splits prod.splits)
  from scanEntries_Inr [OF t(2)] a t(1) i show ?thesis by blast
qed

text \<open>Versions are ordered by their three numbers. On any two texts the comparison is antisymmetric and
  transitive. On texts of the usual form it is the lexicographic order of major, minor and patch number,
  as long as these fit 63 bits; a suffix, a pre-release tag included, does not count.\<close>

theorem versions_ordered:
  "CompareVersions v w = - CompareVersions w v \<and>
   (CompareVersions v w \<le> 0 \<and> CompareVersions w z \<le> 0 \<longrightarrow> CompareVersions v z \<le> 0) \<and>
   (a < 2 ^ 63 \<and> b < 2 ^ 63 \<and> c < 2 ^ 63 \<and> a' < 2 ^ 63 \<and> b' < 2 ^ 63 \<and> c' < 2 ^ 63 \<and>
    (x = [] \<or> \<not> isDigit (hd x)) \<and> (y = [] \<or> \<not> isDigit (hd y)) \<longrightarrow>
    CompareVersions (versionText a b c x) (versionText a' b' c' y) =
      (if (a, b, c) < (a', b', c') then -1 else if (a, b, c) = (a', b', c') then 0 else 1))"
proof -
  have s: "sint (of_nat n :: 64 word) = int n" if "n < 2 ^ 63" for n
    using that by (simp add: signed_of_nat signed_take_bit_int_eq_self)
  have "CompareVersions (versionText a b c x) (versionText a' b' c' y) =
      (if (a, b, c) < (a', b', c') then -1 else if (a, b, c) = (a', b', c') then 0 else 1)"
    if "a < 2 ^ 63" "b < 2 ^ 63" "c < 2 ^ 63" "a' < 2 ^ 63" "b' < 2 ^ 63" "c' < 2 ^ 63"
       "x = [] \<or> \<not> isDigit (hd x)" "y = [] \<or> \<not> isDigit (hd y)"
    unfolding CompareVersions_def parseVersion_text [OF that(7)] parseVersion_text [OF that(8)]
    unfolding compareParts.simps s [OF that(1)] s [OF that(2)] s [OF that(3)] s [OF that(4)] s [OF that(5)] s [OF that(6)]
    by auto
  then show ?thesis
    using compareParts_sym [of "parseVersion v"] compareParts_trans [of "parseVersion v" "parseVersion w" "parseVersion z"]
    by (simp add: CompareVersions_def)
qed

theorem versions_ordered_witness:
  "CompareVersions (versionText 1 10 0 ''-rc.1'') (versionText 1 9 12 []) = 1"
  using versions_ordered [of "[]" "[]" "[]" 1 10 0 1 9 12 "''-rc.1''" "[]"] by (simp add: isDigit_def)

text \<open>A release for the witness: an archive with a readme and the program, signed by the bytes of the key.\<close>

definition demoLib :: "string updateLib" where
  "demoLib =
     \<lparr>mk_Parse = Inr, mk_Verify = \<lambda>k d sig. sig = k @ d,
      untar = \<lambda>d. Inr ([\<lparr>te_Regular = True, te_Name = ''README'', te_Data = Inr []\<rparr>,
                        \<lparr>te_Regular = True, te_Name = ''bin/penguin'', te_Data = Inr ''new''\<rparr>], None),
      install = \<lambda>p d s. (None, set_node p (File d mode700 0) s)\<rparr>"

definition demoNet :: "HttpRequest \<Rightarrow> httpResult" where
  "demoNet rq = (if rq_URL rq = ''u'' then Response 200 (Inr ''arc'') else Response 200 (Inr ''Karc''))"

theorem update_verified_witness:
  "download demoNet ''u'' = Inr ''arc'' \<and> mk_Verify demoLib ''K'' ''arc'' ''Karc'' \<and>
   Apply demoLib demoNet \<lparr>currentVersion = ''v1'', repo = ''o/r'', publicKey = ''K'', targetPath = ''/v/p'', upBaseURL = []\<rparr>
     \<lparr>re_TagName = ''v2'', re_Assets = [\<lparr>as_Name = ''a'', as_DownloadURL = ''u''\<rparr>]\<rparr> emptyOs =
     (None, set_node ''/v/p'' (File ''new'' mode700 0) emptyOs)"
proof -
  let ?u = "\<lparr>currentVersion = ''v1'', repo = ''o/r'', publicKey = ''K'', targetPath = ''/v/p'', upBaseURL = []\<rparr>"
  let ?rel = "\<lparr>re_TagName = ''v2'', re_Assets = [\<lparr>as_Name = ''a'', as_DownloadURL = ''u''\<rparr>]\<rparr>"
  have ap: "Apply demoLib demoNet ?u ?rel emptyOs = (None, set_node ''/v/p'' (File ''new'' mode700 0) emptyOs)"
    by (simp add: Apply_def download_def demoNet_def plainGet_def demoLib_def extractBinary_def isBinaryName_def Base_def
        TrimSpace_def isSpace_def HasPrefix_def wordChar_def isDigit_def Let_def)
  have "TrimSpace ''K'' = ''K''" by (simp add: TrimSpace_def isSpace_def)
  with update_verified [OF ap disjI1 [OF refl]] ap show ?thesis
    by (auto simp: demoLib_def download_def demoNet_def plainGet_def)
qed

end
