(* ===== verification/Resolver.thy ===== *)
theory Resolver
  imports Http Os_Model
begin

text \<open>
  The system resolver of the Squawk module on Linux (\<open>internal/modules/squawk/sysresolver.go\<close>,
  \<open>sysresolver_linux.go\<close>, \<open>sysresolver_resolvectl_linux.go\<close>): it points \<open>/etc/resolv.conf\<close> at other DNS
  servers, keeps what was there in a backup file and a marker, and restores it on request or after a
  crash. Addresses are those of \<open>net/netip\<close>, given by the record \<open>netip\<close> of its parser and printer; the
  locale \<open>addr_lib\<close> states what the package documents of them and is interpreted on the IPv4 part.
\<close>

section \<open>Addresses\<close>

record 'a netip =
  ParseAddr :: "string \<Rightarrow> 'a option"
  addrString :: "'a \<Rightarrow> string"

section \<open>The resolver\<close>

record DNSBackup =
  bk_PreviousServers :: "string list"
  bk_PreviousState :: string
  bk_AppliedAt :: string

record resolver =
  rv_dataDir :: path
  rv_backup :: "DNSBackup option"

definition NewSysResolver :: "path \<Rightarrow> resolver" where
  "NewSysResolver dataDir = \<lparr>rv_dataDir = dataDir, rv_backup = None\<rparr>"

text \<open>A failing system call as an error value.\<close>

definition osError :: "oserr \<Rightarrow> goerr" where
  "osError e =
     (case e of ErrNotExist \<Rightarrow> Sentinel ''file does not exist'' | ErrExist \<Rightarrow> Sentinel ''file already exists''
      | SysErr t \<Rightarrow> Errorf t)"

subsection \<open>Linux\<close>

definition resolvConfPath :: path where
  "resolvConfPath = ''/etc/resolv.conf''"

definition applyViaSystemdResolved :: "'a list \<Rightarrow> goerr option" where
  "applyViaSystemdResolved servers = Some (Errorf ''systemd-resolved not available'')"

definition restoreViaSystemdResolved :: "'a list \<Rightarrow> goerr option" where
  "restoreViaSystemdResolved servers = Some (Errorf ''systemd-resolved not available'')"

definition nameserverLine :: "'a netip \<Rightarrow> string \<Rightarrow> 'a list" where
  "nameserverLine lib line0 =
     (let line = TrimSpace line0
      in if HasPrefix line ''nameserver '' then
           (case Fields line of
              _ # p # _ \<Rightarrow> (case ParseAddr lib p of None \<Rightarrow> [] | Some a \<Rightarrow> [a])
            | _ \<Rightarrow> [])
         else [])"

definition currentPlatform :: "'a netip \<Rightarrow> os \<Rightarrow> goerr + 'a list" where
  "currentPlatform lib s =
     (case ReadFile resolvConfPath s of
        Inl e \<Rightarrow> Inl (Wrapf (''read '' @ resolvConfPath @ '': '') (osError e) [])
      | Inr content \<Rightarrow>
          let servers = concat (map (nameserverLine lib) (Split (CHR 0x0A) content))
          in if servers = [] then Inl (Errorf (''no nameservers found in '' @ resolvConfPath)) else Inr servers)"

definition captureState :: "os \<Rightarrow> string" where
  "captureState s = (case ReadFile resolvConfPath s of Inl e \<Rightarrow> [] | Inr content \<Rightarrow> content)"

definition backupPath :: "resolver \<Rightarrow> path" where
  "backupPath r = JoinPath [rv_dataDir r, ''resolv.conf.backup'']"

definition newContent :: "'a netip \<Rightarrow> 'a list \<Rightarrow> string" where
  "newContent lib servers =
     Join [CHR 0x0A] (''# Generated by penguin squawk module'' #
       map (\<lambda>server. ''nameserver '' @ addrString lib server) servers @ [[]])"

definition applyViaResolvConf :: "'a netip \<Rightarrow> resolver \<Rightarrow> 'a list \<Rightarrow> os \<Rightarrow> goerr option \<times> os" where
  "applyViaResolvConf lib r servers s =
     (let s1 = (case ReadFile resolvConfPath s of Inl e \<Rightarrow> s
                | Inr content \<Rightarrow> snd (WriteFile (backupPath r) content mode600 s))
      in case WriteFile resolvConfPath (newContent lib servers) mode600 s1 of
           (Some e, s2) \<Rightarrow> (Some (Wrapf (''write '' @ resolvConfPath @ '': '') (osError e) []), s2)
         | (None, s2) \<Rightarrow> (None, s2))"

definition restoreViaResolvConf :: "'a netip \<Rightarrow> resolver \<Rightarrow> 'a list \<Rightarrow> os \<Rightarrow> goerr option \<times> os" where
  "restoreViaResolvConf lib r servers s =
     (case ReadFile (backupPath r) s of
        Inl e \<Rightarrow> applyViaResolvConf lib r servers s
      | Inr content \<Rightarrow>
          (case WriteFile resolvConfPath content mode600 s of
             (Some e, s1) \<Rightarrow> (Some (Wrapf (''restore '' @ resolvConfPath @ '': '') (osError e) []), s1)
           | (None, s1) \<Rightarrow> (None, snd (Remove (backupPath r) s1))))"

definition applyPlatform :: "'a netip \<Rightarrow> resolver \<Rightarrow> 'a list \<Rightarrow> os \<Rightarrow> goerr option \<times> os" where
  "applyPlatform lib r servers s =
     (case applyViaSystemdResolved servers of None \<Rightarrow> (None, s)
      | Some _ \<Rightarrow>
          (case applyViaResolvConf lib r servers s of
             (Some e, s1) \<Rightarrow> (Some (Wrapf ''apply via resolv.conf: '' e []), s1)
           | (None, s1) \<Rightarrow> (None, s1)))"

definition restorePlatform :: "'a netip \<Rightarrow> resolver \<Rightarrow> 'a list \<Rightarrow> os \<Rightarrow> goerr option \<times> os" where
  "restorePlatform lib r servers s =
     (case restoreViaSystemdResolved servers of None \<Rightarrow> (None, s)
      | Some _ \<Rightarrow>
          (case restoreViaResolvConf lib r servers s of
             (Some e, s1) \<Rightarrow> (Some (Wrapf ''restore via resolv.conf: '' e []), s1)
           | (None, s1) \<Rightarrow> (None, s1)))"

definition getCurrentUnixTime :: "time \<Rightarrow> int" where
  "getCurrentUnixTime now = now div second"

subsection \<open>The marker\<close>

definition markerPath :: "resolver \<Rightarrow> path" where
  "markerPath r = JoinPath [rv_dataDir r, ''dns-applied.json'']"

definition backupJson :: "DNSBackup \<Rightarrow> json" where
  "backupJson b =
     JObj [(''previous_servers'', JArr (map JStr (bk_PreviousServers b))),
           (''previous_state'', JStr (bk_PreviousState b)), (''applied_at'', JStr (bk_AppliedAt b))]"

definition backupField :: "string \<Rightarrow> json \<Rightarrow> DNSBackup \<Rightarrow> DNSBackup option" where
  "backupField k j x =
     (if k = ''previous_servers'' then
        (case j of JNull \<Rightarrow> Some (x\<lparr>bk_PreviousServers := []\<rparr>)
         | JArr js \<Rightarrow> map_option (\<lambda>v. x\<lparr>bk_PreviousServers := v\<rparr>) (decSlice decString js)
         | _ \<Rightarrow> None)
      else if k = ''previous_state'' then scalar decString (\<lambda>v. x\<lparr>bk_PreviousState := v\<rparr>) j x
      else if k = ''applied_at'' then scalar decString (\<lambda>v. x\<lparr>bk_AppliedAt := v\<rparr>) j x
      else Some x)"

definition writeBackup :: "resolver \<Rightarrow> DNSBackup \<Rightarrow> os \<Rightarrow> goerr option \<times> os" where
  "writeBackup r b s =
     (case WriteFile (markerPath r) (Marshal (backupJson b)) mode600 s of
        (Some e, s1) \<Rightarrow> (Some (Wrapf ''write backup marker: '' (osError e) []), s1)
      | (None, s1) \<Rightarrow> (None, s1))"

definition readBackup :: "resolver \<Rightarrow> os \<Rightarrow> goerr + DNSBackup" where
  "readBackup r s =
     (case ReadFile (markerPath r) s of
        Inl e \<Rightarrow> Inl (Wrapf ''read backup marker: '' (osError e) [])
      | Inr data \<Rightarrow>
          (case Option.bind (parse data)
                  (decObject backupField \<lparr>bk_PreviousServers = [], bk_PreviousState = [], bk_AppliedAt = []\<rparr>) of
             None \<Rightarrow> Inl (Wrapf ''unmarshal backup: '' (Errorf ''json'') [])
           | Some b \<Rightarrow> Inr b))"

definition deleteBackup :: "resolver \<Rightarrow> os \<Rightarrow> goerr option \<times> os" where
  "deleteBackup r s =
     (case Remove (markerPath r) s of
        (Some e, s1) \<Rightarrow> (if e = ErrNotExist then None else Some (Wrapf ''delete backup marker: '' (osError e) []), s1)
      | (None, s1) \<Rightarrow> (None, s1))"

subsection \<open>Operations\<close>

definition Current :: "'a netip \<Rightarrow> os \<Rightarrow> goerr + 'a list" where
  "Current lib s = currentPlatform lib s"

text \<open>The operations are written once for all platforms, over a record of the four methods that the build selects. The state is
  the machine that a platform's commands act on and the file system that holds the marker. \<open>fallback\<close> is the
  address \<open>1.1.1.1\<close>.\<close>

record ('a, 'm) platform =
  pl_apply :: "resolver \<Rightarrow> 'a list \<Rightarrow> 'm \<times> os \<Rightarrow> goerr option \<times> ('m \<times> os)"
  pl_restore :: "resolver \<Rightarrow> 'a list \<Rightarrow> 'm \<times> os \<Rightarrow> goerr option \<times> ('m \<times> os)"
  pl_current :: "'m \<times> os \<Rightarrow> (goerr + 'a list) \<times> ('m \<times> os)"
  pl_capture :: "'m \<times> os \<Rightarrow> string \<times> ('m \<times> os)"

definition validServers :: "'a netip \<Rightarrow> DNSBackup \<Rightarrow> 'a list" where
  "validServers lib b = List.map_filter (ParseAddr lib) (bk_PreviousServers b)"

definition gApply :: "('a, 'm) platform \<Rightarrow> 'a netip \<Rightarrow> time \<Rightarrow> 'a list \<Rightarrow> resolver \<Rightarrow> 'm \<times> os \<Rightarrow>
    goerr option \<times> resolver \<times> ('m \<times> os)" where
  "gApply P lib now servers r ms =
     (if servers = [] then (Some (Errorf ''no DNS servers provided''), r, ms)
      else case pl_current P ms of
        (c, ms1) \<Rightarrow>
          let current = (case c of Inl e \<Rightarrow> [] | Inr as \<Rightarrow> as)
          in (case pl_apply P r servers ms1 of
                (Some e, ms2) \<Rightarrow> (Some (Wrapf ''apply platform DNS: '' e []), r, ms2)
              | (None, ms2) \<Rightarrow>
                  (case pl_capture P ms2 of
                     (state, m3, s3) \<Rightarrow>
                       let backup = \<lparr>bk_PreviousServers = map (addrString lib) current, bk_PreviousState = state,
                                     bk_AppliedAt = Itoa (getCurrentUnixTime now)\<rparr>
                       in (None, r\<lparr>rv_backup := Some backup\<rparr>, m3, snd (writeBackup r backup s3)))))"

definition gRestore :: "('a, 'm) platform \<Rightarrow> 'a netip \<Rightarrow> 'a \<Rightarrow> resolver \<Rightarrow> 'm \<times> os \<Rightarrow>
    goerr option \<times> resolver \<times> ('m \<times> os)" where
  "gRestore P lib fallback r0 ms =
     (let r = (case rv_backup r0 of Some _ \<Rightarrow> r0
               | None \<Rightarrow> (case readBackup r0 (snd ms) of Inr b \<Rightarrow> r0\<lparr>rv_backup := Some b\<rparr> | Inl e \<Rightarrow> r0))
      in case rv_backup r of
           None \<Rightarrow> (Some (Errorf ''no backup state available''), r, ms)
         | Some b \<Rightarrow>
             let servers = validServers lib b
             in case pl_restore P r (if servers = [] then [fallback] else servers) ms of
                  (Some e, ms1) \<Rightarrow> (Some (Wrapf ''restore platform DNS: '' e []), r, ms1)
                | (None, m1, s1) \<Rightarrow> (None, r\<lparr>rv_backup := None\<rparr>, m1, snd (deleteBackup r s1)))"

definition gRecover :: "('a, 'm) platform \<Rightarrow> 'a netip \<Rightarrow> resolver \<Rightarrow> 'm \<times> os \<Rightarrow> goerr option \<times> ('m \<times> os)" where
  "gRecover P lib r ms =
     (case readBackup r (snd ms) of Inl e \<Rightarrow> (None, ms)
      | Inr b \<Rightarrow>
          let servers = validServers lib b
          in if servers = [] then apsnd (Pair (fst ms)) (deleteBackup r (snd ms))
             else case pl_restore P r servers ms of
                    (Some e, ms1) \<Rightarrow> (Some e, ms1)
                  | (None, m1, s1) \<Rightarrow> apsnd (Pair m1) (deleteBackup r s1))"

text \<open>The Linux build, which acts on the file system only.\<close>

definition linuxPlatform :: "'a netip \<Rightarrow> ('a, 'm) platform" where
  "linuxPlatform lib =
     \<lparr>pl_apply = \<lambda>r as (m, s). apsnd (Pair m) (applyPlatform lib r as s),
      pl_restore = \<lambda>r as (m, s). apsnd (Pair m) (restorePlatform lib r as s),
      pl_current = \<lambda>(m, s). (currentPlatform lib s, m, s),
      pl_capture = \<lambda>(m, s). (captureState s, m, s)\<rparr>"

definition ApplyDNS :: "'a netip \<Rightarrow> time \<Rightarrow> 'a list \<Rightarrow> resolver \<Rightarrow> os \<Rightarrow> goerr option \<times> resolver \<times> os" where
  "ApplyDNS lib now servers r s =
     (case gApply (linuxPlatform lib) lib now servers r ((), s) of (e, r1, _, s1) \<Rightarrow> (e, r1, s1))"

definition Restore :: "'a netip \<Rightarrow> 'a \<Rightarrow> resolver \<Rightarrow> os \<Rightarrow> goerr option \<times> resolver \<times> os" where
  "Restore lib fallback r s =
     (case gRestore (linuxPlatform lib) lib fallback r ((), s) of (e, r1, _, s1) \<Rightarrow> (e, r1, s1))"

definition RecoverFromCrash :: "'a netip \<Rightarrow> resolver \<Rightarrow> os \<Rightarrow> goerr option \<times> os" where
  "RecoverFromCrash lib r s = (case gRecover (linuxPlatform lib) lib r ((), s) of (e, _, s1) \<Rightarrow> (e, s1))"

lemmas linux_ops = ApplyDNS_def Restore_def RecoverFromCrash_def gApply_def gRestore_def gRecover_def linuxPlatform_def

section \<open>The generated file reads back\<close>

lemma fields_acc_plain:
  "\<forall>c \<in> set x. \<not> isSpace c \<Longrightarrow> fields_acc acc (x @ s) = fields_acc (rev x @ acc) s"
  by (induction x arbitrary: acc) simp_all

lemma newContent_lines:
  assumes "\<forall>a \<in> set servers. CHR 0x0A \<notin> set (addrString lib a)"
  shows "Split (CHR 0x0A) (newContent lib servers) =
    ''# Generated by penguin squawk module'' # map (\<lambda>a. ''nameserver '' @ addrString lib a) servers @ [[]]"
  unfolding newContent_def using assms by (intro Split_Join) auto

text \<open>The type of addresses stands for the valid ones without a zone, which are the addresses of name servers: for them the package
  documents that parsing inverts printing.\<close>

locale addr_lib =
  fixes lib :: "'a netip"
  assumes parse_print_addr: "ParseAddr lib (addrString lib a) = Some a"
    and addr_not_empty: "addrString lib a \<noteq> []"
    and addr_plain: "c \<in> set (addrString lib a) \<Longrightarrow> \<not> isSpace c \<and> (of_char c :: nat) < 128"
begin

lemma nameserverLine_addr: "nameserverLine lib (''nameserver '' @ addrString lib a) = [a]"
proof -
  let ?x = "addrString lib a"
  have sp: "isSpace (CHR 0x20)" "\<not> isSpace (CHR ''n'')" by (simp_all add: isSpace_def)
  have "TrimSpace (''nameserver '' @ ?x) = ''nameserver '' @ ?x"
    using addr_not_empty [of a] addr_plain [of "last ?x" a] sp by (intro TrimSpace_id) auto
  moreover have "fields_acc [] (''nameserver'' @ CHR 0x20 # ?x @ []) = [''nameserver'', ?x]"
    using addr_plain [of _ a] addr_not_empty [of a] sp
    by (subst fields_acc_plain) (auto simp: isSpace_def fields_acc_plain simp del: append_Nil2)
  ultimately show ?thesis
    by (simp add: nameserverLine_def Fields_def parse_print_addr)
qed

lemma concat_single: "concat (map (\<lambda>a. [a]) xs) = xs"
  by (induction xs) simp_all

lemma servers_read_back:
  assumes "ReadFile resolvConfPath s = Inr (newContent lib servers)" and "servers \<noteq> []"
  shows "Current lib s = Inr servers"
proof -
  have "CHR 0x0A \<notin> set (addrString lib a)" for a using addr_plain [of "CHR 0x0A" a] by (auto simp: isSpace_def)
  moreover have "nameserverLine lib ''# Generated by penguin squawk module'' = []" "nameserverLine lib [] = []"
    by (simp_all add: nameserverLine_def TrimSpace_def isSpace_def HasPrefix_def)
  ultimately have "concat (map (nameserverLine lib) (Split (CHR 0x0A) (newContent lib servers))) = servers"
    using concat_single [of servers]
    by (subst newContent_lines) (simp_all add: nameserverLine_addr [simplified] comp_def)
  then show ?thesis using assms by (simp add: Current_def currentPlatform_def)
qed

lemma ascii_newContent: "ascii (newContent lib servers)"
proof -
  have app: "ascii (x @ y) \<longleftrightarrow> ascii x \<and> ascii y" for x y by (auto simp: ascii_def)
  have J: "ascii (Join d xs)" if "ascii d" "\<forall>x \<in> set xs. ascii x" for d xs
    using that by (induction d xs rule: Join.induct) (simp_all add: app, simp add: ascii_def)
  have lit: "ascii ''# Generated by penguin squawk module''" "ascii ''nameserver ''" "ascii [CHR 0x0A]" "ascii []"
    by (simp_all add: ascii_def)
  have "ascii (addrString lib a)" for a using addr_plain [of _ a] by (simp add: ascii_def)
  with lit show ?thesis unfolding newContent_def by (intro J) (auto simp: app simp del: append_Cons)
qed

lemma validServers_printed:
  "bk_PreviousServers b = map (addrString lib) as \<Longrightarrow> validServers lib b = as"
  by (simp add: validServers_def map_filter_def comp_def parse_print_addr)

end


section \<open>The calls on a system without failures\<close>

definition quiet :: "os \<Rightarrow> bool" where
  "quiet s \<longleftrightarrow> (\<forall>c. faults s c = None)"

text \<open>\<open>edited p n s s'\<close>: the only change is that \<open>p\<close> now carries \<open>n\<close>.\<close>

definition edited :: "path \<Rightarrow> node option \<Rightarrow> os \<Rightarrow> os \<Rightarrow> bool" where
  "edited p n s s' \<longleftrightarrow>
     quiet s' \<and> node_at s' p = n \<and> (\<forall>q. Clean q \<noteq> Clean p \<longrightarrow> node_at s' q = node_at s q) \<and>
     (\<forall>q. isDirectory s' q = isDirectory s q)"

lemma WriteFile_quiet:
  assumes "quiet s" and "isDirectory s (Dir p)" and "\<not> isDirectory s p"
  shows "\<exists>s'. WriteFile p d m s = (None, s') \<and>
     edited p (Some (case node_at s p of Some (File _ m0 u0) \<Rightarrow> File d m0 u0 | _ \<Rightarrow> File d m (getuid s))) s s'"
proof -
  obtain m' u where mu: "(case node_at s p of Some (File _ m0 u0) \<Rightarrow> (m0, u0) | _ \<Rightarrow> (m, getuid s)) = (m', u)" by force
  let ?s' = "set_node p (File d m' u) (set_node p (File [] m' u) s)"
  have w: "WriteFile p d m s = (None, ?s')"
    using assms mu by (simp add: WriteFile_def quiet_def)
  have q: "node_at ?s' q = (if Clean q = Clean p then Some (File d m' u) else node_at s q)" for q by simp
  have "isDirectory ?s' q = isDirectory s q" for q
  proof (cases "Clean q = Clean p")
    case True
    then have "node_at s q = node_at s p" by (simp add: node_at_def)
    then show ?thesis using assms(3) True by (auto simp: isDirectory_def)
  qed (simp add: isDirectory_def)
  then have "edited p (Some (File d m' u)) s ?s'"
    using assms(1) by (simp add: edited_def quiet_def)
  moreover have "File d m' u = (case node_at s p of Some (File _ m0 u0) \<Rightarrow> File d m0 u0 | _ \<Rightarrow> File d m (getuid s))"
    using mu by (auto split: option.splits node.splits)
  ultimately show ?thesis using w by auto
qed

lemma Remove_quiet:
  assumes "quiet s" and "node_at s p = Some (File d m u)" and "\<not> isDirectory s p"
  shows "\<exists>s'. Remove p s = (None, s') \<and> edited p None s s'"
proof -
  let ?s' = "commit (del (Clean p) (nodes s)) s"
  have r: "Remove p s = (None, ?s')" using assms by (simp add: Remove_def quiet_def)
  have q: "node_at ?s' q = (if Clean q = Clean p then None else node_at s q)" for q by (simp add: node_at_def)
  have "isDirectory ?s' q = isDirectory s q" for q
  proof (cases "Clean q = Clean p")
    case True
    then have "node_at s q = node_at s p" by (simp add: node_at_def)
    then show ?thesis using assms(3) True q by (auto simp: isDirectory_def)
  qed (simp add: isDirectory_def q)
  then have "edited p None s ?s'" using assms(1) q by (simp add: edited_def quiet_def)
  with r show ?thesis by blast
qed

lemma ReadFile_quiet: "quiet s \<Longrightarrow> node_at s p = Some (File d m u) \<Longrightarrow> ReadFile p s = Inr d"
  by (simp add: quiet_def ReadFile_def)

section \<open>Applying and restoring\<close>

text \<open>A system on which the resolver can work: no failures, the directories are there, \<open>resolv.conf\<close> is a
  file and none of the resolver's own paths is a directory.\<close>

definition dnsReady :: "resolver \<Rightarrow> bytes \<Rightarrow> filemode \<Rightarrow> nat \<Rightarrow> os \<Rightarrow> bool" where
  "dnsReady r old m u s \<longleftrightarrow>
     quiet s \<and> rv_dataDir r \<noteq> [] \<and> isDirectory s (rv_dataDir r) \<and> isDirectory s ''/etc'' \<and>
     node_at s resolvConfPath = Some (File old m u) \<and>
     \<not> isDirectory s (backupPath r) \<and> \<not> isDirectory s (markerPath r)"

lemma own_paths:
  assumes "rv_dataDir r \<noteq> []"
  shows "Clean resolvConfPath \<noteq> Clean (backupPath r)" "Clean resolvConfPath \<noteq> Clean (markerPath r)"
    "Clean (backupPath r) \<noteq> Clean (markerPath r)"
    "Dir (backupPath r) = Clean (rv_dataDir r)" "Dir (markerPath r) = Clean (rv_dataDir r)" "Dir resolvConfPath = ''/etc''"
proof -
  have c: "cleanComps (backupPath r) = cleanComps (rv_dataDir r) @ [''resolv.conf.backup'']"
    "cleanComps (markerPath r) = cleanComps (rv_dataDir r) @ [''dns-applied.json'']"
    unfolding backupPath_def markerPath_def by (rule cleanComps_JoinPath [OF assms]; simp)+
  have e: "cleanComps resolvConfPath = [''etc'', ''resolv.conf'']"
    by (simp add: resolvConfPath_def cleanComps_def cleanStep_def)
  show "Clean resolvConfPath \<noteq> Clean (backupPath r)" "Clean resolvConfPath \<noteq> Clean (markerPath r)"
    "Clean (backupPath r) \<noteq> Clean (markerPath r)"
    using c e cleanComps_eqI [of resolvConfPath "backupPath r"] cleanComps_eqI [of resolvConfPath "markerPath r"]
      cleanComps_eqI [of "backupPath r" "markerPath r"]
    by (auto simp: append_eq_Cons_conv)
  show "Dir (backupPath r) = Clean (rv_dataDir r)" "Dir (markerPath r) = Clean (rv_dataDir r)"
    unfolding backupPath_def markerPath_def by (rule Dir_JoinPath [OF assms]; simp)+
  show "Dir resolvConfPath = ''/etc''"
    by (simp add: resolvConfPath_def Dir_def Clean_def cleanComps_def cleanStep_def)
qed

lemma isDirectory_Clean: "isDirectory s (Clean p) = isDirectory s p"
  by (simp add: isDirectory_def node_at_def)

lemma dnsReady_dirs:
  assumes "dnsReady r old m u s"
  shows "isDirectory s (Dir (backupPath r))" "isDirectory s (Dir (markerPath r))" "isDirectory s (Dir resolvConfPath)"
    "\<not> isDirectory s resolvConfPath"
proof -
  have "Clean resolvConfPath = resolvConfPath"
    by (simp add: resolvConfPath_def Clean_def cleanComps_def cleanStep_def)
  moreover have "rv_dataDir r \<noteq> []" using assms by (simp add: dnsReady_def)
  ultimately show "isDirectory s (Dir (backupPath r))" "isDirectory s (Dir (markerPath r))" "isDirectory s (Dir resolvConfPath)"
    "\<not> isDirectory s resolvConfPath"
    using assms own_paths(4-6) [of r]
    by (simp_all add: dnsReady_def isDirectory_Clean) (simp add: isDirectory_def resolvConfPath_def)
qed


text \<open>Editing one of the resolver's own paths keeps the system ready.\<close>

lemma dnsReady_edited:
  assumes "dnsReady r old m u s" and "edited p n s s'" and "p = backupPath r \<or> p = markerPath r"
  shows "dnsReady r old m u s'"
  using assms own_paths(1,2) [of r] by (auto simp: dnsReady_def edited_def)

lemma dnsReady_conf:
  assumes "dnsReady r old m u s" and "edited resolvConfPath (Some (File new m u)) s s'"
  shows "dnsReady r new m u s'"
  using assms by (auto simp: dnsReady_def edited_def)

definition applied :: "resolver \<Rightarrow> bytes \<Rightarrow> filemode \<Rightarrow> nat \<Rightarrow> bytes \<Rightarrow> DNSBackup \<Rightarrow> os \<Rightarrow> bool" where
  "applied r old m u new b s \<longleftrightarrow>
     dnsReady r new m u s \<and> (\<exists>m' u'. node_at s (backupPath r) = Some (File old m' u')) \<and>
     (\<exists>m' u'. node_at s (markerPath r) = Some (File (Marshal (backupJson b)) m' u'))"

lemma applyPlatform_quiet:
  assumes ready: "dnsReady r old m u s"
  shows "\<exists>s1. applyPlatform lib r servers s = (None, s1) \<and> dnsReady r (newContent lib servers) m u s1 \<and>
     (\<exists>m' u'. node_at s1 (backupPath r) = Some (File old m' u')) \<and> node_at s1 (markerPath r) = node_at s (markerPath r)"
proof -
  have q: "quiet s" and d: "rv_dataDir r \<noteq> []" and b: "\<not> isDirectory s (backupPath r)"
    and c: "node_at s resolvConfPath = Some (File old m u)"
    using ready by (simp_all add: dnsReady_def)
  note paths = own_paths [OF d]
  obtain s1 where s1: "WriteFile (backupPath r) old mode600 s = (None, s1)"
    and e1: "edited (backupPath r) (Some (case node_at s (backupPath r) of Some (File _ m0 u0) \<Rightarrow> File old m0 u0 | _ \<Rightarrow> File old mode600 (getuid s))) s s1"
    using WriteFile_quiet [OF q dnsReady_dirs(1) [OF ready] b] by blast
  have r1: "dnsReady r old m u s1" using dnsReady_edited [OF ready e1] by simp
  then have c1: "node_at s1 resolvConfPath = Some (File old m u)" "quiet s1" by (simp_all add: dnsReady_def)
  have b1: "\<exists>m' u'. node_at s1 (backupPath r) = Some (File old m' u')"
    using e1 by (auto simp: edited_def split: option.split node.split)
  obtain s2 where s2: "WriteFile resolvConfPath (newContent lib servers) mode600 s1 = (None, s2)"
    and e2: "edited resolvConfPath (Some (File (newContent lib servers) m u)) s1 s2"
    using WriteFile_quiet [OF c1(2) dnsReady_dirs(3,4) [OF r1], of "newContent lib servers" mode600] c1(1) by auto
  have "applyPlatform lib r servers s = (None, s2)"
    using s1 s2 ReadFile_quiet [OF q c]
    by (simp add: applyPlatform_def applyViaSystemdResolved_def applyViaResolvConf_def)
  moreover have "node_at s2 (backupPath r) = node_at s1 (backupPath r)" "node_at s2 (markerPath r) = node_at s (markerPath r)"
    using e1 e2 paths(1-3) paths(1-3) [symmetric] by (simp_all add: edited_def)
  ultimately show ?thesis using dnsReady_conf [OF r1 e2] b1 by auto
qed

lemma ApplyDNS_quiet:
  assumes ready: "dnsReady r old m u s" and "servers \<noteq> []"
    and b_def: "b = \<lparr>bk_PreviousServers = map (addrString lib) (case Current lib s of Inl e \<Rightarrow> [] | Inr as \<Rightarrow> as),
      bk_PreviousState = newContent lib servers, bk_AppliedAt = Itoa (getCurrentUnixTime now)\<rparr>"
  shows "\<exists>s2. ApplyDNS lib now servers r s = (None, r\<lparr>rv_backup := Some b\<rparr>, s2) \<and>
     applied r old m u (newContent lib servers) b s2"
proof -
  obtain s1 where s1: "applyPlatform lib r servers s = (None, s1)" and r1: "dnsReady r (newContent lib servers) m u s1"
    and b1: "\<exists>m' u'. node_at s1 (backupPath r) = Some (File old m' u')"
    using applyPlatform_quiet [OF ready] by blast
  have q: "quiet s1" "node_at s1 resolvConfPath = Some (File (newContent lib servers) m u)" "\<not> isDirectory s1 (markerPath r)"
    "rv_dataDir r \<noteq> []"
    using r1 by (simp_all add: dnsReady_def)
  obtain s2 where s2: "WriteFile (markerPath r) (Marshal (backupJson b)) mode600 s1 = (None, s2)"
    and e2: "edited (markerPath r) (Some (case node_at s1 (markerPath r) of Some (File _ m0 u0) \<Rightarrow> File (Marshal (backupJson b)) m0 u0
       | _ \<Rightarrow> File (Marshal (backupJson b)) mode600 (getuid s1))) s1 s2"
    using WriteFile_quiet [OF q(1) dnsReady_dirs(2) [OF r1] q(3)] by blast
  have "captureState s1 = newContent lib servers" using ReadFile_quiet [OF q(1,2)] by (simp add: captureState_def)
  then have "ApplyDNS lib now servers r s = (None, r\<lparr>rv_backup := Some b\<rparr>, s2)"
    using assms(2) s1 s2 by (simp add: linux_ops Let_def b_def writeBackup_def Current_def)
  moreover have "\<exists>m' u'. node_at s2 (markerPath r) = Some (File (Marshal (backupJson b)) m' u')"
    using e2 by (auto simp: edited_def split: option.split node.split)
  moreover have "node_at s2 (backupPath r) = node_at s1 (backupPath r)"
    using e2 own_paths(3) [OF q(4)] by (simp add: edited_def)
  ultimately show ?thesis using dnsReady_edited [OF r1 e2] b1 by (auto simp: applied_def)
qed

lemma restorePlatform_quiet:
  assumes a: "applied r old m u new b s"
  shows "\<exists>s1. restorePlatform lib r servers s = (None, s1) \<and> dnsReady r old m u s1 \<and>
     node_at s1 (backupPath r) = None \<and> node_at s1 (markerPath r) = node_at s (markerPath r)"
proof -
  have ready: "dnsReady r new m u s" using a by (simp add: applied_def)
  have q: "quiet s" "node_at s resolvConfPath = Some (File new m u)" "rv_dataDir r \<noteq> []"
    using ready by (simp_all add: dnsReady_def)
  obtain m' u' where b: "node_at s (backupPath r) = Some (File old m' u')" using a by (auto simp: applied_def)
  note paths = own_paths [OF q(3)]
  obtain s1 where s1: "WriteFile resolvConfPath old mode600 s = (None, s1)"
    and e1: "edited resolvConfPath (Some (File old m u)) s s1"
    using WriteFile_quiet [OF q(1) dnsReady_dirs(3,4) [OF ready], of old mode600] q(2) by auto
  have r1: "dnsReady r old m u s1" by (rule dnsReady_conf [OF ready e1])
  have b1: "node_at s1 (backupPath r) = Some (File old m' u')" using e1 b paths(1) [symmetric] by (simp add: edited_def)
  obtain s2 where s2: "Remove (backupPath r) s1 = (None, s2)" and e2: "edited (backupPath r) None s1 s2"
    using Remove_quiet [OF _ b1] r1 by (auto simp: dnsReady_def)
  have "restorePlatform lib r servers s = (None, s2)"
    using ReadFile_quiet [OF q(1) b] s1 s2
    by (simp add: restorePlatform_def restoreViaSystemdResolved_def restoreViaResolvConf_def)
  moreover have "node_at s2 (backupPath r) = None" using e2 by (simp add: edited_def)
  moreover have "node_at s2 (markerPath r) = node_at s (markerPath r)"
    using e1 e2 paths(2,3) [symmetric] by (simp add: edited_def)
  ultimately show ?thesis using dnsReady_edited [OF r1 e2] by auto
qed

lemma deleteBackup_quiet:
  assumes ready: "dnsReady r old m u s" and "node_at s (markerPath r) = Some (File d m' u')"
  shows "\<exists>s1. deleteBackup r s = (None, s1) \<and> dnsReady r old m u s1 \<and> node_at s1 (markerPath r) = None \<and>
     node_at s1 (backupPath r) = node_at s (backupPath r)"
proof -
  have q: "quiet s" "\<not> isDirectory s (markerPath r)" "rv_dataDir r \<noteq> []" using ready by (simp_all add: dnsReady_def)
  obtain s1 where s1: "Remove (markerPath r) s = (None, s1)" and e1: "edited (markerPath r) None s s1"
    using Remove_quiet [OF q(1) assms(2) q(2)] by blast
  moreover have "node_at s1 (backupPath r) = node_at s (backupPath r)"
    using e1 own_paths(3) [OF q(3)] by (simp add: edited_def)
  ultimately show ?thesis using dnsReady_edited [OF ready e1] by (auto simp: deleteBackup_def edited_def)
qed


section \<open>IPv4 addresses\<close>

type_synonym ipv4 = "8 word \<times> 8 word \<times> 8 word \<times> 8 word"

definition ipv4String :: "ipv4 \<Rightarrow> string" where
  "ipv4String a =
     (case a of (p, q, r, s) \<Rightarrow> Join ''.'' (map (\<lambda>x. natDigits (unat x)) [p, q, r, s]))"

definition parseOctet :: "string \<Rightarrow> 8 word option" where
  "parseOctet s =
     (if s \<noteq> [] \<and> list_all isDigit s \<and> length s \<le> 3 \<and> (1 < length s \<longrightarrow> hd s \<noteq> CHR ''0'') \<and> digitsVal s \<le> 255
      then Some (of_nat (digitsVal s)) else None)"

definition ParseIPv4 :: "string \<Rightarrow> ipv4 option" where
  "ParseIPv4 s =
     (case map parseOctet (Split (CHR ''.'') s) of
        [Some p, Some q, Some r, Some t] \<Rightarrow> Some (p, q, r, t)
      | _ \<Rightarrow> None)"

definition ipv4Lib :: "ipv4 netip" where
  "ipv4Lib = \<lparr>ParseAddr = ParseIPv4, addrString = ipv4String\<rparr>"

lemma natDigits_length: "n < 10 ^ Suc k \<Longrightarrow> length (natDigits n) \<le> Suc k"
proof (induction k arbitrary: n)
  case 0
  then show ?case by (subst natDigits.simps) simp
next
  case (Suc k)
  show ?case
  proof (cases "n < 10")
    case True
    then show ?thesis by (subst natDigits.simps) simp
  next
    case False
    have "n div 10 < 10 ^ Suc k" using Suc.prems by (simp add: less_mult_imp_div_less)
    from Suc.IH [OF this] False show ?thesis by (subst natDigits.simps) simp
  qed
qed

lemma natDigits_hd: "0 < n \<Longrightarrow> hd (natDigits n) \<noteq> CHR ''0''"
proof (induction n rule: natDigits.induct)
  case (1 n)
  show ?case
  proof (cases "n < 10")
    case True
    have "(of_char (char_of (48 + n) :: char) :: nat) = 48 + n" by (rule of_char_digit [OF True])
    moreover have "(of_char (CHR ''0'') :: nat) = 48" by simp
    ultimately have "(char_of (48 + n) :: char) \<noteq> CHR ''0''" using 1 by (metis add_cancel_left_right less_not_refl)
    then show ?thesis using True by (subst natDigits.simps) simp
  next
    case False
    then have "hd (natDigits (n div 10)) \<noteq> CHR ''0''" using 1 by simp
    then show ?thesis using False by (subst natDigits.simps) simp
  qed
qed

lemma parseOctet_natDigits: "parseOctet (natDigits (unat x)) = Some (x :: 8 word)"
proof -
  have "unat x < 2 ^ 8" using unsigned_less [of x] by simp
  then have x: "unat x \<le> 255" by simp
  have len: "length (natDigits (unat x)) \<le> 3" using natDigits_length [of "unat x" 2] x by simp
  have "1 < length (natDigits (unat x)) \<longrightarrow> hd (natDigits (unat x)) \<noteq> CHR ''0''"
  proof (cases "unat x = 0")
    case True
    then show ?thesis by (subst natDigits.simps) simp
  next
    case False
    then show ?thesis using natDigits_hd by simp
  qed
  with x len show ?thesis by (simp add: parseOctet_def natDigits_digits digitsVal_natDigits)
qed

lemma dot_free: "CHR ''.'' \<notin> set (natDigits n)"
  using natDigits_digits [of n] by (auto simp: list_all_iff isDigit_def)

lemma ParseIPv4_String: "ParseIPv4 (ipv4String a) = Some a"
proof -
  obtain p q r t where a: "a = (p, q, r, t)" by (cases a)
  have "Split (CHR ''.'') (ipv4String a) = map (\<lambda>x. natDigits (unat x)) [p, q, r, t]"
    unfolding ipv4String_def a prod.case by (intro Split_Join) (auto simp: dot_free)
  then show ?thesis by (simp add: ParseIPv4_def parseOctet_natDigits a)
qed

lemma ipv4String_chars:
  assumes "c \<in> set (ipv4String a)"
  shows "isDigit c \<or> c = CHR ''.''"
proof -
  obtain p q r t where "a = (p, q, r, t)" by (cases a)
  then show ?thesis using assms natDigits_digits by (auto simp: ipv4String_def list_all_iff)
qed

interpretation ipv4: addr_lib ipv4Lib
proof
  fix a :: ipv4 and c :: char
  show "ParseAddr ipv4Lib (addrString ipv4Lib a) = Some a" by (simp add: ipv4Lib_def ParseIPv4_String)
  show "addrString ipv4Lib a \<noteq> []" by (cases a) (simp add: ipv4Lib_def ipv4String_def)
  show "c \<in> set (addrString ipv4Lib a) \<Longrightarrow> \<not> isSpace c \<and> (of_char c :: nat) < 128"
    using ipv4String_chars [of c a] by (auto simp: ipv4Lib_def isDigit_def isSpace_def)
qed

section \<open>The marker reads back\<close>

lemma decSlice_JStr: "decSlice decString (map JStr xs) = Some xs"
  by (induction xs) (simp_all add: decString_def)

lemma readBackup_file:
  assumes "quiet s" and "node_at s (markerPath r) = Some (File (Marshal (backupJson b)) m u)"
    and "list_all ascii (bk_PreviousServers b)" "ascii (bk_PreviousState b)" "ascii (bk_AppliedAt b)"
  shows "readBackup r s = Inr b"
proof -
  have f: "ReadFile (markerPath r) s = Inr (Marshal (backupJson b))" by (rule ReadFile_quiet [OF assms(1,2)])
  have "plain (backupJson b)" using assms(3-5) by (simp add: backupJson_def ascii_def list_all_iff)
  then have p: "parse (Marshal (backupJson b)) = Some (backupJson b)" by (rule parse_print(1))
  have low: "ToLower ''previous_servers'' = ''previous_servers''" "ToLower ''previous_state'' = ''previous_state''"
      "ToLower ''applied_at'' = ''applied_at''"
    by (simp_all add: ToLower_def lowerByte_def Let_def)
  have "decObject backupField \<lparr>bk_PreviousServers = [], bk_PreviousState = [], bk_AppliedAt = []\<rparr> (backupJson b) = Some b"
    by (simp add: decObject_def backupJson_def low backupField_def decSlice_JStr scalar_def decString_def)
  then show ?thesis by (simp add: readBackup_def f p)
qed

lemma readBackup_marker:
  assumes "applied r old m u new b s" and "list_all ascii (bk_PreviousServers b)"
    and "ascii (bk_PreviousState b)" and "ascii (bk_AppliedAt b)"
  shows "readBackup r s = Inr b"
  using assms readBackup_file by (auto simp: applied_def dnsReady_def)

text \<open>On a system without failures whose data directory is there, a marker that is written reads back, and is
  removed.\<close>

definition markerReady :: "resolver \<Rightarrow> os \<Rightarrow> bool" where
  "markerReady r s \<longleftrightarrow> quiet s \<and> rv_dataDir r \<noteq> [] \<and> isDirectory s (rv_dataDir r) \<and> \<not> isDirectory s (markerPath r)"

lemma writeBackup_reads:
  assumes "markerReady r s" and "addr_lib lib" and "bk_PreviousServers b = map (addrString lib) as"
    and "ascii (bk_PreviousState b)" "ascii (bk_AppliedAt b)"
  shows "\<exists>s1 s2. writeBackup r b s = (None, s1) \<and> readBackup r s1 = Inr b \<and>
     deleteBackup r s1 = (None, s2) \<and> node_at s2 (markerPath r) = None"
proof -
  have ready: "quiet s" "isDirectory s (Dir (markerPath r))" "\<not> isDirectory s (markerPath r)" "rv_dataDir r \<noteq> []"
    using assms(1) own_paths(5) [of r] isDirectory_Clean [of s "rv_dataDir r"] by (simp_all add: markerReady_def)
  obtain s1 m u where s1: "WriteFile (markerPath r) (Marshal (backupJson b)) mode600 s = (None, s1)"
      "edited (markerPath r) (Some (File (Marshal (backupJson b)) m u)) s s1"
    using WriteFile_quiet [OF ready(1-3), of "Marshal (backupJson b)" mode600]
    by (cases "node_at s (markerPath r)") (auto split: node.splits)
  then have e: "quiet s1" "node_at s1 (markerPath r) = Some (File (Marshal (backupJson b)) m u)" "isDirectory s1 (Dir (markerPath r))"
      "\<not> isDirectory s1 (markerPath r)"
    using ready by (simp_all add: edited_def)
  obtain s2 where s2: "Remove (markerPath r) s1 = (None, s2)" "edited (markerPath r) None s1 s2"
    using Remove_quiet [OF e(1) e(2) e(4)] by blast
  have "list_all ascii (bk_PreviousServers b)"
    using addr_lib.addr_plain [OF assms(2)] assms(3) by (auto simp: list_all_iff ascii_def)
  then have "readBackup r s1 = Inr b" using readBackup_file [OF e(1,2)] assms(4,5) by blast
  with s1(1) s2 show ?thesis by (simp add: writeBackup_def deleteBackup_def edited_def)
qed

lemma ascii_Itoa: "ascii (Itoa i)"
proof -
  have "ascii (natDigits n)" for n
    using natDigits_digits [of n] by (fastforce simp: ascii_def list_all_iff isDigit_def)
  then show ?thesis by (simp add: Itoa_def ascii_def)
qed


section \<open>Properties\<close>

context addr_lib
begin

lemma restore_after_apply:
  assumes "dnsReady r old m u s" and "servers \<noteq> []"
  shows "\<exists>r' s' s''. ApplyDNS lib now servers r s = (None, r', s') \<and> Current lib s' = Inr servers \<and>
     Restore lib fallback r' s' = (None, r'\<lparr>rv_backup := None\<rparr>, s'') \<and>
     node_at s'' resolvConfPath = Some (File old m u) \<and>
     node_at s'' (backupPath r) = None \<and> node_at s'' (markerPath r) = None"
proof -
  obtain b s' where a: "ApplyDNS lib now servers r s = (None, r\<lparr>rv_backup := Some b\<rparr>, s')"
    and ap: "applied r old m u (newContent lib servers) b s'"
    using ApplyDNS_quiet [OF assms refl] by blast
  let ?r = "r\<lparr>rv_backup := Some b\<rparr>"
  have p: "backupPath ?r = backupPath r" "markerPath ?r = markerPath r" by (simp_all add: backupPath_def markerPath_def)
  have "ReadFile resolvConfPath s' = Inr (newContent lib servers)"
    using ap ReadFile_quiet by (auto simp: applied_def dnsReady_def)
  note cur = servers_read_back [OF this assms(2)]
  have ap': "applied ?r old m u (newContent lib servers) b s'" using ap by (simp add: applied_def dnsReady_def p)
  let ?sv = "if validServers lib b = [] then [fallback] else validServers lib b"
  obtain s1 where s1: "restorePlatform lib ?r ?sv s' = (None, s1)" "dnsReady ?r old m u s1"
      "node_at s1 (backupPath ?r) = None" "node_at s1 (markerPath ?r) = node_at s' (markerPath ?r)"
    using restorePlatform_quiet [OF ap'] by blast
  obtain m' u' where "node_at s1 (markerPath ?r) = Some (File (Marshal (backupJson b)) m' u')"
    using ap' s1(4) by (auto simp: applied_def)
  from deleteBackup_quiet [OF s1(2) this] obtain s2 where s2: "deleteBackup ?r s1 = (None, s2)"
      "dnsReady ?r old m u s2" "node_at s2 (markerPath ?r) = None" "node_at s2 (backupPath ?r) = node_at s1 (backupPath ?r)"
    by blast
  have "Restore lib fallback ?r s' = (None, ?r\<lparr>rv_backup := None\<rparr>, s2)"
    using s1(1) s2(1) by (simp add: linux_ops Let_def)
  then show ?thesis using a cur s1(3) s2(2-4) p by (auto simp: dnsReady_def)
qed

lemma recover_after_apply:
  assumes "dnsReady r old m u s" and "servers \<noteq> []" and "rv_dataDir r2 = rv_dataDir r"
  shows "\<exists>r' s' s''. ApplyDNS lib now servers r s = (None, r', s') \<and> RecoverFromCrash lib r2 s' = (None, s'') \<and>
     node_at s'' (markerPath r) = None \<and>
     (case Current lib s of
        Inr _ \<Rightarrow> node_at s'' resolvConfPath = Some (File old m u) \<and> node_at s'' (backupPath r) = None
      | Inl _ \<Rightarrow> node_at s'' resolvConfPath = Some (File (newContent lib servers) m u) \<and>
          (\<exists>m' u'. node_at s'' (backupPath r) = Some (File old m' u')))"
proof -
  let ?cur = "case Current lib s of Inl e \<Rightarrow> [] | Inr as \<Rightarrow> as"
  let ?b = "\<lparr>bk_PreviousServers = map (addrString lib) ?cur, bk_PreviousState = newContent lib servers,
     bk_AppliedAt = Itoa (getCurrentUnixTime now)\<rparr>"
  obtain s' where a: "ApplyDNS lib now servers r s = (None, r\<lparr>rv_backup := Some ?b\<rparr>, s')"
    and ap: "applied r old m u (newContent lib servers) ?b s'"
    using ApplyDNS_quiet [OF assms(1,2) refl] by blast
  have p: "backupPath r2 = backupPath r" "markerPath r2 = markerPath r"
    using assms(3) by (simp_all add: backupPath_def markerPath_def)
  have ap': "applied r2 old m u (newContent lib servers) ?b s'" using ap assms(3) by (simp add: applied_def dnsReady_def p)
  have asc: "ascii (addrString lib x)" for x using addr_plain [of _ x] by (simp add: ascii_def)
  have rb: "readBackup r2 s' = Inr ?b"
    by (rule readBackup_marker [OF ap']) (simp_all add: list_all_iff asc ascii_newContent ascii_Itoa)
  have v: "validServers lib ?b = ?cur" by (rule validServers_printed) simp
  obtain m' u' where mk: "node_at s' (markerPath r2) = Some (File (Marshal (backupJson ?b)) m' u')"
    using ap' by (auto simp: applied_def)
  have ready: "dnsReady r2 (newContent lib servers) m u s'" using ap' by (simp add: applied_def)
  show ?thesis
  proof (cases "?cur = []")
    case True
    then have c: "\<exists>e. Current lib s = Inl e"
      by (auto simp: Current_def currentPlatform_def Let_def split: sum.splits if_splits)
    obtain s2 where s2: "deleteBackup r2 s' = (None, s2)" "dnsReady r2 (newContent lib servers) m u s2"
        "node_at s2 (markerPath r2) = None" "node_at s2 (backupPath r2) = node_at s' (backupPath r2)"
      using deleteBackup_quiet [OF ready mk] by blast
    obtain m1 u1 where "node_at s' (backupPath r2) = Some (File old m1 u1)" using ap' by (auto simp: applied_def)
    with s2(4) p have bk: "\<exists>m' u'. node_at s2 (backupPath r) = Some (File old m' u')" by auto
    have "RecoverFromCrash lib r2 s' = (None, s2)" using rb v True s2(1) by (simp add: linux_ops)
    then show ?thesis using a c s2(1-3) p bk by (auto simp: dnsReady_def)
  next
    case False
    then have c: "\<exists>as. Current lib s = Inr as" by (auto split: sum.splits)
    obtain s1 where s1: "restorePlatform lib r2 ?cur s' = (None, s1)" "dnsReady r2 old m u s1"
        "node_at s1 (backupPath r2) = None" "node_at s1 (markerPath r2) = node_at s' (markerPath r2)"
      using restorePlatform_quiet [OF ap'] by blast
    obtain s2 where s2: "deleteBackup r2 s1 = (None, s2)" "dnsReady r2 old m u s2"
        "node_at s2 (markerPath r2) = None" "node_at s2 (backupPath r2) = node_at s1 (backupPath r2)"
      using deleteBackup_quiet [OF s1(2)] mk s1(4) by metis
    have "RecoverFromCrash lib r2 s' = (None, s2)" using rb v False s1(1) s2(1) by (simp add: linux_ops)
    then show ?thesis using a c s1(3) s2 p by (auto simp: dnsReady_def)
  qed
qed

end

text \<open>C13: The DNS configuration is changed and restored exactly. On a system on which no call fails, with the data
  directory, \<open>/etc\<close> and \<open>resolv.conf\<close> in place and no directory where backup and marker go, and for addresses that are valid and without a
  zone, applying servers succeeds and the configuration then in force
  names exactly these servers, in order; restoring succeeds and gives \<open>resolv.conf\<close> back byte for byte
  with its mode and owner, and removes the backup and the marker.\<close>

theorem dns_restored:
  assumes "addr_lib lib" and "dnsReady r old m u s" and "servers \<noteq> []"
  shows "\<exists>r' s' s''. ApplyDNS lib now servers r s = (None, r', s') \<and> Current lib s' = Inr servers \<and>
     Restore lib fallback r' s' = (None, r'\<lparr>rv_backup := None\<rparr>, s'') \<and>
     node_at s'' resolvConfPath = Some (File old m u) \<and>
     node_at s'' (backupPath r) = None \<and> node_at s'' (markerPath r) = None"
  by (rule addr_lib.restore_after_apply [OF assms])

definition resolvOs :: os where
  "resolvOs = emptyOs\<lparr>nodes := [(''/etc'', Directory mode700 0), (''/v'', Directory mode700 0),
     (''/etc/resolv.conf'', File (''nameserver 9.9.9.9'' @ [CHR 0x0A]) mode600 0)]\<rparr>"

lemma resolvOs_ready:
  "dnsReady (NewSysResolver ''/v'') (''nameserver 9.9.9.9'' @ [CHR 0x0A]) mode600 0 resolvOs"
  by (simp add: dnsReady_def quiet_def resolvOs_def emptyOs_def NewSysResolver_def isDirectory_def node_at_def Clean_def
      cleanComps_def cleanStep_def resolvConfPath_def backupPath_def markerPath_def JoinPath_def)

theorem dns_restored_witness:
  "\<exists>r' s' s''. ApplyDNS ipv4Lib 0 [(8, 8, 8, 8)] (NewSysResolver ''/v'') resolvOs = (None, r', s') \<and>
     Current ipv4Lib s' = Inr [(8, 8, 8, 8)] \<and> Restore ipv4Lib (1, 1, 1, 1) r' s' = (None, r'\<lparr>rv_backup := None\<rparr>, s'') \<and>
     node_at s'' ''/etc/resolv.conf'' = Some (File (''nameserver 9.9.9.9'' @ [CHR 0x0A]) mode600 0)"
  using dns_restored [OF ipv4.addr_lib_axioms resolvOs_ready, of "[(8, 8, 8, 8)]" 0 "(1, 1, 1, 1)"]
  by (auto simp: resolvConfPath_def)

text \<open>C22: Recovery after a crash. On a system on which no call fails, with the data directory, \<open>/etc\<close> and \<open>resolv.conf\<close> in
  place and no directory where backup and marker go, and for addresses that are valid and without a zone: when the process dies after applying and a
  fresh resolver over the same data directory finds the marker,
  it removes the marker and puts the old \<open>resolv.conf\<close> back byte for byte, provided the old one named a server; with
  no server in it the marker is removed and the changed configuration stays, although the backup of the
  old one is still there with its full content.\<close>

theorem dns_recovered:
  assumes "addr_lib lib" and "dnsReady r old m u s" and "servers \<noteq> []" and "rv_dataDir r2 = rv_dataDir r"
  shows "\<exists>r' s' s''. ApplyDNS lib now servers r s = (None, r', s') \<and> RecoverFromCrash lib r2 s' = (None, s'') \<and>
     node_at s'' (markerPath r) = None \<and>
     (case Current lib s of
        Inr _ \<Rightarrow> node_at s'' resolvConfPath = Some (File old m u) \<and> node_at s'' (backupPath r) = None
      | Inl _ \<Rightarrow> node_at s'' resolvConfPath = Some (File (newContent lib servers) m u) \<and>
          (\<exists>m' u'. node_at s'' (backupPath r) = Some (File old m' u')))"
  by (rule addr_lib.recover_after_apply [OF assms])

text \<open>A configuration that names no server.\<close>

definition searchOs :: os where
  "searchOs = emptyOs\<lparr>nodes := [(''/etc'', Directory mode700 0), (''/v'', Directory mode700 0),
     (''/etc/resolv.conf'', File ''search corp'' mode600 0)]\<rparr>"

lemma searchOs_ready: "dnsReady (NewSysResolver ''/v'') ''search corp'' mode600 0 searchOs"
  by (simp add: dnsReady_def quiet_def searchOs_def emptyOs_def NewSysResolver_def isDirectory_def node_at_def Clean_def
      cleanComps_def cleanStep_def resolvConfPath_def backupPath_def markerPath_def JoinPath_def)

lemma searchOs_current: "\<exists>e. Current lib searchOs = Inl e"
  by (simp add: Current_def currentPlatform_def ReadFile_def searchOs_def emptyOs_def node_at_def Clean_def cleanComps_def
      cleanStep_def resolvConfPath_def nameserverLine_def TrimSpace_def HasPrefix_def isSpace_def Let_def)

theorem dns_recovered_witness:
  "(\<exists>r' s' s''. ApplyDNS ipv4Lib 0 [(8, 8, 8, 8)] (NewSysResolver ''/v'') resolvOs = (None, r', s') \<and>
     RecoverFromCrash ipv4Lib (NewSysResolver ''/v'') s' = (None, s'') \<and>
     node_at s'' (markerPath (NewSysResolver ''/v'')) = None) \<and>
   (\<exists>r' s' s'' m u. ApplyDNS ipv4Lib 0 [(8, 8, 8, 8)] (NewSysResolver ''/v'') searchOs = (None, r', s') \<and>
     RecoverFromCrash ipv4Lib (NewSysResolver ''/v'') s' = (None, s'') \<and>
     node_at s'' (markerPath (NewSysResolver ''/v'')) = None \<and>
     node_at s'' resolvConfPath = Some (File (newContent ipv4Lib [(8, 8, 8, 8)]) mode600 0) \<and>
     node_at s'' (backupPath (NewSysResolver ''/v'')) = Some (File ''search corp'' m u))"
proof
  show "\<exists>r' s' s''. ApplyDNS ipv4Lib 0 [(8, 8, 8, 8)] (NewSysResolver ''/v'') resolvOs = (None, r', s') \<and>
     RecoverFromCrash ipv4Lib (NewSysResolver ''/v'') s' = (None, s'') \<and>
     node_at s'' (markerPath (NewSysResolver ''/v'')) = None"
    using dns_recovered [OF ipv4.addr_lib_axioms resolvOs_ready, of "[(8, 8, 8, 8)]" "NewSysResolver ''/v''" 0] by auto
  obtain e where "Current ipv4Lib searchOs = Inl e" using searchOs_current by blast
  then show "\<exists>r' s' s'' m u. ApplyDNS ipv4Lib 0 [(8, 8, 8, 8)] (NewSysResolver ''/v'') searchOs = (None, r', s') \<and>
     RecoverFromCrash ipv4Lib (NewSysResolver ''/v'') s' = (None, s'') \<and>
     node_at s'' (markerPath (NewSysResolver ''/v'')) = None \<and>
     node_at s'' resolvConfPath = Some (File (newContent ipv4Lib [(8, 8, 8, 8)]) mode600 0) \<and>
     node_at s'' (backupPath (NewSysResolver ''/v'')) = Some (File ''search corp'' m u)"
    using dns_recovered [OF ipv4.addr_lib_axioms searchOs_ready, of "[(8, 8, 8, 8)]" "NewSysResolver ''/v''" 0] by auto
qed

end
