(* ===== verification/Squawk.thy ===== *)
theory Squawk
  imports Resolver World
begin

text \<open>
  The Squawk module (\<open>internal/modules/squawk/module.go\<close>): a DNS-over-HTTPS client with a local forwarder
  and management of the system resolver. The DNS client, the forwarder, the licence validator and the
  YAML decoder are packages outside the repository; they are the record \<open>squawkDeps\<close> of the functions the
  module calls. Of its metrics the module only ever sets two gauges. A panic is the error \<open>squawkPanic\<close>.
\<close>

section \<open>Types\<close>

record SquawkConfig =
  doh_ServerURL :: string
  doh_VerifyTLS :: bool
  doh_AuthToken :: string
  doh_ClientCert :: string
  doh_ClientKey :: string
  doh_CACert :: string
  fwd_Enabled :: bool
  fwd_UDPAddr :: string
  fwd_TCPAddr :: string
  dns_Manage :: bool
  cache_Enabled :: bool

record DohConfig =
  dc_ServerURL :: string
  dc_AuthToken :: string
  dc_VerifySSL :: bool
  dc_ClientCert :: string
  dc_ClientKey :: string
  dc_CaCert :: string

record FwdConfig =
  fc_UDPAddress :: string
  fc_TCPAddress :: string
  fc_ListenUDP :: bool
  fc_ListenTCP :: bool

record SquawkMetrics =
  mt_forwarderUp :: nat
  mt_dnsApplied :: nat

record HealthProbe =
  hp_Level :: HealthLevel
  hp_Message :: string
  hp_CheckedAt :: time

text \<open>An answer to a DNS query: its text under \<open>%v\<close> and its JSON form.\<close>

record dnsAnswer =
  an_text :: string
  an_json :: json

record ('a, 'c, 'f, 'w) squawkDeps =
  sd_netip :: "'a netip"
  sd_time :: timeCodec
  sd_yaml :: "bytes \<Rightarrow> SquawkConfig \<Rightarrow> goerr + SquawkConfig"
  sd_NewDoHClient :: "DohConfig \<Rightarrow> 'w \<Rightarrow> (goerr + 'c) \<times> 'w"
  sd_Query :: "'c \<Rightarrow> string \<Rightarrow> string \<Rightarrow> 'w \<Rightarrow> (goerr + dnsAnswer) \<times> 'w"
  sd_CloseDoH :: "'c \<Rightarrow> 'w \<Rightarrow> goerr option \<times> 'w"
  sd_NewForwarder :: "'c \<Rightarrow> FwdConfig \<Rightarrow> 'f"
  sd_FwdStart :: "'f \<Rightarrow> 'w \<Rightarrow> goerr option \<times> 'w"
  sd_FwdStop :: "'f \<Rightarrow> 'w \<Rightarrow> goerr option \<times> 'w"
  sd_FwdIsRunning :: "'f \<Rightarrow> 'w \<Rightarrow> bool"
  sd_LicenseIsValid :: "string \<Rightarrow> 'w \<Rightarrow> (goerr + bool) \<times> 'w"
  sd_MustRegister :: "string list \<Rightarrow> 'w \<Rightarrow> bool \<times> 'w"

record ('c, 'f, 'w) SquawkModule =
  sq_host :: "'w HostServices option"
  sq_dohClient :: "'c option"
  sq_forwarder :: "'f option"
  sq_resolver :: resolver
  sq_config :: "SquawkConfig option"
  sq_running :: bool
  sq_metrics :: "SquawkMetrics option"
  sq_lastHealth :: HealthProbe

definition squawkPanic :: "string \<Rightarrow> goerr" where
  "squawkPanic t = Sentinel (''panic: '' @ t)"

definition squawk_New :: "('c, 'f, 'w) SquawkModule" where
  "squawk_New =
     \<lparr>sq_host = None, sq_dohClient = None, sq_forwarder = None, sq_resolver = NewSysResolver [],
      sq_config = None, sq_running = False, sq_metrics = None,
      sq_lastHealth = \<lparr>hp_Level = 0, hp_Message = [], hp_CheckedAt = zeroTime\<rparr>\<rparr>"

definition squawk_Info :: "('c, 'f, 'w) SquawkModule \<Rightarrow> ModuleInfo" where
  "squawk_Info m =
     \<lparr>mi_Name = ''squawk'', mi_Version = ''1.0.0'',
      mi_Description = ''DNS-over-HTTPS endpoint client with system DNS management'', mi_LicenseFeature = []\<rparr>"

section \<open>Lifecycle\<close>

definition squawkDefaults :: SquawkConfig where
  "squawkDefaults =
     \<lparr>doh_ServerURL = ''https://127.0.0.1:443/dns-query'', doh_VerifyTLS = True, doh_AuthToken = [],
      doh_ClientCert = [], doh_ClientKey = [], doh_CACert = [],
      fwd_Enabled = False, fwd_UDPAddr = [], fwd_TCPAddr = [], dns_Manage = False, cache_Enabled = True\<rparr>"

definition metricNames :: "string list" where
  "metricNames = [''squawk_queries_total'', ''squawk_forwarder_up'', ''squawk_cache_entries'',
     ''squawk_dns_applied'', ''squawk_health_status'']"

definition registerMetrics ::
  "('a, 'c, 'f, 'w) squawkDeps \<Rightarrow> ('c, 'f, 'w) SquawkModule \<Rightarrow> 'w \<Rightarrow>
   goerr option \<times> ('c, 'f, 'w) SquawkModule \<times> 'w" where
  "registerMetrics D m w =
     (let m' = m\<lparr>sq_metrics := Some \<lparr>mt_forwarderUp = 0, mt_dnsApplied = 0\<rparr>\<rparr>
      in case sd_MustRegister D metricNames w of
           (True, w') \<Rightarrow> (None, m', w')
         | (False, w') \<Rightarrow> (Some (squawkPanic ''duplicate metrics collector registration attempted''), m', w'))"

definition authToken ::
  "'w HostServices \<Rightarrow> SquawkConfig \<Rightarrow> 'w \<Rightarrow> SquawkConfig \<times> 'w" where
  "authToken host cfg w =
     (if doh_AuthToken cfg = [] then
        (case h_SecretsGet host ''auth_token'' w of
           (Inr tok, w') \<Rightarrow> (cfg\<lparr>doh_AuthToken := tok\<rparr>, w')
         | (Inl e, w') \<Rightarrow> (cfg, w'))
      else (cfg, w))"

definition squawk_Init ::
  "('a, 'c, 'f, 'x world_scheme) squawkDeps \<Rightarrow> 'x world_scheme HostServices option \<Rightarrow>
   ('c, 'f, 'x world_scheme) SquawkModule \<Rightarrow> 'x world_scheme \<Rightarrow>
   goerr option \<times> ('c, 'f, 'x world_scheme) SquawkModule \<times> 'x world_scheme" where
  "squawk_Init D hostOpt m w =
     (case hostOpt of None \<Rightarrow> (Some (squawkPanic ''nil host''), m\<lparr>sq_host := None\<rparr>, w)
      | Some host \<Rightarrow>
          let r = NewSysResolver (h_DataDir host);
              m1 = m\<lparr>sq_host := Some host, sq_resolver := r\<rparr>;
              (_, w1) = on_os (RecoverFromCrash (sd_netip D) r) w
          in case (if h_Config host = [] then Inr squawkDefaults else sd_yaml D (h_Config host) squawkDefaults) of
               Inl e \<Rightarrow> (Some (Wrapf ''parse squawk config: '' e []), m1, w1)
             | Inr cfg0 \<Rightarrow>
                 let (cfg, w2) = authToken host cfg0 w1;
                     m2 = m1\<lparr>sq_config := Some cfg\<rparr>;
                     dohConfig = \<lparr>dc_ServerURL = doh_ServerURL cfg, dc_AuthToken = doh_AuthToken cfg,
                       dc_VerifySSL = doh_VerifyTLS cfg, dc_ClientCert = doh_ClientCert cfg,
                       dc_ClientKey = doh_ClientKey cfg, dc_CaCert = doh_CACert cfg\<rparr>
                 in case sd_NewDoHClient D dohConfig w2 of
                      (Inl e, w3) \<Rightarrow> (Some (Wrapf ''create DoH client: '' e []), m2\<lparr>sq_dohClient := None\<rparr>, w3)
                    | (Inr c, w3) \<Rightarrow>
                        let m3 = m2\<lparr>sq_dohClient := Some c\<rparr>;
                            m4 = (if fwd_Enabled cfg then
                                    m3\<lparr>sq_forwarder := Some (sd_NewForwarder D c
                                      \<lparr>fc_UDPAddress = fwd_UDPAddr cfg, fc_TCPAddress = fwd_TCPAddr cfg,
                                       fc_ListenUDP = True, fc_ListenTCP = True\<rparr>)\<rparr>
                                  else m3)
                        in registerMetrics D m4 w3)"

text \<open>Setting a gauge; with no metrics it is a nil dereference.\<close>

definition setGauge ::
  "(SquawkMetrics \<Rightarrow> SquawkMetrics) \<Rightarrow> ('c, 'f, 'w) SquawkModule \<Rightarrow> ('c, 'f, 'w) SquawkModule option" where
  "setGauge f m = map_option (\<lambda>g. m\<lparr>sq_metrics := Some (f g)\<rparr>) (sq_metrics m)"

definition applySystemDNS ::
  "('a, 'c, 'f, 'x world_scheme) squawkDeps \<Rightarrow> ('c, 'f, 'x world_scheme) SquawkModule \<Rightarrow> 'x world_scheme \<Rightarrow>
   goerr option \<times> ('c, 'f, 'x world_scheme) SquawkModule \<times> 'x world_scheme" where
  "applySystemDNS D m w =
     (case sq_config m of None \<Rightarrow> (Some (squawkPanic ''nil config''), m, w)
      | Some cfg \<Rightarrow>
          if \<not> dns_Manage cfg then (None, m\<lparr>sq_running := True\<rparr>, w)
          else case ParseAddr (sd_netip D) ''8.8.8.8'' of
                 None \<Rightarrow> (Some (squawkPanic ''MustParseAddr''), m, w)
               | Some a \<Rightarrow>
                   (case ApplyDNS (sd_netip D) (wnow w) [a] (sq_resolver m) (wos w) of
                      (Some e, r, s) \<Rightarrow> (None, m\<lparr>sq_resolver := r, sq_running := True\<rparr>, w\<lparr>wos := s\<rparr>)
                    | (None, r, s) \<Rightarrow>
                        (case setGauge (\<lambda>g. g\<lparr>mt_dnsApplied := 1\<rparr>) (m\<lparr>sq_resolver := r\<rparr>) of
                           None \<Rightarrow> (Some (squawkPanic ''nil metrics''), m\<lparr>sq_resolver := r\<rparr>, w\<lparr>wos := s\<rparr>)
                         | Some m' \<Rightarrow> (None, m'\<lparr>sq_running := True\<rparr>, w\<lparr>wos := s\<rparr>))))"

definition squawk_Start ::
  "('a, 'c, 'f, 'x world_scheme) squawkDeps \<Rightarrow> ctx \<Rightarrow> ('c, 'f, 'x world_scheme) SquawkModule \<Rightarrow> 'x world_scheme \<Rightarrow>
   goerr option \<times> ('c, 'f, 'x world_scheme) SquawkModule \<times> 'x world_scheme" where
  "squawk_Start D ctx m w =
     (if sq_running m then (None, m, w)
      else case sq_forwarder m of None \<Rightarrow> applySystemDNS D m w
           | Some f \<Rightarrow>
               (case sd_FwdStart D f w of
                  (Some e, w1) \<Rightarrow> (Some (Wrapf ''start forwarder: '' e []), m, w1)
                | (None, w1) \<Rightarrow>
                    (case setGauge (\<lambda>g. g\<lparr>mt_forwarderUp := 1\<rparr>) m of
                       None \<Rightarrow> (Some (squawkPanic ''nil metrics''), m, w1)
                     | Some m' \<Rightarrow> applySystemDNS D m' w1)))"

definition stopForwarder ::
  "('a, 'c, 'f, 'w) squawkDeps \<Rightarrow> ('c, 'f, 'w) SquawkModule \<Rightarrow> 'w \<Rightarrow>
   string list \<times> ('c, 'f, 'w) SquawkModule \<times> 'w" where
  "stopForwarder D m w =
     (case sq_forwarder m of None \<Rightarrow> ([], m, w)
      | Some f \<Rightarrow>
          (case sd_FwdStop D f w of (e, w1) \<Rightarrow>
             ((case e of None \<Rightarrow> [] | Some x \<Rightarrow> [''forwarder: '' @ Error x]),
              (case setGauge (\<lambda>g. g\<lparr>mt_forwarderUp := 0\<rparr>) m of None \<Rightarrow> m | Some m' \<Rightarrow> m'), w1)))"

definition restoreSystemDNS ::
  "('a, 'c, 'f, 'x world_scheme) squawkDeps \<Rightarrow> SquawkConfig \<Rightarrow> ('c, 'f, 'x world_scheme) SquawkModule \<Rightarrow> 'x world_scheme \<Rightarrow>
   string list \<times> ('c, 'f, 'x world_scheme) SquawkModule \<times> 'x world_scheme" where
  "restoreSystemDNS D cfg m w =
     (if \<not> dns_Manage cfg then ([], m, w)
      else case ParseAddr (sd_netip D) ''1.1.1.1'' of
             None \<Rightarrow> ([''resolver: MustParseAddr''], m, w)
           | Some fallback \<Rightarrow>
               (case Restore (sd_netip D) fallback (sq_resolver m) (wos w) of (e, r, s) \<Rightarrow>
                  ((case e of None \<Rightarrow> [] | Some x \<Rightarrow> [''resolver: '' @ Error x]),
                   (case setGauge (\<lambda>g. g\<lparr>mt_dnsApplied := 0\<rparr>) (m\<lparr>sq_resolver := r\<rparr>) of
                      None \<Rightarrow> m\<lparr>sq_resolver := r\<rparr> | Some m' \<Rightarrow> m'),
                   w\<lparr>wos := s\<rparr>)))"

definition squawk_Stop ::
  "('a, 'c, 'f, 'x world_scheme) squawkDeps \<Rightarrow> ('c, 'f, 'x world_scheme) SquawkModule \<Rightarrow> 'x world_scheme \<Rightarrow>
   goerr option \<times> ('c, 'f, 'x world_scheme) SquawkModule \<times> 'x world_scheme" where
  "squawk_Stop D m w =
     (if \<not> sq_running m then (None, m, w)
      else case sq_config m of None \<Rightarrow> (Some (squawkPanic ''nil config''), m, w)
           | Some cfg \<Rightarrow>
               (case stopForwarder D m w of (errs1, m1, w1) \<Rightarrow>
               (case restoreSystemDNS D cfg m1 w1 of (errs2, m2, w2) \<Rightarrow>
                  let w3 = (case sq_dohClient m2 of None \<Rightarrow> w2 | Some c \<Rightarrow> snd (sd_CloseDoH D c w2));
                      errs = errs1 @ errs2
                  in (if errs = [] then None else Some (Errorf (''stop errors: '' @ Join ''; '' errs)),
                      m2\<lparr>sq_running := False\<rparr>, w3))))"


section \<open>Status, health and commands\<close>

definition squawk_Status ::
  "('a, 'c, 'f, 'x world_scheme) squawkDeps \<Rightarrow> ('c, 'f, 'x world_scheme) SquawkModule \<Rightarrow> 'x world_scheme \<Rightarrow>
   Status \<times> goerr option" where
  "squawk_Status D m w =
     (case sq_config m of None \<Rightarrow> (\<lparr>st_State = [], st_Detail = []\<rparr>, Some (squawkPanic ''nil config''))
      | Some cfg \<Rightarrow>
          let d0 = [(''server'', doh_ServerURL cfg)];
              d1 = (case sq_forwarder m of None \<Rightarrow> d0 | Some _ \<Rightarrow> put ''forwarder'' ''listening :53'' d0);
              d2 = (case Current (sd_netip D) (wos w) of
                      Inr (a # _) \<Rightarrow> put ''dns_servers'' (addrString (sd_netip D) a) d1
                    | _ \<Rightarrow> d1)
          in (\<lparr>st_State = (if sq_running m then StateRunning else StateStopped), st_Detail = d2\<rparr>, None))"

definition squawk_Health ::
  "('a, 'c, 'f, 'x world_scheme) squawkDeps \<Rightarrow> ('c, 'f, 'x world_scheme) SquawkModule \<Rightarrow> 'x world_scheme \<Rightarrow>
   HealthReport \<times> ('c, 'f, 'x world_scheme) SquawkModule \<times> 'x world_scheme" where
  "squawk_Health D m w =
     (let h = sq_lastHealth m
      in if wnow w - hp_CheckedAt h < 5 * second then
           (\<lparr>hr_Level = hp_Level h, hr_Message = hp_Message h, hr_CheckedAt = hp_CheckedAt h\<rparr>, m, w)
         else
           let (level, message, w') =
                 (case sq_dohClient m of None \<Rightarrow> (Unhealthy, ''DoH client not initialized'', w)
                  | Some c \<Rightarrow>
                      (case sd_Query D c ''google.com'' ''A'' w of
                         (Inl e, w1) \<Rightarrow> (Degraded, ''query error: '' @ Error e, w1)
                       | (Inr _, w1) \<Rightarrow> (Healthy, ''OK'', w1)))
           in (\<lparr>hr_Level = level, hr_Message = message, hr_CheckedAt = wnow w'\<rparr>,
               m\<lparr>sq_lastHealth := \<lparr>hp_Level = level, hp_Message = message, hp_CheckedAt = wnow w'\<rparr>\<rparr>, w'))"

definition squawk_Commands :: "('c, 'f, 'w) SquawkModule \<Rightarrow> CommandSpec list" where
  "squawk_Commands m =
     [CommandSpec ''query'' ''query <domain> [--type TYPE]'' ''Query a DNS record''
        [\<lparr>fl_Name = ''type'', fl_Shorthand = ''t'', fl_Usage = ''DNS record type (A, AAAA, MX, TXT, etc.)'',
          fl_Default = ''A'', fl_Type = FlagString\<rparr>] [] False 1 1,
      CommandSpec ''forward'' ''forward'' ''Manage DNS forwarding'' []
        [CommandSpec ''status'' ''status'' ''Show forwarder status'' [] [] False 0 0,
         CommandSpec ''start'' ''start'' ''Start DNS forwarding'' [] [] True 0 0,
         CommandSpec ''stop'' ''stop'' ''Stop DNS forwarding'' [] [] True 0 0] False 0 0,
      CommandSpec ''config'' ''config show'' ''Show current configuration'' [] [] False 0 1,
      CommandSpec ''cache'' ''cache'' ''Manage DNS cache'' []
        [CommandSpec ''stats'' ''stats'' ''Show cache statistics'' [] [] False 0 0,
         CommandSpec ''flush'' ''flush'' ''Flush the DNS cache'' [] [] True 0 0] False 0 0,
      CommandSpec ''license'' ''license status'' ''Check license status'' [] [] False 0 1,
      CommandSpec ''time'' ''time'' ''Check NTP/NTS status'' [] [] False 0 0]"

definition textResult :: "string \<Rightarrow> 64 word \<Rightarrow> Result option \<times> goerr option" where
  "textResult out code = (Some \<lparr>rs_Output = out, rs_JSON = [], rs_ExitCode = code\<rparr>, None)"

definition jsonResult :: "string \<Rightarrow> json \<Rightarrow> Result option \<times> goerr option" where
  "jsonResult out j = (Some \<lparr>rs_Output = out, rs_JSON = Marshal j, rs_ExitCode = 0\<rparr>, None)"

definition handleQuery ::
  "('a, 'c, 'f, 'x world_scheme) squawkDeps \<Rightarrow> (string, string) gomap \<Rightarrow> string list \<Rightarrow>
   ('c, 'f, 'x world_scheme) SquawkModule \<Rightarrow> 'x world_scheme \<Rightarrow> (Result option \<times> goerr option) \<times> 'x world_scheme" where
  "handleQuery D flags args m w =
     (case args of [] \<Rightarrow> (textResult ''Usage: squawk query <domain> [--type TYPE]'' 1, w)
      | domain # _ \<Rightarrow>
          let t = (case get flags ''type'' of None \<Rightarrow> [] | Some v \<Rightarrow> v);
              recordType = (if t = [] then ''A'' else t)
          in case sq_dohClient m of None \<Rightarrow> ((None, Some (squawkPanic ''nil client'')), w)
             | Some c \<Rightarrow>
                 (case sd_Query D c domain recordType w of
                    (Inl e, w1) \<Rightarrow> (textResult (''Query failed: '' @ Error e) 1, w1)
                  | (Inr a, w1) \<Rightarrow>
                      (jsonResult (domain @ '' '' @ recordType @ '': '' @ an_text a)
                         (JObj [(''domain'', JStr domain), (''queried_at'', JStr (formatTime (sd_time D) (wnow w1))),
                                (''record_type'', JStr recordType), (''result'', an_json a)]), w1)))"

definition handleForward ::
  "('a, 'c, 'f, 'w) squawkDeps \<Rightarrow> string list \<Rightarrow> ('c, 'f, 'w) SquawkModule \<Rightarrow> 'w \<Rightarrow>
   (Result option \<times> goerr option) \<times> 'w" where
  "handleForward D path m w =
     (case path of
        _ # subcmd # _ \<Rightarrow>
          if subcmd = ''status'' then
            let status = (case sq_forwarder m of None \<Rightarrow> ''stopped''
                          | Some f \<Rightarrow> (if sd_FwdIsRunning D f w then ''running'' else ''stopped''))
            in (jsonResult (''Forwarder: '' @ status) (JObj [(''status'', JStr status)]), w)
          else if subcmd = ''start'' then
            (case sq_forwarder m of None \<Rightarrow> (textResult ''Forwarder not configured'' 1, w)
             | Some f \<Rightarrow>
                 (case sd_FwdStart D f w of
                    (Some e, w1) \<Rightarrow> (textResult (''Failed to start forwarder: '' @ Error e) 1, w1)
                  | (None, w1) \<Rightarrow> (textResult ''Forwarder started'' 0, w1)))
          else if subcmd = ''stop'' then
            (case sq_forwarder m of None \<Rightarrow> (textResult ''Forwarder not configured'' 1, w)
             | Some f \<Rightarrow>
                 (case sd_FwdStop D f w of
                    (Some e, w1) \<Rightarrow> (textResult (''Failed to stop forwarder: '' @ Error e) 1, w1)
                  | (None, w1) \<Rightarrow> (textResult ''Forwarder stopped'' 0, w1)))
          else (textResult (''Unknown subcommand: '' @ subcmd) 1, w)
      | _ \<Rightarrow> (textResult ''Usage: squawk forward {status|start|stop}'' 1, w))"

definition maskSecret :: "string \<Rightarrow> string" where
  "maskSecret s =
     (if s = [] then [] else if length s \<le> 4 then ''****'' else ''****'' @ drop (length s - 4) s)"

definition configJson :: "SquawkConfig \<Rightarrow> json" where
  "configJson c =
     JObj [(''DOH'', JObj [(''ServerURL'', JStr (doh_ServerURL c)), (''VerifyTLS'', JBool (doh_VerifyTLS c)),
              (''AuthToken'', JStr (doh_AuthToken c)), (''ClientCert'', JStr (doh_ClientCert c)),
              (''ClientKey'', JStr (doh_ClientKey c)), (''CACert'', JStr (doh_CACert c))]),
           (''Forwarder'', JObj [(''Enabled'', JBool (fwd_Enabled c)), (''UDPAddr'', JStr (fwd_UDPAddr c)),
              (''TCPAddr'', JStr (fwd_TCPAddr c))]),
           (''SystemDNS'', JObj [(''Manage'', JBool (dns_Manage c))]),
           (''Cache'', JObj [(''Enabled'', JBool (cache_Enabled c))])]"

definition handleConfig :: "('c, 'f, 'w) SquawkModule \<Rightarrow> Result option \<times> goerr option" where
  "handleConfig m =
     (case sq_config m of None \<Rightarrow> (None, Some (squawkPanic ''nil config''))
      | Some cfg \<Rightarrow>
          let jsonData = MarshalIndent (configJson (cfg\<lparr>doh_AuthToken := maskSecret (doh_AuthToken cfg)\<rparr>))
          in (Some \<lparr>rs_Output = jsonData, rs_JSON = jsonData, rs_ExitCode = 0\<rparr>, None))"

definition handleCache :: "string list \<Rightarrow> ('c, 'f, 'w) SquawkModule \<Rightarrow> Result option \<times> goerr option" where
  "handleCache path m =
     (case path of
        _ # subcmd # _ \<Rightarrow>
          if subcmd = ''stats'' then
            (case sq_config m of None \<Rightarrow> (None, Some (squawkPanic ''nil config''))
             | Some cfg \<Rightarrow>
                 jsonResult (''Cache stats: cache '' @ (if cache_Enabled cfg then ''enabled'' else ''disabled''))
                   (JObj [(''cache_enabled'', JBool (cache_Enabled cfg)),
                          (''note'', JStr ''Cache statistics from DoH client not currently exposed'')]))
          else if subcmd = ''flush'' then
            jsonResult ''Cache flushed''
              (JObj [(''status'', JStr ''cache flushed (client-level cache not directly accessible)'')])
          else textResult (''Unknown subcommand: '' @ subcmd) 1
      | _ \<Rightarrow> textResult ''Usage: squawk cache {stats|flush}'' 1)"

definition handleLicense ::
  "('a, 'c, 'f, 'x world_scheme) squawkDeps \<Rightarrow> ('c, 'f, 'x world_scheme) SquawkModule \<Rightarrow> 'x world_scheme \<Rightarrow>
   (Result option \<times> goerr option) \<times> 'x world_scheme" where
  "handleLicense D m w =
     (case sq_host m of None \<Rightarrow> ((None, Some (squawkPanic ''nil host'')), w)
      | Some host \<Rightarrow>
          let (tok, w1) = (case h_SecretsGet host ''user_token'' w of (Inr t, w') \<Rightarrow> (t, w') | (Inl e, w') \<Rightarrow> ([], w'));
              (valid, w2) = sd_LicenseIsValid D tok w1;
              status = (case valid of Inl e \<Rightarrow> ''error: '' @ Error e
                        | Inr b \<Rightarrow> (if b then ''valid'' else ''invalid or expired''))
          in (jsonResult (''License status: '' @ status)
                (JObj [(''checked_at'', JStr (formatTime (sd_time D) (wnow w2))), (''feature_key'', JStr ''penguin.squawk''),
                       (''status'', JStr status)]), w2))"

definition handleTime :: "('a, 'c, 'f, 'w) squawkDeps \<Rightarrow> time \<Rightarrow> Result option \<times> goerr option" where
  "handleTime D now =
     jsonResult ''NTP/NTS status: not configured''
       (JObj [(''checked_at'', JStr (formatTime (sd_time D) now)),
              (''note'', JStr ''NTP/NTS not currently exposed by squawk-client-go at module level''),
              (''ntp_enabled'', JBool False), (''nts_enabled'', JBool False)])"

definition squawk_Dispatch ::
  "('a, 'c, 'f, 'x world_scheme) squawkDeps \<Rightarrow> string list \<Rightarrow> (string, string) gomap \<Rightarrow> string list \<Rightarrow>
   ('c, 'f, 'x world_scheme) SquawkModule \<Rightarrow> 'x world_scheme \<Rightarrow>
   (Result option \<times> goerr option) \<times> ('c, 'f, 'x world_scheme) SquawkModule \<times> 'x world_scheme" where
  "squawk_Dispatch D path flags args m w =
     (case path of [] \<Rightarrow> (textResult ''squawk: no command specified'' 1, m, w)
      | cmd # _ \<Rightarrow>
          if cmd = ''query'' then (case handleQuery D flags args m w of (r, w1) \<Rightarrow> (r, m, w1))
          else if cmd = ''forward'' then (case handleForward D path m w of (r, w1) \<Rightarrow> (r, m, w1))
          else if cmd = ''config'' then (handleConfig m, m, w)
          else if cmd = ''cache'' then (handleCache path m, m, w)
          else if cmd = ''license'' then (case handleLicense D m w of (r, w1) \<Rightarrow> (r, m, w1))
          else if cmd = ''time'' then (handleTime D (wnow w), m, w)
          else (textResult (''squawk: unknown command '' @ CHR 0x27 # cmd @ [CHR 0x27]) 1, m, w))"

text \<open>The schema; \<open>json.Marshal\<close> prints the keys of a map in order.\<close>

definition schemaProp :: "string \<Rightarrow> string \<Rightarrow> json option \<Rightarrow> json" where
  "schemaProp ty desc def =
     JObj ((case def of None \<Rightarrow> [] | Some d \<Rightarrow> [(''default'', d)]) @ [(''description'', JStr desc), (''type'', JStr ty)])"

definition schemaObject :: "(string \<times> json) list \<Rightarrow> json" where
  "schemaObject ps = JObj [(''properties'', JObj ps), (''type'', JStr ''object'')]"

definition squawk_ConfigSchema :: "('c, 'f, 'w) SquawkModule \<Rightarrow> bytes" where
  "squawk_ConfigSchema m =
     Marshal (JObj [(''$schema'', JStr ''http://json-schema.org/draft-07/schema#''),
       (''properties'', JObj [
         (''cache'', schemaObject [(''enabled'', schemaProp ''boolean'' ''Enable DNS result caching'' (Some (JBool True)))]),
         (''doh'', schemaObject [
           (''auth_token'', schemaProp ''string'' ''Authentication token (prefer secrets)'' None),
           (''ca_cert'', schemaProp ''string'' ''CA certificate path for server verification'' None),
           (''client_cert'', schemaProp ''string'' ''mTLS client certificate path'' None),
           (''client_key'', schemaProp ''string'' ''mTLS client key path'' None),
           (''server_url'', schemaProp ''string'' ''DoH server URL'' (Some (JStr ''https://dns.penguintech.io/dns-query''))),
           (''verify_tls'', schemaProp ''boolean'' ''Verify TLS certificate'' (Some (JBool True)))]),
         (''forwarder'', schemaObject [
           (''enabled'', schemaProp ''boolean'' ''Enable local DNS forwarding on :53'' (Some (JBool False))),
           (''tcp_addr'', schemaProp ''string'' ''TCP listen address'' (Some (JStr ''127.0.0.1:53''))),
           (''udp_addr'', schemaProp ''string'' ''UDP listen address'' (Some (JStr ''127.0.0.1:53'')))]),
         (''system_dns'', schemaObject [
           (''manage'', schemaProp ''boolean'' ''Manage system DNS resolver'' (Some (JBool False)))])]),
       (''type'', JStr ''object'')])"

definition squawkModule ::
  "('a, 'c, 'f, 'x world_scheme) squawkDeps \<Rightarrow> (('c, 'f, 'x world_scheme) SquawkModule, 'x world_scheme) Module" where
  "squawkModule D =
     \<lparr>m_Info = squawk_Info, m_Init = squawk_Init D, m_Start = squawk_Start D, m_Stop = squawk_Stop D,
      m_Status = squawk_Status D, m_Health = squawk_Health D, m_Commands = squawk_Commands,
      m_Dispatch = squawk_Dispatch D, m_ConfigSchema = squawk_ConfigSchema\<rparr>"


section \<open>Properties\<close>

text \<open>The module's packages leave the resolver's files alone, and its forwarder starts and stops.\<close>

definition tameDeps :: "('a, 'c, 'f, 'x world_scheme) squawkDeps \<Rightarrow> bool" where
  "tameDeps D \<longleftrightarrow>
     (\<forall>f w. fst (sd_FwdStart D f w) = None \<and> wos (snd (sd_FwdStart D f w)) = wos w) \<and>
     (\<forall>f w. fst (sd_FwdStop D f w) = None \<and> wos (snd (sd_FwdStop D f w)) = wos w) \<and>
     (\<forall>c w. wos (snd (sd_CloseDoH D c w)) = wos w)"

definition initialised :: "('c, 'f, 'w) SquawkModule \<Rightarrow> bool" where
  "initialised m \<longleftrightarrow> sq_metrics m \<noteq> None \<and> \<not> sq_running m"

lemma applySystemDNS_managed:
  assumes "sq_config m = Some cfg" "dns_Manage cfg" "ParseAddr (sd_netip D) ''8.8.8.8'' = Some a" "sq_metrics m \<noteq> None"
    and "ApplyDNS (sd_netip D) (wnow w) [a] (sq_resolver m) (wos w) = (None, r, s)"
  shows "\<exists>g. applySystemDNS D m w = (None, m\<lparr>sq_resolver := r, sq_metrics := Some g, sq_running := True\<rparr>, w\<lparr>wos := s\<rparr>)"
  using assms by (auto simp: applySystemDNS_def setGauge_def)

lemma squawk_Start_managed:
  assumes "tameDeps D" "initialised m" "sq_config m = Some cfg" "dns_Manage cfg"
    and "ParseAddr (sd_netip D) ''8.8.8.8'' = Some a"
    and ap: "\<And>now. \<exists>r s. ApplyDNS (sd_netip D) now [a] (sq_resolver m) (wos w) = (None, r, s) \<and> P r s"
  shows "\<exists>m' w' r s. squawk_Start D ctx m w = (None, m', w') \<and> P r s \<and> sq_resolver m' = r \<and> wos w' = s \<and>
     sq_running m' \<and> sq_config m' = Some cfg \<and> sq_forwarder m' = sq_forwarder m \<and> sq_metrics m' \<noteq> None"
proof (cases "sq_forwarder m")
  case None
  obtain r s where r: "ApplyDNS (sd_netip D) (wnow w) [a] (sq_resolver m) (wos w) = (None, r, s)" "P r s" using ap by blast
  have "sq_metrics m \<noteq> None" using assms(2) by (simp add: initialised_def)
  from applySystemDNS_managed [OF assms(3-5) this r(1)] obtain g where
    "applySystemDNS D m w = (None, m\<lparr>sq_resolver := r, sq_metrics := Some g, sq_running := True\<rparr>, w\<lparr>wos := s\<rparr>)" by blast
  then show ?thesis using None assms(2,3) r(2) by (simp add: squawk_Start_def initialised_def)
next
  case (Some f)
  obtain w1 where w1: "sd_FwdStart D f w = (None, w1)" "wos w1 = wos w"
    using assms(1) unfolding tameDeps_def by (metis prod.collapse)
  obtain g0 where g0: "sq_metrics m = Some g0" using assms(2) by (auto simp: initialised_def)
  let ?m = "m\<lparr>sq_metrics := Some (g0\<lparr>mt_forwarderUp := 1\<rparr>)\<rparr>"
  obtain r s where r: "ApplyDNS (sd_netip D) (wnow w1) [a] (sq_resolver ?m) (wos w1) = (None, r, s)" "P r s"
    using ap [of "wnow w1"] w1(2) by auto
  have "sq_config ?m = Some cfg" "sq_metrics ?m \<noteq> None" using assms(3) by simp_all
  from applySystemDNS_managed [OF this(1) assms(4,5) this(2) r(1)] obtain g where
    "applySystemDNS D ?m w1 = (None, ?m\<lparr>sq_resolver := r, sq_metrics := Some g, sq_running := True\<rparr>, w1\<lparr>wos := s\<rparr>)" by blast
  then show ?thesis using Some assms(2,3) r(2) w1(1) g0 by (simp add: squawk_Start_def initialised_def setGauge_def)
qed

lemma squawk_Stop_managed:
  assumes "tameDeps D" "sq_running m" "sq_config m = Some cfg" "dns_Manage cfg"
    and "ParseAddr (sd_netip D) ''1.1.1.1'' = Some fb"
    and "Restore (sd_netip D) fb (sq_resolver m) (wos w) = (None, r, s)"
  shows "\<exists>m' w'. squawk_Stop D m w = (None, m', w') \<and> \<not> sq_running m' \<and> sq_resolver m' = r \<and> wos w' = s"
proof -
  obtain m1 w1 where 1: "stopForwarder D m w = ([], m1, w1)" "sq_resolver m1 = sq_resolver m" "wos w1 = wos w"
  proof (cases "sq_forwarder m")
    case None
    then show ?thesis using that [of m w] by (simp add: stopForwarder_def)
  next
    case (Some f)
    obtain w1 where "sd_FwdStop D f w = (None, w1)" "wos w1 = wos w"
      using assms(1) unfolding tameDeps_def by (metis prod.collapse)
    with Some show ?thesis
      using that [of "case setGauge (\<lambda>g. g\<lparr>mt_forwarderUp := 0\<rparr>) m of None \<Rightarrow> m | Some m' \<Rightarrow> m'" w1]
      by (auto simp: stopForwarder_def setGauge_def split: option.splits)
  qed
  let ?m2 = "case setGauge (\<lambda>g. g\<lparr>mt_dnsApplied := 0\<rparr>) (m1\<lparr>sq_resolver := r\<rparr>) of None \<Rightarrow> m1\<lparr>sq_resolver := r\<rparr> | Some m' \<Rightarrow> m'"
  have 2: "restoreSystemDNS D cfg m1 w1 = ([], ?m2, w1\<lparr>wos := s\<rparr>)"
    using assms(4-6) 1 by (simp add: restoreSystemDNS_def)
  have "sq_resolver ?m2 = r" by (auto simp: setGauge_def split: option.splits)
  moreover have "wos (case sq_dohClient ?m2 of None \<Rightarrow> w1\<lparr>wos := s\<rparr> | Some c \<Rightarrow> snd (sd_CloseDoH D c (w1\<lparr>wos := s\<rparr>))) = s"
    using assms(1) by (simp add: tameDeps_def split: option.split)
  ultimately show ?thesis using assms(2,3) 1(1) 2 by (simp add: squawk_Stop_def)
qed

text \<open>C25: Starting and stopping leaves the system as it was. Let the forwarder start and stop and, like the client, leave the file
  system alone; let no call of the file system fail, the data directory, \<open>/etc\<close> and \<open>resolv.conf\<close> be in place and no directory where
  backup and marker go. An initialised module, not yet running, that manages the system DNS then starts, the system
  resolves through the server 8.8.8.8 that the code applies, and stopping it succeeds and puts the old \<open>resolv.conf\<close> back exactly, with no marker or backup left.\<close>

theorem squawk_start_stop:
  assumes "addr_lib (sd_netip D)" and "tameDeps D" and "initialised m" and "sq_config m = Some cfg" and "dns_Manage cfg"
    and "ParseAddr (sd_netip D) ''8.8.8.8'' = Some a" and "ParseAddr (sd_netip D) ''1.1.1.1'' = Some fb"
    and "dnsReady (sq_resolver m) old mode u (wos w)"
  shows "\<exists>m' w' m'' w''. squawk_Start D ctx m w = (None, m', w') \<and> sq_running m' \<and>
     Current (sd_netip D) (wos w') = Inr [a] \<and>
     squawk_Stop D m' w' = (None, m'', w'') \<and> \<not> sq_running m'' \<and>
     node_at (wos w'') resolvConfPath = Some (File old mode u) \<and>
     node_at (wos w'') (backupPath (sq_resolver m)) = None \<and> node_at (wos w'') (markerPath (sq_resolver m)) = None"
proof -
  let ?P = "\<lambda>r s. \<exists>s''. Current (sd_netip D) s = Inr [a] \<and> Restore (sd_netip D) fb r s = (None, r\<lparr>rv_backup := None\<rparr>, s'') \<and>
     node_at s'' resolvConfPath = Some (File old mode u) \<and>
     node_at s'' (backupPath (sq_resolver m)) = None \<and> node_at s'' (markerPath (sq_resolver m)) = None"
  have "\<exists>r s. ApplyDNS (sd_netip D) now [a] (sq_resolver m) (wos w) = (None, r, s) \<and> ?P r s" for now
    using addr_lib.restore_after_apply [OF assms(1,8), of "[a]" now fb] by auto
  from squawk_Start_managed [OF assms(2-6), of w ?P ctx, OF this] obtain m' w' s'' where
    st: "squawk_Start D ctx m w = (None, m', w')" "sq_running m'" "sq_config m' = Some cfg"
      "Current (sd_netip D) (wos w') = Inr [a]"
      "Restore (sd_netip D) fb (sq_resolver m') (wos w') = (None, (sq_resolver m')\<lparr>rv_backup := None\<rparr>, s'')"
      "node_at s'' resolvConfPath = Some (File old mode u)"
      "node_at s'' (backupPath (sq_resolver m)) = None" "node_at s'' (markerPath (sq_resolver m)) = None"
    by auto
  from squawk_Stop_managed [OF assms(2) st(2,3) assms(5,7) st(5)] st show ?thesis by auto
qed

subsection \<open>The registry of metrics\<close>

text \<open>What the metrics library documents, for the packages and the host a module is given: a registration
  that succeeds stays, whatever else the module calls, and registering again fails.\<close>

definition reinitError :: "goerr \<Rightarrow> bool" where
  "reinitError e \<longleftrightarrow>
     e = squawkPanic ''duplicate metrics collector registration attempted'' \<or>
     (\<exists>e'. e = Wrapf ''parse squawk config: '' e' [] \<or> e = Wrapf ''create DoH client: '' e' [])"

locale metrics_registry =
  fixes D :: "('a, 'c, 'f, 'x world_scheme) squawkDeps"
    and host :: "'x world_scheme HostServices"
    and registered :: "'x world_scheme \<Rightarrow> bool"
  assumes register_done: "sd_MustRegister D metricNames w = (True, w') \<Longrightarrow> registered w'"
    and register_again: "registered w \<Longrightarrow> fst (sd_MustRegister D metricNames w) = False"
    and keeps: "registered w \<Longrightarrow> registered (snd (sd_NewDoHClient D c w))"
      "registered w \<Longrightarrow> registered (snd (h_SecretsGet host k w))"
      "registered w \<Longrightarrow> registered (w\<lparr>wos := s\<rparr>)"
begin

lemma init_registers: "squawk_Init D (Some host) m w = (None, m', w') \<Longrightarrow> registered w'"
  by (auto simp: squawk_Init_def registerMetrics_def Let_def register_done split: sum.splits prod.splits bool.splits)

lemma authToken_keeps: "registered w \<Longrightarrow> authToken host cfg w = (cfg', w') \<Longrightarrow> registered w'"
  using keeps(2) [of w "''auth_token''"] by (auto simp: authToken_def split: if_splits prod.splits sum.splits)

lemma init_again_fails:
  assumes "registered w"
  shows "\<exists>e. fst (squawk_Init D (Some host) m w) = Some e \<and> reinitError e"
proof -
  let ?r = "NewSysResolver (h_DataDir host)"
  obtain x w1 where 1: "on_os (RecoverFromCrash (sd_netip D) ?r) w = (x, w1)" by force
  have r1: "registered w1" using 1 keeps(3) [OF assms] by (auto simp: on_os_def split: prod.splits)
  have fails: "\<exists>e. fst (registerMetrics D m0 w0) = Some e \<and> reinitError e" if "registered w0" for m0 w0
    using register_again [OF that]
    by (auto simp: registerMetrics_def reinitError_def Let_def split: prod.splits bool.splits)
  show ?thesis
  proof (cases "if h_Config host = [] then Inr squawkDefaults else sd_yaml D (h_Config host) squawkDefaults")
    case (Inl e)
    then show ?thesis using 1 by (simp add: squawk_Init_def Let_def reinitError_def)
  next
    case (Inr cfg0)
    obtain cfg w2 where 2: "authToken host cfg0 w1 = (cfg, w2)" by force
    have r2: "registered w2" by (rule authToken_keeps [OF r1 2])
    let ?dc = "\<lparr>dc_ServerURL = doh_ServerURL cfg, dc_AuthToken = doh_AuthToken cfg,
       dc_VerifySSL = doh_VerifyTLS cfg, dc_ClientCert = doh_ClientCert cfg,
       dc_ClientKey = doh_ClientKey cfg, dc_CaCert = doh_CACert cfg\<rparr>"
    obtain y w3 where 3: "sd_NewDoHClient D ?dc w2 = (y, w3)" by force
    have "registered w3" using keeps(1) [OF r2, of ?dc] 3 by simp
    note f = fails [OF this]
    show ?thesis
    proof (cases y)
      case (Inl e)
      then show ?thesis using \<open>_ = Inr cfg0\<close> 1 2 3 by (simp add: squawk_Init_def Let_def reinitError_def)
    next
      case (Inr c)
      then show ?thesis using \<open>_ = Inr cfg0\<close> 1 2 3 f by (simp add: squawk_Init_def Let_def)
    qed
  qed
qed

end

text \<open>A reload of the module brings the daemon down. When the registry of metrics refuses, as documented,
  what is already registered, then after one successful initialisation every further one over the same
  registry fails, of a fresh instance as much as of the old one: if not for its configuration or its client,
  then by the panic of the registration, so that unloading and loading Squawk ends the process.\<close>

theorem squawk_reinit_fails:
  assumes "metrics_registry D host registered" and "squawk_Init D (Some host) m w = (None, m', w')"
  shows "registered w' \<and> (\<forall>m2 w2. registered w2 \<longrightarrow> (\<exists>e. fst (squawk_Init D (Some host) m2 w2) = Some e \<and> reinitError e))"
  using metrics_registry.init_registers [OF assms] metrics_registry.init_again_fails [OF assms(1)] by blast

text \<open>A world with a registry of metrics.\<close>

record mworld = world +
  wmetrics :: "string list"

definition promRegister :: "string list \<Rightarrow> mworld \<Rightarrow> bool \<times> mworld" where
  "promRegister ns w =
     (if list_ex (\<lambda>n. n \<in> set (wmetrics w)) ns then (False, w) else (True, w\<lparr>wmetrics := wmetrics w @ ns\<rparr>))"

definition demoDeps :: "(ipv4, unit, unit, mworld) squawkDeps" where
  "demoDeps =
     \<lparr>sd_netip = ipv4Lib, sd_time = \<lparr>formatTime = Itoa, parseTime = Atoi\<rparr>, sd_yaml = \<lambda>_ c. Inr c,
      sd_NewDoHClient = \<lambda>_ w. (Inr (), w), sd_Query = \<lambda>_ _ _ w. (Inl (Errorf ''offline''), w),
      sd_CloseDoH = \<lambda>_ w. (None, w), sd_NewForwarder = \<lambda>_ _. (), sd_FwdStart = \<lambda>_ w. (None, w),
      sd_FwdStop = \<lambda>_ w. (None, w), sd_FwdIsRunning = \<lambda>_ _. True, sd_LicenseIsValid = \<lambda>_ w. (Inr False, w),
      sd_MustRegister = promRegister\<rparr>"

definition demoHost :: "mworld HostServices" where
  "demoHost =
     \<lparr>h_Config = [], h_DataDir = ''/v'', h_SecretsGet = \<lambda>_ w. (Inl ErrSecretNotFound, w),
      h_SecretsSet = \<lambda>_ _ w. (None, w), h_SecretsDelete = \<lambda>_ w. (None, w),
      h_FeatureEnabled = \<lambda>_ w. (False, w), h_Tier = \<lambda>_. [], h_Publish = \<lambda>_ w. w\<rparr>"

interpretation demo: metrics_registry demoDeps demoHost "\<lambda>w. set metricNames \<inter> set (wmetrics w) \<noteq> {}"
  by unfold_locales
    (auto simp: demoDeps_def demoHost_def promRegister_def metricNames_def list_ex_iff split: if_splits)

definition mworld0 :: mworld where
  "mworld0 = \<lparr>wos = resolvOs, wnow = 0, wrand = \<lambda>_. 1 / 2, wdraws = 0, wmetrics = []\<rparr>"

lemma demo_init_ok: "\<exists>m' w'. squawk_Init demoDeps (Some demoHost) squawk_New mworld0 = (None, m', w')"
  by (auto simp: squawk_Init_def demoDeps_def demoHost_def Let_def authToken_def squawkDefaults_def registerMetrics_def
      promRegister_def mworld0_def on_os_def metricNames_def split: prod.splits)

theorem squawk_reinit_fails_witness:
  "\<exists>m' w' e. squawk_Init demoDeps (Some demoHost) squawk_New mworld0 = (None, m', w') \<and>
     fst (squawk_Init demoDeps (Some demoHost) squawk_New w') = Some e"
proof -
  obtain m' w' where i: "squawk_Init demoDeps (Some demoHost) squawk_New mworld0 = (None, m', w')"
    using demo_init_ok by blast
  from squawk_reinit_fails [OF demo.metrics_registry_axioms i] i show ?thesis by blast
qed

theorem squawk_start_stop_witness:
  "\<exists>m' w' m'' w''. squawk_Start demoDeps 0 (squawk_New\<lparr>sq_config := Some (squawkDefaults\<lparr>dns_Manage := True\<rparr>),
       sq_resolver := NewSysResolver ''/v'', sq_metrics := Some \<lparr>mt_forwarderUp = 0, mt_dnsApplied = 0\<rparr>\<rparr>) mworld0 = (None, m', w') \<and>
     sq_running m' \<and> squawk_Stop demoDeps m' w' = (None, m'', w'') \<and>
     node_at (wos w'') ''/etc/resolv.conf'' = Some (File (''nameserver 9.9.9.9'' @ [CHR 0x0A]) mode600 0)"
proof -
  let ?cfg = "squawkDefaults\<lparr>dns_Manage := True\<rparr>"
  let ?m = "squawk_New\<lparr>sq_config := Some ?cfg, sq_resolver := NewSysResolver ''/v'',
     sq_metrics := Some \<lparr>mt_forwarderUp = 0, mt_dnsApplied = 0\<rparr>\<rparr> :: (unit, unit, mworld) SquawkModule"
  have lib: "sd_netip demoDeps = ipv4Lib" by (simp add: demoDeps_def)
  have tame: "tameDeps demoDeps" by (simp add: tameDeps_def demoDeps_def)
  have ini: "initialised ?m" by (simp add: initialised_def squawk_New_def)
  have "ipv4String (8, 8, 8, 8) = ''8.8.8.8''" "ipv4String (1, 1, 1, 1) = ''1.1.1.1''" by code_simp+
  then have p: "ParseAddr (sd_netip demoDeps) ''8.8.8.8'' = Some (8, 8, 8, 8)" "ParseAddr (sd_netip demoDeps) ''1.1.1.1'' = Some (1, 1, 1, 1)"
    using ParseIPv4_String [of "(8, 8, 8, 8)"] ParseIPv4_String [of "(1, 1, 1, 1)"] by (simp_all add: lib ipv4Lib_def)
  have ready: "dnsReady (sq_resolver ?m) (''nameserver 9.9.9.9'' @ [CHR 0x0A]) mode600 0 (wos mworld0)"
    using resolvOs_ready by (simp add: mworld0_def)
  have "addr_lib (sd_netip demoDeps)" using ipv4.addr_lib_axioms by (simp add: lib)
  from squawk_start_stop [OF this tame ini _ _ p ready, of ?cfg 0] show ?thesis
    by (simp add: resolvConfPath_def) blast
qed

text \<open>Showing the configuration keeps the token secret. Two modules whose configurations differ in the
  authentication token only produce the same output whenever the two tokens are both unset, both of at
  most four characters, or both longer with the same last four: nothing else of the token is printed.\<close>

theorem config_redacted:
  assumes "sq_config m = Some cfg" and "sq_config m2 = Some (cfg\<lparr>doh_AuthToken := tok\<rparr>)"
    and "doh_AuthToken cfg = [] \<longleftrightarrow> tok = []" and "length (doh_AuthToken cfg) \<le> 4 \<longleftrightarrow> length tok \<le> 4"
    and "4 < length tok \<longrightarrow> drop (length (doh_AuthToken cfg) - 4) (doh_AuthToken cfg) = drop (length tok - 4) tok"
  shows "squawk_Dispatch D [''config''] flags args m w = (fst (squawk_Dispatch D [''config''] flags args m2 w), m, w)"
proof -
  have "maskSecret (doh_AuthToken cfg) = maskSecret tok" using assms(3-5) by (auto simp: maskSecret_def)
  then have "handleConfig m = handleConfig m2" using assms(1,2) by (simp add: handleConfig_def)
  then show ?thesis by (simp add: squawk_Dispatch_def)
qed

theorem config_redacted_witness:
  "fst (squawk_Dispatch demoDeps [''config''] [] [] (squawk_New\<lparr>sq_config := Some (squawkDefaults\<lparr>doh_AuthToken := ''secret-1234''\<rparr>)\<rparr>) mworld0) =
   fst (squawk_Dispatch demoDeps [''config''] [] [] (squawk_New\<lparr>sq_config := Some (squawkDefaults\<lparr>doh_AuthToken := ''other-1234''\<rparr>)\<rparr>) mworld0)"
  using config_redacted [of "squawk_New\<lparr>sq_config := Some (squawkDefaults\<lparr>doh_AuthToken := ''secret-1234''\<rparr>)\<rparr> :: (unit, unit, mworld) SquawkModule"
    "squawkDefaults\<lparr>doh_AuthToken := ''secret-1234''\<rparr>"
    "squawk_New\<lparr>sq_config := Some (squawkDefaults\<lparr>doh_AuthToken := ''other-1234''\<rparr>)\<rparr>" "''other-1234''" demoDeps "[]" "[]" mworld0]
  by (simp add: squawkDefaults_def)

end
