(* ===== verification/Auth.thy ===== *)
theory Auth
  imports Http Hello
begin

text \<open>
  The token manager of the Tobogganing module (\<open>internal/modules/tobogganing/auth.go\<close>): it obtains, renews,
  caches and revokes the access token of the manager API. The network, the JWT library and the
  conversion of instants are parameters (\<open>tobNet\<close>); the secret store is the one of the host. A token's
  \<open>exp\<close> claim is a 64-bit float, a real number here.
\<close>

record AuthManager =
  am_managerURL :: string
  am_token :: string
  am_refreshToken :: string
  am_expiresAt :: time

record TokenResponse =
  tr_AccessToken :: string
  tr_RefreshToken :: string
  tr_ExpiresAt :: time
  tr_TokenType :: string

text \<open>\<open>nt_exp\<close> parses a token without verifying it and gives its \<open>exp\<close> claim, if that is a number.\<close>

record 'w tobNet =
  nt_do :: "HttpRequest \<Rightarrow> 'w \<Rightarrow> httpResult \<times> 'w"
  nt_exp :: "string \<Rightarrow> goerr + real option"
  nt_time :: timeCodec

section \<open>Helpers\<close>

definition truncInt :: "real \<Rightarrow> int" where
  "truncInt x = (if 0 \<le> x then \<lfloor>x\<rfloor> else \<lceil>x\<rceil>)"

definition extractTokenExpiry :: "'w tobNet \<Rightarrow> string \<Rightarrow> goerr + time" where
  "extractTokenExpiry N tokenString =
     (case nt_exp N tokenString of
        Inl e \<Rightarrow> Inl (Wrapf ''failed to parse token: '' e [])
      | Inr None \<Rightarrow> Inl (Errorf ''no expiry found in token'')
      | Inr (Some x) \<Rightarrow> Inr (truncInt x * second))"

definition tokenField :: "timeCodec \<Rightarrow> string \<Rightarrow> json \<Rightarrow> TokenResponse \<Rightarrow> TokenResponse option" where
  "tokenField tc k j x =
     (if k = ''access_token'' then scalar decString (\<lambda>v. x\<lparr>tr_AccessToken := v\<rparr>) j x
      else if k = ''refresh_token'' then scalar decString (\<lambda>v. x\<lparr>tr_RefreshToken := v\<rparr>) j x
      else if k = ''expires_at'' then scalar (decTime tc) (\<lambda>v. x\<lparr>tr_ExpiresAt := v\<rparr>) j x
      else if k = ''token_type'' then scalar decString (\<lambda>v. x\<lparr>tr_TokenType := v\<rparr>) j x
      else Some x)"

definition emptyToken :: TokenResponse where
  "emptyToken = \<lparr>tr_AccessToken = [], tr_RefreshToken = [], tr_ExpiresAt = zeroTime, tr_TokenType = []\<rparr>"

text \<open>An expiry that the response leaves out is taken from the token.\<close>

definition fillExpiry :: "'w tobNet \<Rightarrow> TokenResponse \<Rightarrow> TokenResponse" where
  "fillExpiry N t =
     (if tr_ExpiresAt t = zeroTime \<and> tr_AccessToken t \<noteq> [] then
        (case extractTokenExpiry N (tr_AccessToken t) of Inl e \<Rightarrow> t | Inr x \<Rightarrow> t\<lparr>tr_ExpiresAt := x\<rparr>)
      else t)"

definition jsonPost :: "string \<Rightarrow> json \<Rightarrow> HttpRequest" where
  "jsonPost url j =
     \<lparr>rq_Method = ''POST'', rq_URL = url, rq_Header = [(''Content-Type'', ''application/json'')], rq_Body = Marshal j\<rparr>"

definition cacheTokens :: "'w HostServices \<Rightarrow> TokenResponse \<Rightarrow> 'w \<Rightarrow> 'w" where
  "cacheTokens host t w =
     (let w1 = snd (h_SecretsSet host ''access_token'' (tr_AccessToken t) w)
      in if tr_RefreshToken t = [] then w1
         else snd (h_SecretsSet host ''refresh_token'' (tr_RefreshToken t) w1))"

definition obtainTokenLocked ::
  "'w tobNet \<Rightarrow> 'w HostServices \<Rightarrow> string \<Rightarrow> AuthManager \<Rightarrow> 'w \<Rightarrow> goerr option \<times> AuthManager \<times> 'w" where
  "obtainTokenLocked N host apiKey a w =
     (case nt_do N (jsonPost (am_managerURL a @ ''/api/v1/auth/token'') (JObj [(''api_key'', JStr apiKey)])) w of
        (BadRequest e, w1) \<Rightarrow> (Some (Wrapf ''failed to create token request: '' e []), a, w1)
      | (NoResponse e, w1) \<Rightarrow> (Some (Wrapf ''token request failed: '' e []), a, w1)
      | (Response st body, w1) \<Rightarrow>
          if st \<noteq> 200 then
            (Some (Errorf (''token request failed with status '' @ Itoa st @ '': '' @
               (case body of Inl _ \<Rightarrow> [] | Inr b \<Rightarrow> b))), a, w1)
          else case decodeBody (decObject (tokenField (nt_time N)) emptyToken) body of
                 Inl e \<Rightarrow> (Some (Wrapf ''failed to parse token response: '' e []), a, w1)
               | Inr t0 \<Rightarrow>
                   let t = fillExpiry N t0
                   in (None, a\<lparr>am_token := tr_AccessToken t, am_refreshToken := tr_RefreshToken t,
                               am_expiresAt := tr_ExpiresAt t\<rparr>, cacheTokens host t w1))"

definition refreshTokenLocked ::
  "'w tobNet \<Rightarrow> 'w HostServices \<Rightarrow> AuthManager \<Rightarrow> 'w \<Rightarrow> goerr option \<times> AuthManager \<times> 'w" where
  "refreshTokenLocked N host a w =
     (case nt_do N (jsonPost (am_managerURL a @ ''/api/v1/auth/refresh'')
                      (JObj [(''refresh_token'', JStr (am_refreshToken a))])) w of
        (BadRequest e, w1) \<Rightarrow> (Some (Wrapf ''failed to create refresh request: '' e []), a, w1)
      | (NoResponse e, w1) \<Rightarrow> (Some (Wrapf ''refresh request failed: '' e []), a, w1)
      | (Response st body, w1) \<Rightarrow>
          if st \<noteq> 200 then (Some (Errorf (''refresh failed with status '' @ Itoa st)), a, w1)
          else case decodeBody (decObject (tokenField (nt_time N)) emptyToken) body of
                 Inl e \<Rightarrow> (Some (Wrapf ''failed to parse refresh response: '' e []), a, w1)
               | Inr t0 \<Rightarrow>
                   let t = fillExpiry N t0
                   in (None, a\<lparr>am_token := tr_AccessToken t,
                               am_refreshToken := (if tr_RefreshToken t = [] then am_refreshToken a else tr_RefreshToken t),
                               am_expiresAt := tr_ExpiresAt t\<rparr>, cacheTokens host t w1))"

definition getAPIKey :: "'w HostServices \<Rightarrow> 'w \<Rightarrow> (goerr + string) \<times> 'w" where
  "getAPIKey host w = h_SecretsGet host ''api_key'' w"

definition loadCachedToken :: "'w tobNet \<Rightarrow> 'w HostServices \<Rightarrow> AuthManager \<Rightarrow> 'w \<Rightarrow> AuthManager \<times> 'w" where
  "loadCachedToken N host a w =
     (case h_SecretsGet host ''access_token'' w of
        (Inl e, w1) \<Rightarrow> (a, w1)
      | (Inr val, w1) \<Rightarrow>
          let a1 = a\<lparr>am_token := val\<rparr>;
              a2 = (case extractTokenExpiry N val of Inl e \<Rightarrow> a1 | Inr x \<Rightarrow> a1\<lparr>am_expiresAt := x\<rparr>)
          in case h_SecretsGet host ''refresh_token'' w1 of
               (Inl e, w2) \<Rightarrow> (a2, w2)
             | (Inr ref, w2) \<Rightarrow> (a2\<lparr>am_refreshToken := ref\<rparr>, w2))"

section \<open>Operations\<close>

definition NewAuthManager :: "'w tobNet \<Rightarrow> 'w HostServices \<Rightarrow> string \<Rightarrow> 'w \<Rightarrow> AuthManager \<times> 'w" where
  "NewAuthManager N host managerURL w =
     loadCachedToken N host
       \<lparr>am_managerURL = managerURL, am_token = [], am_refreshToken = [], am_expiresAt = zeroTime\<rparr> w"

definition obtainViaKey ::
  "'w tobNet \<Rightarrow> 'w HostServices \<Rightarrow> AuthManager \<Rightarrow> 'w \<Rightarrow> goerr option \<times> AuthManager \<times> 'w" where
  "obtainViaKey N host a w =
     (case getAPIKey host w of
        (Inl e, w1) \<Rightarrow> (Some (Wrapf ''no API key found: '' e []), a, w1)
      | (Inr apiKey, w1) \<Rightarrow> obtainTokenLocked N host apiKey a w1)"

definition EnsureValidToken ::
  "'x world_scheme tobNet \<Rightarrow> 'x world_scheme HostServices \<Rightarrow> AuthManager \<Rightarrow> 'x world_scheme \<Rightarrow>
   goerr option \<times> AuthManager \<times> 'x world_scheme" where
  "EnsureValidToken N host a w =
     (if am_token a \<noteq> [] \<and> wnow w < am_expiresAt a then (None, a, w)
      else if am_refreshToken a \<noteq> [] then
        (case refreshTokenLocked N host a w of
           (None, a1, w1) \<Rightarrow> (None, a1, w1)
         | (Some e, a1, w1) \<Rightarrow> obtainViaKey N host a1 w1)
      else obtainViaKey N host a w)"

definition RefreshToken ::
  "'w tobNet \<Rightarrow> 'w HostServices \<Rightarrow> AuthManager \<Rightarrow> 'w \<Rightarrow> goerr option \<times> AuthManager \<times> 'w" where
  "RefreshToken N host a w =
     (if am_refreshToken a = [] then (Some (Errorf ''no refresh token available''), a, w)
      else refreshTokenLocked N host a w)"

definition IsTokenExpired :: "duration \<Rightarrow> time \<Rightarrow> AuthManager \<Rightarrow> bool" where
  "IsTokenExpired threshold now a \<longleftrightarrow> am_token a = [] \<or> am_expiresAt a - now < threshold"

definition RevokeToken ::
  "'w tobNet \<Rightarrow> 'w HostServices \<Rightarrow> AuthManager \<Rightarrow> 'w \<Rightarrow> goerr option \<times> AuthManager \<times> 'w" where
  "RevokeToken N host a w =
     (if am_token a = [] then (None, a, w)
      else case nt_do N \<lparr>rq_Method = ''POST'', rq_URL = am_managerURL a @ ''/api/v1/auth/revoke'',
                         rq_Header = [(''Authorization'', ''Bearer '' @ am_token a)], rq_Body = []\<rparr> w of
             (BadRequest e, w1) \<Rightarrow> (Some (Wrapf ''failed to create revoke request: '' e []), a, w1)
           | (NoResponse e, w1) \<Rightarrow> (Some (Wrapf ''revoke request failed: '' e []), a, w1)
           | (Response st body, w1) \<Rightarrow>
               if st \<noteq> 200 then (Some (Errorf (''revoke failed with status '' @ Itoa st)), a, w1)
               else (None, a\<lparr>am_token := [], am_refreshToken := [], am_expiresAt := zeroTime\<rparr>,
                     snd (h_SecretsDelete host ''refresh_token'' (snd (h_SecretsDelete host ''access_token'' w1)))))"

definition GetToken :: "AuthManager \<Rightarrow> string" where
  "GetToken a = am_token a"

section \<open>Properties\<close>

text \<open>A token the server gave: the response was a 200 whose body decodes to \<open>t\<close>.\<close>

definition granted :: "'w tobNet \<Rightarrow> HttpRequest \<Rightarrow> TokenResponse \<Rightarrow> bool" where
  "granted N rq t \<longleftrightarrow>
     (\<exists>w w' body t0. nt_do N rq w = (Response 200 body, w') \<and>
        decodeBody (decObject (tokenField (nt_time N)) emptyToken) body = Inr t0 \<and> t = fillExpiry N t0)"

definition holds :: "AuthManager \<Rightarrow> AuthManager \<Rightarrow> TokenResponse \<Rightarrow> bool" where
  "holds a a' t \<longleftrightarrow>
     am_managerURL a' = am_managerURL a \<and> am_token a' = tr_AccessToken t \<and> am_expiresAt a' = tr_ExpiresAt t \<and>
     (tr_RefreshToken t \<noteq> [] \<longrightarrow> am_refreshToken a' = tr_RefreshToken t)"

lemma obtainTokenLocked_cases [outcome]:
  assumes "obtainTokenLocked N host key a w = (r, a', w')"
  shows "(r \<noteq> None \<and> a' = a) \<or>
    (r = None \<and> (\<exists>t. granted N (jsonPost (am_managerURL a @ ''/api/v1/auth/token'') (JObj [(''api_key'', JStr key)])) t \<and> holds a a' t))"
  using assms unfolding obtainTokenLocked_def granted_def holds_def
  by (auto simp: Let_def split: prod.splits httpResult.splits if_splits sum.splits) blast+

lemma refreshTokenLocked_cases [outcome]:
  assumes "refreshTokenLocked N host a w = (r, a', w')"
  shows "(r \<noteq> None \<and> a' = a) \<or>
    (r = None \<and> (\<exists>t. granted N (jsonPost (am_managerURL a @ ''/api/v1/auth/refresh'')
        (JObj [(''refresh_token'', JStr (am_refreshToken a))])) t \<and> holds a a' t))"
  using assms unfolding refreshTokenLocked_def granted_def holds_def
  by (auto simp: Let_def split: prod.splits httpResult.splits if_splits sum.splits) blast+


lemma obtainViaKey_cases [outcome]:
  assumes "obtainViaKey N host a w = (r, a', w')"
  shows "(r \<noteq> None \<and> a' = a) \<or>
    (r = None \<and> (\<exists>key t. granted N (jsonPost (am_managerURL a @ ''/api/v1/auth/token'') (JObj [(''api_key'', JStr key)])) t \<and> holds a a' t))"
proof -
  obtain k w1 where k: "getAPIKey host w = (k, w1)" by force
  show ?thesis
  proof (cases k)
    case (Inl e)
    then show ?thesis using assms k by (auto simp: obtainViaKey_def)
  next
    case (Inr key)
    then have "obtainTokenLocked N host key a w1 = (r, a', w')" using assms k by (simp add: obtainViaKey_def)
    from obtainTokenLocked_cases [OF this] show ?thesis by blast
  qed
qed

text \<open>C29: What \<open>EnsureValidToken\<close> ensures. A token that has not expired is kept and nothing is sent. Otherwise
  success means that the manager granted the token now held, for the refresh token held before or for an
  API key; a failure of all that leaves the tokens as they were.\<close>

theorem ensure_token:
  assumes "EnsureValidToken N host a w = (r, a', w')"
  shows "(am_token a \<noteq> [] \<and> wnow w < am_expiresAt a \<longrightarrow> r = None \<and> a' = a \<and> w' = w) \<and>
    (r \<noteq> None \<longrightarrow> a' = a) \<and>
    (r = None \<and> \<not> (am_token a \<noteq> [] \<and> wnow w < am_expiresAt a) \<longrightarrow>
      (\<exists>t. holds a a' t \<and>
        (am_refreshToken a \<noteq> [] \<and>
           granted N (jsonPost (am_managerURL a @ ''/api/v1/auth/refresh'') (JObj [(''refresh_token'', JStr (am_refreshToken a))])) t \<or>
         (\<exists>key. granted N (jsonPost (am_managerURL a @ ''/api/v1/auth/token'') (JObj [(''api_key'', JStr key)])) t))))"
proof (cases "am_token a \<noteq> [] \<and> wnow w < am_expiresAt a")
  case True
  then show ?thesis using assms by (simp add: EnsureValidToken_def)
next
  case expired: False
  show ?thesis
  proof (cases "am_refreshToken a = []")
    case True
    then have "obtainViaKey N host a w = (r, a', w')" using assms expired by (auto simp: EnsureValidToken_def)
    from obtainViaKey_cases [OF this] expired True show ?thesis by auto
  next
    case ref: False
    obtain r1 a1 w1 where 1: "refreshTokenLocked N host a w = (r1, a1, w1)" by (cases "refreshTokenLocked N host a w")
    show ?thesis
    proof (cases r1)
      case None
      then have "r = None" "a' = a1" using assms expired ref 1 by (auto simp: EnsureValidToken_def)
      then show ?thesis using refreshTokenLocked_cases [OF 1] None ref expired by auto
    next
      case (Some e)
      then have "a1 = a" using refreshTokenLocked_cases [OF 1] by simp
      then have "obtainViaKey N host a w1 = (r, a', w')" using assms expired ref 1 Some by (auto simp: EnsureValidToken_def)
      from obtainViaKey_cases [OF this] expired show ?thesis by auto
    qed
  qed
qed

text \<open>A network that is down, and a host without secrets.\<close>

definition deadNet :: "'w tobNet" where
  "deadNet = \<lparr>nt_do = \<lambda>_ w. (NoResponse (Errorf ''down''), w), nt_exp = \<lambda>_. Inr None,
     nt_time = \<lparr>formatTime = Itoa, parseTime = Atoi\<rparr>\<rparr>"

theorem ensure_token_witness:
  "\<exists>e a' w'. EnsureValidToken deadNet quietHost \<lparr>am_managerURL = ''https://m'', am_token = ''old'', am_refreshToken = ''r'',
      am_expiresAt = -1\<rparr> world0 = (Some e, a', w') \<and> am_token a' = ''old''"
proof -
  let ?a = "\<lparr>am_managerURL = ''https://m'', am_token = ''old'', am_refreshToken = ''r'', am_expiresAt = -1\<rparr>"
  obtain r a' w' where e: "EnsureValidToken deadNet quietHost ?a world0 = (r, a', w')" by (rule prod_cases3)
  moreover have "r \<noteq> None"
    using e by (auto simp: EnsureValidToken_def deadNet_def quietHost_def world0_def refreshTokenLocked_def obtainViaKey_def getAPIKey_def)
  moreover have "a' = ?a" using ensure_token [OF e] \<open>r \<noteq> None\<close> by blast
  ultimately show ?thesis by auto
qed

text \<open>Revoking is all or nothing in memory: on success no token is left, on failure both are kept.\<close>

lemma revoke_effect:
  assumes "RevokeToken N host a w = (r, a', w')"
  shows "(r = None \<longrightarrow> am_token a' = [] \<and> (am_token a \<noteq> [] \<longrightarrow> am_refreshToken a' = [])) \<and> (r \<noteq> None \<longrightarrow> a' = a)"
  using assms by (auto simp: RevokeToken_def split: if_splits prod.splits httpResult.splits)

end
