(* ===== verification/Tobogganing.thy ===== *)
theory Tobogganing
  imports Auth
begin

text \<open>
  The Tobogganing module (\<open>internal/modules/tobogganing/module.go\<close>, \<open>vpn.go\<close>): a WireGuard tunnel whose
  configuration comes from the manager API. WireGuard, the resolver of addresses, the YAML decoder, the
  metrics registry and the text of a duration are outside the repository and form the record \<open>tobDeps\<close>. The module's goroutines are
  the operations \<open>initialConnect\<close>, \<open>authRefreshTick\<close> and \<open>updateHealthProbe\<close>; \<open>establishTunnel\<close> takes its locks
  one after the other, and its three critical sections are operations of their own, so that what may run
  between them can be said. Integers of the configuration are 64-bit words.
\<close>

section \<open>Types\<close>

record ModuleConfig =
  mc_ManagerURL :: string
  mc_NodeID :: string
  mc_InterfaceName :: string
  mc_MTU :: "64 word"
  mc_DNS :: "string list"
  mc_Keepalive :: "64 word"
  mc_AllowedIPs :: "string list"
  mc_Embedded :: bool

record TunnelConfig =
  tc_TunnelAddress :: string
  tc_ServerPublicKey :: string
  tc_ServerEndpoint :: string
  tc_AllowedIPs :: "string list"
  tc_DNS :: "string list"

text \<open>The part of \<open>wgtypes.Config\<close> the code sets; the keepalive is a duration in nanoseconds.\<close>

record ('k, 'u, 'n) wgConfig =
  wg_PrivateKey :: 'k
  wg_PublicKey :: 'k
  wg_Endpoint :: 'u
  wg_AllowedIPs :: "'n list"
  wg_Keepalive :: "64 word"

record VPNManager =
  vp_config :: ModuleConfig
  vp_dataDir :: path
  vp_connected :: bool
  vp_lastHandshake :: time
  vp_configData :: "TunnelConfig option"

record TobMetrics =
  tm_tunnelUp :: nat
  tm_handshakeAge :: duration
  tm_tokenRefreshes :: nat
  tm_connErrors :: nat

record TobHealth =
  th_Level :: HealthLevel
  th_Message :: string
  th_CheckedAt :: time

record ('k, 'u, 'n, 'w) tobDeps =
  td_net :: "'w tobNet"
  td_yaml :: "bytes \<Rightarrow> ModuleConfig \<Rightarrow> goerr + ModuleConfig"
  td_GenerateKey :: "'w \<Rightarrow> (goerr + 'k) \<times> 'w"
  td_ParseKey :: "string \<Rightarrow> goerr + 'k"
  td_ResolveUDP :: "string \<Rightarrow> 'w \<Rightarrow> (goerr + 'u) \<times> 'w"
  td_ParseCIDR :: "string \<Rightarrow> goerr + 'n"
  td_Configure :: "string \<Rightarrow> ('k, 'u, 'n) wgConfig \<Rightarrow> 'w \<Rightarrow> goerr option \<times> 'w"
  td_durationText :: "duration \<Rightarrow> string"
  td_Register :: "string \<Rightarrow> 'w \<Rightarrow> goerr option \<times> 'w"

record 'w TobModule =
  to_host :: "'w HostServices option"
  to_auth :: "AuthManager option"
  to_vpn :: "VPNManager option"
  to_config :: "ModuleConfig option"
  to_running :: bool
  to_stopClosed :: bool
  to_metrics :: "TobMetrics option"
  to_lastHealth :: TobHealth

definition tobPanic :: "string \<Rightarrow> goerr" where
  "tobPanic t = Sentinel (''panic: '' @ t)"

section \<open>The tunnel\<close>

definition tunnelField :: "string \<Rightarrow> json \<Rightarrow> TunnelConfig \<Rightarrow> TunnelConfig option" where
  "tunnelField k j x =
     (let strings = \<lambda>upd. (case j of JNull \<Rightarrow> Some (upd []) | JArr js \<Rightarrow> map_option upd (decSlice decString js) | _ \<Rightarrow> None)
      in if k = ''tunnel_address'' then scalar decString (\<lambda>v. x\<lparr>tc_TunnelAddress := v\<rparr>) j x
         else if k = ''server_public_key'' then scalar decString (\<lambda>v. x\<lparr>tc_ServerPublicKey := v\<rparr>) j x
         else if k = ''server_endpoint'' then scalar decString (\<lambda>v. x\<lparr>tc_ServerEndpoint := v\<rparr>) j x
         else if k = ''allowed_ips'' then strings (\<lambda>v. x\<lparr>tc_AllowedIPs := v\<rparr>)
         else if k = ''dns'' then strings (\<lambda>v. x\<lparr>tc_DNS := v\<rparr>)
         else Some x)"

definition emptyTunnel :: TunnelConfig where
  "emptyTunnel =
     \<lparr>tc_TunnelAddress = [], tc_ServerPublicKey = [], tc_ServerEndpoint = [], tc_AllowedIPs = [], tc_DNS = []\<rparr>"

definition NewVPNManager :: "ModuleConfig \<Rightarrow> path \<Rightarrow> VPNManager" where
  "NewVPNManager config dataDir =
     \<lparr>vp_config = config, vp_dataDir = dataDir, vp_connected = False, vp_lastHandshake = zeroTime, vp_configData = None\<rparr>"

definition DoJSON :: "'w tobNet \<Rightarrow> string \<Rightarrow> string \<Rightarrow> (json \<Rightarrow> 'v option) \<Rightarrow> 'w \<Rightarrow> (goerr + 'v) \<times> 'w" where
  "DoJSON N url token dec w =
     (case nt_do N \<lparr>rq_Method = ''GET'', rq_URL = url,
                    rq_Header = [(''Authorization'', ''Bearer '' @ token), (''Content-Type'', ''application/json'')],
                    rq_Body = []\<rparr> w of
        (BadRequest e, w1) \<Rightarrow> (Inl e, w1)
      | (NoResponse e, w1) \<Rightarrow> (Inl e, w1)
      | (Response st body, w1) \<Rightarrow>
          (if st \<noteq> 200 then Inl (Errorf (''status '' @ Itoa st)) else decodeBody dec body, w1))"

definition fetchTunnelConfig ::
  "('k, 'u, 'n, 'w) tobDeps \<Rightarrow> AuthManager \<Rightarrow> VPNManager \<Rightarrow> 'w \<Rightarrow> (goerr + TunnelConfig) \<times> 'w" where
  "fetchTunnelConfig D a v w =
     (if GetToken a = [] then (Inl (Errorf ''no valid token''), w)
      else case DoJSON (td_net D) (mc_ManagerURL (vp_config v) @ ''/api/v1/config'') (GetToken a)
                  (decObject tunnelField emptyTunnel) w of
             (Inl e, w1) \<Rightarrow> (Inl (Wrapf ''config fetch failed: '' e []), w1)
           | (Inr c, w1) \<Rightarrow> (Inr c, w1))"

fun parseAllowed :: "(string \<Rightarrow> goerr + 'n) \<Rightarrow> string list \<Rightarrow> goerr + 'n list" where
  "parseAllowed parseCIDR [] = Inr []"
| "parseAllowed parseCIDR (ip # ips) =
     (case parseCIDR ip of
        Inl e \<Rightarrow> Inl (Wrapf (''invalid allowed IP '' @ Quote ip @ '': '') e [])
      | Inr n \<Rightarrow> (case parseAllowed parseCIDR ips of Inl e \<Rightarrow> Inl e | Inr ns \<Rightarrow> Inr (n # ns)))"

definition Connect ::
  "('k, 'u, 'n, 'x world_scheme) tobDeps \<Rightarrow> AuthManager \<Rightarrow> VPNManager \<Rightarrow> 'x world_scheme \<Rightarrow>
   goerr option \<times> VPNManager \<times> 'x world_scheme" where
  "Connect D a v w =
     (if vp_connected v then (Some (Errorf ''already connected''), v, w)
      else case fetchTunnelConfig D a v w of
        (Inl e, w1) \<Rightarrow> (Some (Wrapf ''failed to fetch tunnel config: '' e []), v, w1)
      | (Inr t, w1) \<Rightarrow>
          let v1 = v\<lparr>vp_configData := Some t\<rparr>
          in case td_GenerateKey D w1 of
               (Inl e, w2) \<Rightarrow> (Some (Wrapf ''failed to generate private key: '' e []), v1, w2)
             | (Inr privateKey, w2) \<Rightarrow>
          (case td_ParseKey D (tc_ServerPublicKey t) of
               Inl e \<Rightarrow> (Some (Wrapf ''invalid server public key: '' e []), v1, w2)
             | Inr serverKey \<Rightarrow>
          (case td_ResolveUDP D (tc_ServerEndpoint t) w2 of
               (Inl e, w3) \<Rightarrow> (Some (Wrapf ''failed to resolve server endpoint: '' e []), v1, w3)
             | (Inr addr, w3) \<Rightarrow>
          (case parseAllowed (td_ParseCIDR D) (tc_AllowedIPs t) of
               Inl e \<Rightarrow> (Some e, v1, w3)
             | Inr nets \<Rightarrow>
          (case td_Configure D (mc_InterfaceName (vp_config v))
                  \<lparr>wg_PrivateKey = privateKey, wg_PublicKey = serverKey, wg_Endpoint = addr, wg_AllowedIPs = nets,
                   wg_Keepalive = mc_Keepalive (vp_config v) * 1000000000\<rparr> w3 of
               (Some e, w4) \<Rightarrow> (Some (Wrapf ''failed to configure wireguard device: '' e []), v1, w4)
             | (None, w4) \<Rightarrow> (None, v1\<lparr>vp_connected := True, vp_lastHandshake := wnow w4\<rparr>, w4))))))"

definition Disconnect :: "VPNManager \<Rightarrow> goerr option \<times> VPNManager" where
  "Disconnect v = (if \<not> vp_connected v then (None, v) else (None, v\<lparr>vp_connected := False\<rparr>))"

definition RotateConfig ::
  "('k, 'u, 'n, 'w) tobDeps \<Rightarrow> AuthManager \<Rightarrow> bool \<Rightarrow> VPNManager \<Rightarrow> 'w \<Rightarrow> goerr option \<times> VPNManager \<times> 'w" where
  "RotateConfig D a force v w =
     (case fetchTunnelConfig D a v w of
        (Inl e, w1) \<Rightarrow> (Some (Wrapf ''failed to fetch new config: '' e []), v, w1)
      | (Inr t, w1) \<Rightarrow> (None, v\<lparr>vp_configData := Some t\<rparr>, w1))"

definition SaveCert :: "bytes \<Rightarrow> VPNManager \<Rightarrow> os \<Rightarrow> oserr option \<times> os" where
  "SaveCert cert v s = WriteFile (JoinPath [vp_dataDir v, ''tunnel.crt'']) cert mode600 s"

section \<open>Lifecycle\<close>

definition tob_New :: "'w TobModule" where
  "tob_New =
     \<lparr>to_host = None, to_auth = None, to_vpn = None, to_config = None, to_running = False, to_stopClosed = False,
      to_metrics = None, to_lastHealth = \<lparr>th_Level = 0, th_Message = [], th_CheckedAt = zeroTime\<rparr>\<rparr>"

definition tob_Info :: "'w TobModule \<Rightarrow> ModuleInfo" where
  "tob_Info m =
     \<lparr>mi_Name = ''tobogganing'', mi_Version = ''1.0.0'',
      mi_Description = ''WireGuard-compatible SASE/ZTNA endpoint client'', mi_LicenseFeature = []\<rparr>"

definition tobDefaults :: ModuleConfig where
  "tobDefaults =
     \<lparr>mc_ManagerURL = [], mc_NodeID = [], mc_InterfaceName = ''wg0'', mc_MTU = 1420, mc_DNS = [], mc_Keepalive = 25,
      mc_AllowedIPs = [], mc_Embedded = True\<rparr>"

definition tobMetricNames :: "string list" where
  "tobMetricNames = [''tobogganing_tunnel_up'', ''tobogganing_handshake_age_seconds'', ''tobogganing_rx_bytes_total'',
     ''tobogganing_tx_bytes_total'', ''tobogganing_token_refreshes_total'', ''tobogganing_connection_errors_total'']"

fun registerAll :: "(string \<Rightarrow> 'w \<Rightarrow> goerr option \<times> 'w) \<Rightarrow> string list \<Rightarrow> 'w \<Rightarrow> goerr option \<times> 'w" where
  "registerAll reg [] w = (None, w)"
| "registerAll reg (c # cs) w = (case reg c w of (Some e, w1) \<Rightarrow> (Some e, w1) | (None, w1) \<Rightarrow> registerAll reg cs w1)"

definition tob_registerMetrics ::
  "('k, 'u, 'n, 'w) tobDeps \<Rightarrow> 'w TobModule \<Rightarrow> 'w \<Rightarrow> goerr option \<times> 'w TobModule \<times> 'w" where
  "tob_registerMetrics D m w =
     (case registerAll (td_Register D) tobMetricNames w of (r, w1) \<Rightarrow>
        (r, m\<lparr>to_metrics := Some \<lparr>tm_tunnelUp = 0, tm_handshakeAge = 0, tm_tokenRefreshes = 0, tm_connErrors = 0\<rparr>\<rparr>, w1))"

definition tob_Init ::
  "('k, 'u, 'n, 'w) tobDeps \<Rightarrow> 'w HostServices option \<Rightarrow> 'w TobModule \<Rightarrow> 'w \<Rightarrow> goerr option \<times> 'w TobModule \<times> 'w" where
  "tob_Init D hostOpt m w =
     (case hostOpt of None \<Rightarrow> (Some (tobPanic ''nil host''), m\<lparr>to_host := None\<rparr>, w)
      | Some host \<Rightarrow>
          let m1 = m\<lparr>to_host := Some host\<rparr>
          in case (if h_Config host = [] then Inr tobDefaults else td_yaml D (h_Config host) tobDefaults) of
               Inl e \<Rightarrow> (Some (Wrapf ''failed to parse config: '' e []), m1, w)
             | Inr cfg \<Rightarrow>
                 if mc_ManagerURL cfg = [] then (Some (Errorf ''manager_url is required''), m1, w)
                 else if mc_NodeID cfg = [] then (Some (Errorf ''node_id is required''), m1, w)
                 else case NewAuthManager (td_net D) host (mc_ManagerURL cfg) w of (a, w1) \<Rightarrow>
                        (case tob_registerMetrics D
                                (m1\<lparr>to_config := Some cfg, to_auth := Some a,
                                    to_vpn := Some (NewVPNManager cfg (h_DataDir host))\<rparr>) w1 of
                           (_, m2, w2) \<Rightarrow> (None, m2, w2)))"

definition gauge :: "(TobMetrics \<Rightarrow> TobMetrics) \<Rightarrow> 'w TobModule \<Rightarrow> 'w TobModule" where
  "gauge f m = m\<lparr>to_metrics := map_option f (to_metrics m)\<rparr>"

definition tunnelUp :: "nat \<Rightarrow> 'w TobModule \<Rightarrow> 'w TobModule" where
  "tunnelUp n = gauge (\<lambda>g. g\<lparr>tm_tunnelUp := n\<rparr>)"

definition connError :: "'w TobModule \<Rightarrow> 'w TobModule" where
  "connError = gauge (\<lambda>g. g\<lparr>tm_connErrors := Suc (tm_connErrors g)\<rparr>)"

definition tob_Start :: "ctx \<Rightarrow> 'w TobModule \<Rightarrow> 'w \<Rightarrow> goerr option \<times> 'w TobModule \<times> 'w" where
  "tob_Start ctx m w =
     (if to_running m then (Some (Errorf ''module already running''), m, w)
      else (None, tunnelUp 0 (m\<lparr>to_running := True\<rparr>), w))"

definition revokeOnStop ::
  "('k, 'u, 'n, 'w) tobDeps \<Rightarrow> 'w TobModule \<Rightarrow> 'w \<Rightarrow> 'w TobModule \<times> 'w" where
  "revokeOnStop D m w =
     (case (to_auth m, to_host m) of
        (Some a, Some host) \<Rightarrow>
          (case RevokeToken (td_net D) host a w of (_, a', w1) \<Rightarrow> (m\<lparr>to_auth := Some a'\<rparr>, w1))
      | _ \<Rightarrow> (m, w))"

definition tob_Stop ::
  "('k, 'u, 'n, 'w) tobDeps \<Rightarrow> 'w TobModule \<Rightarrow> 'w \<Rightarrow> goerr option \<times> 'w TobModule \<times> 'w" where
  "tob_Stop D m w =
     (if \<not> to_running m then (None, m, w)
      else let m1 = m\<lparr>to_running := False\<rparr>
           in if to_stopClosed m then (Some (tobPanic ''close of closed channel''), m1, w)
              else let m2 = m1\<lparr>to_stopClosed := True, to_vpn := map_option (\<lambda>v. snd (Disconnect v)) (to_vpn m)\<rparr>
                   in case revokeOnStop D m2 w of (m3, w1) \<Rightarrow> (None, tunnelUp 0 m3, w1))"

section \<open>Background work\<close>

text \<open>The critical sections of \<open>establishTunnel\<close>: the check under the module's lock, the token under the
  token manager's, the connection under the tunnel's.\<close>

definition et_check :: "'w TobModule \<Rightarrow> goerr option" where
  "et_check m = (if to_running m then None else Some (Errorf ''module not running''))"

definition et_token ::
  "('k, 'u, 'n, 'x world_scheme) tobDeps \<Rightarrow> 'x world_scheme TobModule \<Rightarrow> 'x world_scheme \<Rightarrow>
   goerr option \<times> 'x world_scheme TobModule \<times> 'x world_scheme" where
  "et_token D m w =
     (case (to_auth m, to_host m) of
        (Some a, Some host) \<Rightarrow>
          (case EnsureValidToken (td_net D) host a w of (e, a', w1) \<Rightarrow>
             (map_option (\<lambda>x. Wrapf ''failed to obtain token: '' x []) e, m\<lparr>to_auth := Some a'\<rparr>, w1))
      | _ \<Rightarrow> (Some (tobPanic ''nil auth manager''), m, w))"

definition et_connect ::
  "('k, 'u, 'n, 'x world_scheme) tobDeps \<Rightarrow> 'x world_scheme TobModule \<Rightarrow> 'x world_scheme \<Rightarrow>
   goerr option \<times> 'x world_scheme TobModule \<times> 'x world_scheme" where
  "et_connect D m w =
     (case (to_auth m, to_vpn m) of
        (Some a, Some v) \<Rightarrow>
          (case Connect D a v w of
             (Some e, v', w1) \<Rightarrow> (Some (Wrapf ''failed to establish tunnel: '' e []), connError (m\<lparr>to_vpn := Some v'\<rparr>), w1)
           | (None, v', w1) \<Rightarrow> (None, tunnelUp 1 (m\<lparr>to_vpn := Some v'\<rparr>), w1))
      | _ \<Rightarrow> (Some (tobPanic ''nil manager''), m, w))"

definition establishTunnel ::
  "('k, 'u, 'n, 'x world_scheme) tobDeps \<Rightarrow> 'x world_scheme TobModule \<Rightarrow> 'x world_scheme \<Rightarrow>
   goerr option \<times> 'x world_scheme TobModule \<times> 'x world_scheme" where
  "establishTunnel D m w =
     (case et_check m of Some e \<Rightarrow> (Some e, m, w)
      | None \<Rightarrow>
          (case et_token D m w of (Some e, m1, w1) \<Rightarrow> (Some e, m1, w1)
           | (None, m1, w1) \<Rightarrow> et_connect D m1 w1))"

definition initialConnect ::
  "('k, 'u, 'n, 'x world_scheme) tobDeps \<Rightarrow> 'x world_scheme TobModule \<Rightarrow> 'x world_scheme \<Rightarrow>
   'x world_scheme TobModule \<times> 'x world_scheme" where
  "initialConnect D m w =
     (case et_token D m w of
        (Some e, m1, w1) \<Rightarrow> (connError m1, w1)
      | (None, m1, w1) \<Rightarrow>
          (case establishTunnel D m1 w1 of
             (Some e, m2, w2) \<Rightarrow> (connError m2, w2)
           | (None, m2, w2) \<Rightarrow> (m2, w2)))"

definition rotateConfig ::
  "('k, 'u, 'n, 'w) tobDeps \<Rightarrow> bool \<Rightarrow> 'w TobModule \<Rightarrow> 'w \<Rightarrow> goerr option \<times> 'w TobModule \<times> 'w" where
  "rotateConfig D force m w =
     (case (to_auth m, to_vpn m) of
        (Some a, Some v) \<Rightarrow> (case RotateConfig D a force v w of (e, v', w1) \<Rightarrow> (e, m\<lparr>to_vpn := Some v'\<rparr>, w1))
      | _ \<Rightarrow> (Some (tobPanic ''nil manager''), m, w))"

text \<open>One tick of the refresh loop.\<close>

definition authRefreshTick ::
  "('k, 'u, 'n, 'x world_scheme) tobDeps \<Rightarrow> 'x world_scheme TobModule \<Rightarrow> 'x world_scheme \<Rightarrow>
   'x world_scheme TobModule \<times> 'x world_scheme" where
  "authRefreshTick D m w =
     (case (to_auth m, to_host m) of
        (Some a, Some host) \<Rightarrow>
          if IsTokenExpired (5 * minute) (wnow w) a then
            (case RefreshToken (td_net D) host a w of
               (Some e, a', w1) \<Rightarrow> (connError (m\<lparr>to_auth := Some a'\<rparr>), w1)
             | (None, a', w1) \<Rightarrow>
                 (gauge (\<lambda>g. g\<lparr>tm_tokenRefreshes := Suc (tm_tokenRefreshes g)\<rparr>) (m\<lparr>to_auth := Some a'\<rparr>), w1))
          else (m, w)
      | _ \<Rightarrow> (m, w))"

text \<open>One tick of the monitor loop.\<close>

definition updateHealthProbe ::
  "('k, 'u, 'n, 'w) tobDeps \<Rightarrow> time \<Rightarrow> 'w TobModule \<Rightarrow> 'w TobModule" where
  "updateHealthProbe D now m =
     (case to_vpn m of None \<Rightarrow> m
      | Some v \<Rightarrow>
          if \<not> vp_connected v then
            m\<lparr>to_lastHealth := \<lparr>th_Level = Unhealthy, th_Message = ''tunnel is not connected'', th_CheckedAt = now\<rparr>\<rparr>
          else
            let age = now - vp_lastHandshake v;
                m1 = gauge (\<lambda>g. g\<lparr>tm_handshakeAge := age\<rparr>) m
            in if age > 2 * minute then
                 m1\<lparr>to_lastHealth := \<lparr>th_Level = Degraded,
                     th_Message = ''last handshake was '' @ td_durationText D age @ '' ago'', th_CheckedAt = now\<rparr>\<rparr>
               else
                 m1\<lparr>to_lastHealth := \<lparr>th_Level = Healthy, th_Message = ''tunnel is connected and healthy'', th_CheckedAt = now\<rparr>\<rparr>)"


section \<open>Status and commands\<close>

definition tob_Status :: "'w TobModule \<Rightarrow> 'w \<Rightarrow> Status \<times> goerr option" where
  "tob_Status m w =
     (let d0 = [(''tunnel'', ''down'')];
          d1 = (case to_vpn m of None \<Rightarrow> d0
                | Some v \<Rightarrow>
                    put ''node_id'' (mc_NodeID (vp_config v)) (put ''endpoint'' (mc_ManagerURL (vp_config v))
                      (if vp_connected v then put ''tunnel'' ''up'' d0 else d0)))
      in (\<lparr>st_State = (if to_running m then StateRunning else StateDisabled), st_Detail = d1\<rparr>, None))"

definition tob_Health :: "'w TobModule \<Rightarrow> 'w \<Rightarrow> HealthReport \<times> 'w TobModule \<times> 'w" where
  "tob_Health m w =
     (\<lparr>hr_Level = th_Level (to_lastHealth m), hr_Message = th_Message (to_lastHealth m),
       hr_CheckedAt = th_CheckedAt (to_lastHealth m)\<rparr>, m, w)"

definition tob_Commands :: "'w TobModule \<Rightarrow> CommandSpec list" where
  "tob_Commands m =
     [CommandSpec ''connect'' ''connect'' ''Establish VPN connection'' [] [] True 0 0,
      CommandSpec ''disconnect'' ''disconnect'' ''Terminate VPN connection'' [] [] True 0 0,
      CommandSpec ''status'' ''status'' ''Show VPN connection status''
        [\<lparr>fl_Name = ''json'', fl_Shorthand = [], fl_Usage = ''Output as JSON'', fl_Default = ''false'', fl_Type = FlagBool\<rparr>]
        [] False 0 0,
      CommandSpec ''rotate'' ''rotate'' ''Force config/cert rotation''
        [\<lparr>fl_Name = ''force'', fl_Shorthand = [], fl_Usage = ''Force refresh without checking expiry'',
          fl_Default = ''false'', fl_Type = FlagBool\<rparr>] [] False 0 0]"

definition tobResult :: "string \<Rightarrow> bytes \<Rightarrow> 64 word \<Rightarrow> Result option \<times> goerr option" where
  "tobResult out j code = (Some \<lparr>rs_Output = out, rs_JSON = j, rs_ExitCode = code\<rparr>, None)"

definition cmdConnect ::
  "('k, 'u, 'n, 'x world_scheme) tobDeps \<Rightarrow> 'x world_scheme TobModule \<Rightarrow> 'x world_scheme \<Rightarrow>
   (Result option \<times> goerr option) \<times> 'x world_scheme TobModule \<times> 'x world_scheme" where
  "cmdConnect D m w =
     (case establishTunnel D m w of
        (Some e, m1, w1) \<Rightarrow> (tobResult (''connection failed: '' @ Error e) [] 1, m1, w1)
      | (None, m1, w1) \<Rightarrow> (tobResult ''connected'' [] 0, m1, w1))"

definition cmdDisconnect :: "'w TobModule \<Rightarrow> (Result option \<times> goerr option) \<times> 'w TobModule" where
  "cmdDisconnect m =
     (case to_vpn m of None \<Rightarrow> ((None, Some (tobPanic ''nil manager'')), m)
      | Some v \<Rightarrow>
          (case Disconnect v of
             (Some e, v') \<Rightarrow> (tobResult (''disconnection failed: '' @ Error e) [] 1, m\<lparr>to_vpn := Some v'\<rparr>)
           | (None, v') \<Rightarrow> (tobResult ''disconnected'' [] 0, tunnelUp 0 (m\<lparr>to_vpn := Some v'\<rparr>))))"

text \<open>The lines of the plain output come in the iteration order of the detail map.\<close>

definition cmdStatus :: "bool \<Rightarrow> 'w TobModule \<Rightarrow> 'w \<Rightarrow> Result option \<times> goerr option" where
  "cmdStatus asJSON m w =
     (case tob_Status m w of
        (st, Some e) \<Rightarrow> tobResult (''status check failed: '' @ Error e) [] 1
      | (st, None) \<Rightarrow>
          if asJSON then
            let j = Marshal (JObj [(''detail'', JObj (map (\<lambda>(k, v). (k, JStr v)) (sort_key fst (st_Detail st)))),
                                   (''state'', JStr (st_State st))])
            in tobResult j j 0
          else tobResult (''State: '' @ st_State st @ [CHR 0x0A] @
                 concat (map (\<lambda>(k, v). ''  '' @ k @ '': '' @ v @ [CHR 0x0A]) (st_Detail st))) [] 0)"

definition cmdRotate ::
  "('k, 'u, 'n, 'w) tobDeps \<Rightarrow> bool \<Rightarrow> 'w TobModule \<Rightarrow> 'w \<Rightarrow>
   (Result option \<times> goerr option) \<times> 'w TobModule \<times> 'w" where
  "cmdRotate D force m w =
     (case rotateConfig D force m w of
        (Some e, m1, w1) \<Rightarrow> (tobResult (''rotation failed: '' @ Error e) [] 1, m1, w1)
      | (None, m1, w1) \<Rightarrow> (tobResult ''config rotated'' [] 0, m1, w1))"

definition flagTrue :: "(string, string) gomap \<Rightarrow> string \<Rightarrow> bool" where
  "flagTrue flags k \<longleftrightarrow> get flags k = Some ''true''"

definition tob_Dispatch ::
  "('k, 'u, 'n, 'x world_scheme) tobDeps \<Rightarrow> string list \<Rightarrow> (string, string) gomap \<Rightarrow> string list \<Rightarrow>
   'x world_scheme TobModule \<Rightarrow> 'x world_scheme \<Rightarrow>
   (Result option \<times> goerr option) \<times> 'x world_scheme TobModule \<times> 'x world_scheme" where
  "tob_Dispatch D path flags args m w =
     (case path of [] \<Rightarrow> (tobResult ''no command specified'' [] 1, m, w)
      | cmd # _ \<Rightarrow>
          if cmd = ''connect'' then cmdConnect D m w
          else if cmd = ''disconnect'' then (case cmdDisconnect m of (r, m1) \<Rightarrow> (r, m1, w))
          else if cmd = ''status'' then (cmdStatus (flagTrue flags ''json'') m w, m, w)
          else if cmd = ''rotate'' then cmdRotate D (flagTrue flags ''force'') m w
          else (tobResult (''unknown command: '' @ cmd) [] 1, m, w))"

definition tob_ConfigSchema :: \<open>'w TobModule \<Rightarrow> bytes\<close> where
  \<open>tob_ConfigSchema m =
     Join [CHR 0x0A]
       [''{'',
        ''  "$schema": "http://json-schema.org/draft-07/schema#",'',
        ''  "type": "object",'',
        ''  "properties": {'',
        ''    "manager_url": {'',
        ''      "type": "string",'',
        ''      "description": "Manager API base URL"'',
        ''    },'',
        ''    "node_id": {'',
        ''      "type": "string",'',
        ''      "description": "Unique node identifier"'',
        ''    },'',
        ''    "interface_name": {'',
        ''      "type": "string",'',
        ''      "description": "WireGuard interface name",'',
        ''      "default": "wg0"'',
        ''    },'',
        ''    "mtu": {'',
        ''      "type": "integer",'',
        ''      "description": "WireGuard MTU",'',
        ''      "default": 1420'',
        ''    },'',
        ''    "dns": {'',
        ''      "type": "array",'',
        ''      "items": { "type": "string" },'',
        ''      "description": "DNS servers to push"'',
        ''    },'',
        ''    "keepalive": {'',
        ''      "type": "integer",'',
        ''      "description": "WireGuard keepalive interval (seconds)",'',
        ''      "default": 25'',
        ''    },'',
        ''    "allowed_ips": {'',
        ''      "type": "array",'',
        ''      "items": { "type": "string" },'',
        ''      "description": "Allowed IPs on tunnel"'',
        ''    },'',
        ''    "embedded": {'',
        ''      "type": "boolean",'',
        ''      "description": "Use embedded userspace WireGuard",'',
        ''      "default": true'',
        ''    }'',
        ''  },'',
        ''  "required": ["manager_url", "node_id"]'',
        ''}'']\<close>

definition tobModule ::
  "('k, 'u, 'n, 'x world_scheme) tobDeps \<Rightarrow> ('x world_scheme TobModule, 'x world_scheme) Module" where
  "tobModule D =
     \<lparr>m_Info = tob_Info, m_Init = tob_Init D, m_Start = tob_Start, m_Stop = tob_Stop D,
      m_Status = tob_Status, m_Health = tob_Health, m_Commands = tob_Commands,
      m_Dispatch = tob_Dispatch D, m_ConfigSchema = tob_ConfigSchema\<rparr>"


section \<open>Properties\<close>

lemma parseAllowed_Inr: "parseAllowed f ips = Inr ns \<Longrightarrow> list_all2 (\<lambda>ip n. f ip = Inr n) ips ns"
  by (induction ips arbitrary: ns) (auto split: sum.splits)

lemma Connect_ok: "Connect D a v w = (None, v', w') \<Longrightarrow> vp_connected v'"
  by (auto simp: Connect_def Let_def split: if_splits prod.splits sum.splits option.splits)

lemma Connect_chain:
  assumes "Connect D a v w = (None, v', w')"
  shows "\<not> vp_connected v \<and> GetToken a \<noteq> [] \<and> vp_connected v' \<and> vp_lastHandshake v' = wnow w' \<and>
      (\<exists>t w1 key w2 spub addr w3 nets.
         fetchTunnelConfig D a v w = (Inr t, w1) \<and> vp_configData v' = Some t \<and>
         td_GenerateKey D w1 = (Inr key, w2) \<and> td_ParseKey D (tc_ServerPublicKey t) = Inr spub \<and>
         td_ResolveUDP D (tc_ServerEndpoint t) w2 = (Inr addr, w3) \<and>
         list_all2 (\<lambda>ip n. td_ParseCIDR D ip = Inr n) (tc_AllowedIPs t) nets \<and>
         td_Configure D (mc_InterfaceName (vp_config v))
           \<lparr>wg_PrivateKey = key, wg_PublicKey = spub, wg_Endpoint = addr, wg_AllowedIPs = nets,
            wg_Keepalive = mc_Keepalive (vp_config v) * 1000000000\<rparr> w3 = (None, w'))"
proof -
  have tok: "fetchTunnelConfig D a v w = (Inr t, w1) \<Longrightarrow> GetToken a \<noteq> []" for t w1
    by (auto simp: fetchTunnelConfig_def)
  show ?thesis using assms tok
    by (auto simp: Connect_def Let_def split: if_splits prod.splits sum.splits option.splits) (blast intro: parseAllowed_Inr)
qed

text \<open>C32: When a tunnel counts as connected. A successful \<open>Connect\<close> started from a disconnected manager with a
  token, and configured the device with the key, the endpoint and the networks of the configuration the
  manager API served, each of them parsed; the handshake time is the time of the call. A failing one never
  changes whether the tunnel is connected.\<close>

theorem connect_effect:
  assumes "Connect D a v w = (r, v', w')"
  shows "(r \<noteq> None \<longrightarrow> vp_connected v' = vp_connected v \<and> vp_lastHandshake v' = vp_lastHandshake v) \<and>
    (r = None \<longrightarrow> \<not> vp_connected v \<and> GetToken a \<noteq> [] \<and> vp_connected v' \<and> vp_lastHandshake v' = wnow w' \<and>
      (\<exists>t w1 key w2 spub addr w3 nets.
         fetchTunnelConfig D a v w = (Inr t, w1) \<and> vp_configData v' = Some t \<and>
         td_GenerateKey D w1 = (Inr key, w2) \<and> td_ParseKey D (tc_ServerPublicKey t) = Inr spub \<and>
         td_ResolveUDP D (tc_ServerEndpoint t) w2 = (Inr addr, w3) \<and>
         list_all2 (\<lambda>ip n. td_ParseCIDR D ip = Inr n) (tc_AllowedIPs t) nets \<and>
         td_Configure D (mc_InterfaceName (vp_config v))
           \<lparr>wg_PrivateKey = key, wg_PublicKey = spub, wg_Endpoint = addr, wg_AllowedIPs = nets,
            wg_Keepalive = mc_Keepalive (vp_config v) * 1000000000\<rparr> w3 = (None, w')))"
proof (cases r)
  case (Some e)
  then show ?thesis using assms
    by (auto simp: Connect_def Let_def split: if_splits prod.splits sum.splits option.splits)
next
  case None
  with Connect_chain [of D a v w v' w'] assms show ?thesis by simp
qed

text \<open>The background of a running module: ticks of its two loops.\<close>

datatype tobTick = AuthTick | MonitorTick

fun tobTicks ::
  "('k, 'u, 'n, 'x world_scheme) tobDeps \<Rightarrow> tobTick list \<Rightarrow> 'x world_scheme TobModule \<Rightarrow> 'x world_scheme \<Rightarrow>
   'x world_scheme TobModule \<times> 'x world_scheme" where
  "tobTicks D [] m w = (m, w)"
| "tobTicks D (AuthTick # ts) m w = (case authRefreshTick D m w of (m1, w1) \<Rightarrow> tobTicks D ts m1 w1)"
| "tobTicks D (MonitorTick # ts) m w = tobTicks D ts (updateHealthProbe D (wnow w) m) w"

lemma gauge_vpn [simp]: "to_vpn (gauge f m) = to_vpn m"
  by (simp add: gauge_def)

lemma tick_vpn [frame]:
  "to_vpn (updateHealthProbe D now m) = to_vpn m" "to_vpn (fst (authRefreshTick D m w)) = to_vpn m"
  by (auto simp: updateHealthProbe_def authRefreshTick_def connError_def Let_def split: option.splits prod.splits)

lemma tobTicks_vpn [frame]: "to_vpn (fst (tobTicks D ts m w)) = to_vpn m"
proof (induction D ts m w rule: tobTicks.induct)
  case (2 D ts m w)
  then show ?case using tick_vpn(2) [of D m w] by (cases "authRefreshTick D m w") simp
qed (simp_all add: tick_vpn)

text \<open>The health verdict goes stale. The background loops neither reconnect a tunnel nor take note of a
  handshake. However often they have run, the next probe finds a disconnected tunnel unhealthy, and a
  connected one healthy up to two minutes after it was connected and degraded ever after.\<close>

theorem health_goes_stale:
  assumes "to_vpn m = Some v"
  shows "th_Level (to_lastHealth (updateHealthProbe D now (fst (tobTicks D ts m w)))) =
    (if \<not> vp_connected v then Unhealthy
     else if now - vp_lastHandshake v > 2 * minute then Degraded else Healthy)"
proof -
  have "to_vpn (fst (tobTicks D ts m w)) = Some v" using assms by (simp add: tobTicks_vpn)
  then show ?thesis by (simp add: updateHealthProbe_def Let_def gauge_def)
qed

text \<open>C40: A tunnel can come up after the module has stopped. \<open>establishTunnel\<close> looks at the running flag first
  and connects later. If the module is stopped in between, a token can still be obtained and the tunnel be
  configured; the module is then not running, its tunnel is connected, and stopping it again does nothing.\<close>

theorem tunnel_after_stop:
  assumes "to_running m" and "tob_Stop D m w = (None, m1, w1)" and "et_token D m1 w1 = (None, m2, w2)"
    and "et_connect D m2 w2 = (None, m3, w3)"
  shows "et_check m = None \<and> \<not> to_running m3 \<and> (\<exists>v. to_vpn m3 = Some v \<and> vp_connected v) \<and>
    tob_Stop D m3 w3 = (None, m3, w3)"
proof -
  have "to_running m1 = False"
    using assms(1,2) by (auto simp: tob_Stop_def revokeOnStop_def tunnelUp_def gauge_def Let_def split: if_splits prod.splits option.splits)
  then have "to_running m2 = False"
    using assms(3) by (auto simp: et_token_def split: option.splits prod.splits)
  moreover obtain a v v' where "Connect D a v w2 = (None, v', w3)" "m3 = tunnelUp 1 (m2\<lparr>to_vpn := Some v'\<rparr>)"
    using assms(4) by (auto simp: et_connect_def split: option.splits prod.splits)
  ultimately show ?thesis
    using Connect_ok assms(1) by (auto simp: et_check_def tunnelUp_def gauge_def tob_Stop_def)
qed

section \<open>A manager that grants everything\<close>

definition grantNet :: "'w tobNet" where
  \<open>grantNet = \<lparr>nt_do = \<lambda>_ w. (Response 200 (Inr ''{"access_token":"t"}''), w), nt_exp = \<lambda>_. Inr None,
     nt_time = \<lparr>formatTime = Itoa, parseTime = Atoi\<rparr>\<rparr>\<close>

definition grantDeps :: "(unit, unit, unit, 'w) tobDeps" where
  "grantDeps =
     \<lparr>td_net = grantNet, td_yaml = \<lambda>_ c. Inr c, td_GenerateKey = \<lambda>w. (Inr (), w), td_ParseKey = \<lambda>_. Inr (),
      td_ResolveUDP = \<lambda>_ w. (Inr (), w), td_ParseCIDR = \<lambda>_. Inr (), td_Configure = \<lambda>_ _ w. (None, w),
      td_durationText = \<lambda>_. [], td_Register = \<lambda>_ w. (None, w)\<rparr>"

definition keyHost :: "world HostServices" where
  "keyHost = quietHost\<lparr>h_SecretsGet := \<lambda>_ w. (Inr ''key'', w)\<rparr>"

definition runningModule :: "world TobModule" where
  "runningModule = tob_New\<lparr>to_host := Some keyHost,
     to_auth := Some \<lparr>am_managerURL = ''https://m'', am_token = ''t0'', am_refreshToken = [], am_expiresAt = 5\<rparr>,
     to_vpn := Some (NewVPNManager tobDefaults ''/v''), to_running := True\<rparr>"

lemma grant_body:
  \<open>decodeBody (decObject (tokenField tc) emptyToken) (Inr ''{"access_token":"t"}'') = Inr (emptyToken\<lparr>tr_AccessToken := ''t''\<rparr>)\<close>
  \<open>decodeBody (decObject tunnelField emptyTunnel) (Inr ''{"access_token":"t"}'') = Inr emptyTunnel\<close>
proof -
  have p: \<open>decodeFirst ''{"access_token":"t"}'' = Some (JObj [(''access_token'', JStr ''t'')])\<close> by code_simp
  have low: "ToLower ''access_token'' = ''access_token''" by (simp add: ToLower_def lowerByte_def Let_def)
  show \<open>decodeBody (decObject (tokenField tc) emptyToken) (Inr ''{"access_token":"t"}'') = Inr (emptyToken\<lparr>tr_AccessToken := ''t''\<rparr>)\<close>
    by (simp add: decodeBody_def p decObject_def low tokenField_def scalar_def decString_def)
  show \<open>decodeBody (decObject tunnelField emptyTunnel) (Inr ''{"access_token":"t"}'') = Inr emptyTunnel\<close>
    by (simp add: decodeBody_def p decObject_def low tunnelField_def)
qed

lemma grant_connect_with:
  assumes "GetToken a \<noteq> []" and "\<not> vp_connected v" and "\<And>n c w. fst (conf n c w) = None"
  shows "\<exists>v' w'. Connect (grantDeps\<lparr>td_Configure := conf\<rparr>) a v w = (None, v', w')"
proof -
  have conf: "conf n c x = (None, snd (conf n c x))" for n c x using assms(3) [of n c x] by (cases "conf n c x") simp
  define f where "f = (\<lambda>n c x. snd (conf n c x))"
  have "conf = (\<lambda>n c x. (None, f n c x))" using conf by (simp add: f_def fun_eq_iff)
  with assms(1,2) grant_body(2) show ?thesis
    by (simp add: Connect_def fetchTunnelConfig_def DoJSON_def grantDeps_def grantNet_def emptyTunnel_def)
qed

lemma grant_connect:
  assumes "GetToken a \<noteq> []" and "\<not> vp_connected v"
  shows "\<exists>v' w'. Connect grantDeps a v w = (None, v', w')"
  using grant_connect_with [OF assms, of "\<lambda>_ _ w. (None, w)" w] by (simp add: grantDeps_def)

theorem connect_effect_witness:
  "\<exists>v' w'. Connect grantDeps \<lparr>am_managerURL = [], am_token = ''t'', am_refreshToken = [], am_expiresAt = 0\<rparr>
     (NewVPNManager tobDefaults ''/v'') world0 = (None, v', w') \<and> vp_connected v' \<and> vp_lastHandshake v' = wnow w'"
proof -
  let ?a = "\<lparr>am_managerURL = [], am_token = ''t'', am_refreshToken = [], am_expiresAt = 0\<rparr>"
  obtain v' w' where c: "Connect grantDeps ?a (NewVPNManager tobDefaults ''/v'') world0 = (None, v', w')"
    using grant_connect [of ?a "NewVPNManager tobDefaults ''/v''" world0] by (auto simp: GetToken_def NewVPNManager_def)
  from connect_effect [OF c] c show ?thesis by auto
qed

theorem health_goes_stale_witness:
  "th_Level (to_lastHealth (updateHealthProbe grantDeps (200 * second)
     (fst (tobTicks grantDeps [MonitorTick, AuthTick] (tob_New\<lparr>to_vpn := Some ((NewVPNManager tobDefaults [])\<lparr>vp_connected := True, vp_lastHandshake := 0\<rparr>)\<rparr>) world0)))) = Degraded"
  using health_goes_stale [of "tob_New\<lparr>to_vpn := Some ((NewVPNManager tobDefaults [])\<lparr>vp_connected := True, vp_lastHandshake := 0\<rparr>)\<rparr> :: world TobModule"
    "(NewVPNManager tobDefaults [])\<lparr>vp_connected := True, vp_lastHandshake := 0\<rparr>" grantDeps "200 * second" "[MonitorTick, AuthTick]" world0]
  by simp

theorem tunnel_after_stop_witness:
  "\<exists>m1 w1 m2 w2 m3 w3. tob_Stop grantDeps runningModule world0 = (None, m1, w1) \<and> et_token grantDeps m1 w1 = (None, m2, w2) \<and>
     et_connect grantDeps m2 w2 = (None, m3, w3) \<and> \<not> to_running m3 \<and> (\<exists>v. to_vpn m3 = Some v \<and> vp_connected v)"
proof -
  have s: "\<exists>m1. tob_Stop grantDeps runningModule world0 = (None, m1, world0) \<and> to_host m1 = Some keyHost \<and>
      (\<exists>a v. to_auth m1 = Some a \<and> am_token a = [] \<and> am_refreshToken a = [] \<and> to_vpn m1 = Some v \<and> \<not> vp_connected v)"
    by (simp add: tob_Stop_def runningModule_def tob_New_def revokeOnStop_def RevokeToken_def grantDeps_def grantNet_def
        tunnelUp_def gauge_def Disconnect_def NewVPNManager_def keyHost_def quietHost_def)
  then obtain m1 a v where m1: "tob_Stop grantDeps runningModule world0 = (None, m1, world0)" "to_host m1 = Some keyHost"
      "to_auth m1 = Some a" "am_token a = []" "am_refreshToken a = []" "to_vpn m1 = Some v" "\<not> vp_connected v" by blast
  have e: "tr_ExpiresAt emptyToken = zeroTime" "tr_RefreshToken emptyToken = []" by (simp_all add: emptyToken_def)
  have t: "\<exists>m2 a2. et_token grantDeps m1 world0 = (None, m2, world0) \<and> to_auth m2 = Some a2 \<and> am_token a2 = ''t'' \<and> to_vpn m2 = Some v"
    using m1(2-6) by (simp add: et_token_def EnsureValidToken_def obtainViaKey_def getAPIKey_def obtainTokenLocked_def
        grantDeps_def grantNet_def keyHost_def quietHost_def grant_body(1) fillExpiry_def extractTokenExpiry_def e
        cacheTokens_def)
  then obtain m2 a2 where m2: "et_token grantDeps m1 world0 = (None, m2, world0)" "to_auth m2 = Some a2" "am_token a2 = ''t''"
      "to_vpn m2 = Some v" by blast
  obtain v' w' where "Connect grantDeps a2 v world0 = (None, v', w')"
    using grant_connect [of a2 v world0] m1(7) m2(3) by (auto simp: GetToken_def)
  then obtain m3 w3 where m3: "et_connect grantDeps m2 world0 = (None, m3, w3)"
    using m2(2,4) by (simp add: et_connect_def)
  have "to_running runningModule" by (simp add: runningModule_def)
  from tunnel_after_stop [OF this m1(1) m2(1) m3] m1(1) m2(1) m3 show ?thesis by blast
qed

end
