(* ===== verification/Daemon.thy ===== *)
theory Daemon
  imports Server Secrets ConfigStore Ipc Licensing Squawk Tobogganing
begin

text \<open>
  The composition of the daemon: the host each module receives (\<open>internal/daemon/host.go\<close>), the registry of
  built-in modules (\<open>internal/registry/registry.go\<close>), start-up and shutdown (\<open>cmd/penguind/service.go\<close>) and
  the update client of the daemon (\<open>cmd/penguind/main.go\<close>). The world is extended by what the modules share:
  the keyring, the licence client, the event broker that \<open>initDaemon\<close> creates for the hosts, and the files that are
  locked. The libraries the daemon is linked with form the record \<open>daemonDeps\<close>. Logging, telemetry and the
  health service of gRPC are left out.
\<close>

section \<open>The host of a module\<close>

record 'r dworld = world +
  dw_ring :: 'r
  dw_license :: Client
  dw_licenseDone :: bool
  dw_broker :: EventBroker
  dw_locks :: "path list"

text \<open>A secret store as \<open>NewHost\<close> receives it: the store of the daemon, of which it takes a namespaced view,
  or any other implementation of the interface, which it uses as it is.\<close>

record 'w SecretStore =
  sst_Get :: "string \<Rightarrow> 'w \<Rightarrow> (goerr + bytes) \<times> 'w"
  sst_Set :: "string \<Rightarrow> bytes \<Rightarrow> 'w \<Rightarrow> goerr option \<times> 'w"
  sst_Delete :: "string \<Rightarrow> 'w \<Rightarrow> goerr option \<times> 'w"

datatype 'w secretArg = RingStore Store | OtherStore "'w SecretStore"

definition ringView :: "'r Keyring \<Rightarrow> Store \<Rightarrow> (('r, 'z) dworld_scheme) SecretStore" where
  "ringView K st =
     \<lparr>sst_Get = \<lambda>k w. (Store_Get K st k (dw_ring w), w),
      sst_Set = \<lambda>k v w. (case Store_Set K st k v (dw_ring w) of (e, r) \<Rightarrow> (e, w\<lparr>dw_ring := r\<rparr>)),
      sst_Delete = \<lambda>k w. (case Store_Delete K st k (dw_ring w) of (e, r) \<Rightarrow> (e, w\<lparr>dw_ring := r\<rparr>))\<rparr>"

definition NewHost ::
  "'r Keyring \<Rightarrow> string \<Rightarrow> (('r, 'z) dworld_scheme) secretArg \<Rightarrow> path \<Rightarrow> bytes \<Rightarrow> ('r, 'z) dworld_scheme \<Rightarrow>
   (('r, 'z) dworld_scheme) HostServices \<times> ('r, 'z) dworld_scheme" where
  "NewHost K moduleName secretStore stateDir config w =
     (let dataDir = JoinPath [stateDir, moduleName];
          w1 = snd (on_os (MkdirAll dataDir mode700) w);
          namespacedStore = (case secretStore of RingStore st \<Rightarrow> ringView K (Namespaced st moduleName) | OtherStore ss \<Rightarrow> ss)
      in (\<lparr>h_Config = config, h_DataDir = dataDir,
           h_SecretsGet = sst_Get namespacedStore, h_SecretsSet = sst_Set namespacedStore,
           h_SecretsDelete = sst_Delete namespacedStore,
           h_FeatureEnabled = \<lambda>key w. (FeatureEnabled (dw_license w) key, w),
           h_Tier = \<lambda>w. Tier (dw_license w),
           h_Publish = \<lambda>ev w. w\<lparr>dw_broker := Publish ev (dw_broker w)\<rparr>\<rparr>, w1))"

section \<open>The registry\<close>

type_synonym ('c, 'f, 'w) builtin = "('c, 'f, 'w) SquawkModule + 'w TobModule"

definition Builtins :: "('c, 'f, 'w) builtin list" where
  "Builtins = [Inl squawk_New, Inr tob_New]"

text \<open>The \<open>Module\<close> interface of a built-in module: the method of the module it is.\<close>

definition liftL :: "'e \<times> 'a \<times> 'w \<Rightarrow> 'e \<times> ('a + 'b) \<times> 'w" where
  "liftL r = (case r of (e, m, w) \<Rightarrow> (e, Inl m, w))"

definition liftR :: "'e \<times> 'b \<times> 'w \<Rightarrow> 'e \<times> ('a + 'b) \<times> 'w" where
  "liftR r = (case r of (e, m, w) \<Rightarrow> (e, Inr m, w))"

definition builtinModule ::
  "('a, 'c, 'f, 'x world_scheme) squawkDeps \<Rightarrow> ('k, 'u, 'n, 'x world_scheme) tobDeps \<Rightarrow>
   (('c, 'f, 'x world_scheme) builtin, 'x world_scheme) Module" where
  "builtinModule SD TD =
     (let S = squawkModule SD; T = tobModule TD
      in \<lparr>m_Info = case_sum (m_Info S) (m_Info T),
          m_Init = \<lambda>h m w. case m of Inl a \<Rightarrow> liftL (m_Init S h a w) | Inr b \<Rightarrow> liftR (m_Init T h b w),
          m_Start = \<lambda>c m w. case m of Inl a \<Rightarrow> liftL (m_Start S c a w) | Inr b \<Rightarrow> liftR (m_Start T c b w),
          m_Stop = \<lambda>m w. case m of Inl a \<Rightarrow> liftL (m_Stop S a w) | Inr b \<Rightarrow> liftR (m_Stop T b w),
          m_Status = case_sum (m_Status S) (m_Status T),
          m_Health = \<lambda>m w. case m of Inl a \<Rightarrow> liftL (m_Health S a w) | Inr b \<Rightarrow> liftR (m_Health T b w),
          m_Commands = case_sum (m_Commands S) (m_Commands T),
          m_Dispatch = \<lambda>p fs as m w. case m of Inl a \<Rightarrow> liftL (m_Dispatch S p fs as a w) | Inr b \<Rightarrow> liftR (m_Dispatch T p fs as b w),
          m_ConfigSchema = case_sum (m_ConfigSchema S) (m_ConfigSchema T)\<rparr>)"

section \<open>Start-up\<close>

record ('y, 'j, 'sch, 'r, 'w) daemonDeps =
  dd_yaml :: "bytes \<Rightarrow> goerr + DaemonConfig"
  dd_moduleYaml :: "bytes \<Rightarrow> goerr + 'y"
  dd_emptyMap :: 'y
  dd_schema :: "('y, 'j, 'sch) schemaLib"
  dd_keyring :: "'r Keyring"
  dd_openRing :: "'w \<Rightarrow> RingConfig \<Rightarrow> goerr + 'r"
  dd_time :: timeCodec
  dd_bind :: "path \<Rightarrow> os \<Rightarrow> string option"
  dd_ovf :: "real \<Rightarrow> int"
  dd_RFC3339 :: "time \<Rightarrow> string"
  dd_Getenv :: "string \<Rightarrow> string"
  dd_Version :: string

datatype initErr = MkdirState oserr | LockFailed lockErr | InitSecrets goerr | ListenIpc listenErr

record ('m, 'w) daemonProgram =
  dp_configDir :: path
  dp_stateDir :: path
  dp_socketPath :: path
  dp_group :: string
  dp_server :: "'w Server"
  dp_serving :: bool
  dp_listening :: bool
  dp_config :: "'w Config"
  dp_supervisor :: "('m, 'w) Supervisor"
  dp_secretStore :: Store

definition moduleSchemas :: "('m, 'w) Module \<Rightarrow> 'm list \<Rightarrow> (string, bytes) gomap" where
  "moduleSchemas M factories = fold (\<lambda>m. put (mi_Name (m_Info M m)) (m_ConfigSchema M m)) factories []"

text \<open>Nobody outside the daemon acts in the middle of a step, so both readings of \<open>ModuleRaw\<close> see the same file system here;
  what it does when the file changes in between is in \<open>ConfigStore\<close>.\<close>

definition hostFactory ::
  "('y, 'j, 'sch, 'r, ('r, 'z) dworld_scheme) daemonDeps \<Rightarrow> path \<Rightarrow> path \<Rightarrow> Store \<Rightarrow> (string, bytes) gomap \<Rightarrow>
   string \<Rightarrow> ('r, 'z) dworld_scheme \<Rightarrow> (('r, 'z) dworld_scheme) HostServices option \<times> ('r, 'z) dworld_scheme" where
  "hostFactory D configDir stateDir secretStore schemas moduleName w =
     (let schema = (case get schemas moduleName of Some b \<Rightarrow> b | None \<Rightarrow> []);
          raw = (case ModuleRaw (dd_moduleYaml D) (dd_emptyMap D) (dd_schema D) configDir moduleName schema (wos w) (wos w) of
                   Inl e \<Rightarrow> [] | Inr raw \<Rightarrow> raw)
      in case NewHost (dd_keyring D) moduleName (RingStore secretStore) stateDir raw w of (h, w1) \<Rightarrow> (Some h, w1))"

definition updateClientAdapter :: "string \<Rightarrow> 'w UpdateClient" where
  "updateClientAdapter version =
     \<lparr>uc_CheckUpdate = \<lambda>w. (Inr (False, version), w),
      uc_ApplyUpdate = \<lambda>w. (Some (Errorf ''update not implemented''), w)\<rparr>"

definition lock_call :: "(path list \<times> os \<Rightarrow> 'a \<times> path list \<times> os) \<Rightarrow> ('r, 'z) dworld_scheme \<Rightarrow> 'a \<times> ('r, 'z) dworld_scheme" where
  "lock_call f w = (case f (dw_locks w, wos w) of (r, ls, s) \<Rightarrow> (r, w\<lparr>dw_locks := ls, wos := s\<rparr>))"

definition releaseLock :: "path \<Rightarrow> ('r, 'z) dworld_scheme \<Rightarrow> ('r, 'z) dworld_scheme" where
  "releaseLock l w = snd (lock_call (\<lambda>st. ((), ReleaseLock l st)) w)"

definition daemonConfig :: "('y, 'j, 'sch, 'r, 'w) daemonDeps \<Rightarrow> path \<Rightarrow> path \<Rightarrow> os \<Rightarrow> DaemonConfig" where
  "daemonConfig D configDir socketPath s =
     (let cfg = (case cs_Daemon (dd_yaml D) configDir s of
                   Inr c \<Rightarrow> c
                 | Inl e \<Rightarrow> \<lparr>dc_SocketPath = ''/run/penguin/penguind.sock'', dc_PluginsDir = [], dc_LogLevel = [],
                             dc_Group = ''penguin''\<rparr>)
      in if socketPath \<noteq> [] then cfg\<lparr>dc_SocketPath := socketPath\<rparr> else cfg)"

definition initDaemon ::
  "('y, 'j, 'sch, 'r, ('r, 'z) dworld_scheme) daemonDeps \<Rightarrow> ('m, ('r, 'z) dworld_scheme) Module \<Rightarrow> 'm list \<Rightarrow>
   path \<Rightarrow> path \<Rightarrow> path \<Rightarrow> ('r, 'z) dworld_scheme \<Rightarrow>
   (initErr + ('m, ('r, 'z) dworld_scheme) daemonProgram) \<times> ('r, 'z) dworld_scheme" where
  "initDaemon D M factories configDir stateDir socketPath w =
     (let cfg = daemonConfig D configDir socketPath (wos w)
      in case on_os (MkdirAll stateDir mode700) w of
           (Some e, w1) \<Rightarrow> (Inl (MkdirState e), w1)
         | (None, w1) \<Rightarrow>
      (case lock_call (AcquireLock (JoinPath [stateDir, ''penguind.lock''])) w1 of
           (Inl e, w2) \<Rightarrow> (Inl (LockFailed e), w2)
         | (Inr l, w2) \<Rightarrow>
      (case Open (dd_openRing D w2)
              \<lparr>sc_ServiceName = ''penguind'', sc_FileDir = stateDir, sc_HasPassword = True, sc_AllowedBackends = []\<rparr> of
           Inl e \<Rightarrow> (Inl (InitSecrets e), releaseLock l w2)
         | Inr (store, ring) \<Rightarrow>
      let w3 = w2\<lparr>dw_ring := ring,
                  dw_license := NewClient (dd_time D)
                    \<lparr>op_LicenseKey = dd_Getenv D ''LICENSE_KEY'', op_Product = ''penguin'',
                     op_BaseURL = ''https://license.penguintech.io'', op_CacheDir = stateDir @ ''/license'',
                     op_RefreshInterval = 0\<rparr> (wos w2),
                  dw_licenseDone := False,
                  dw_broker := NewEventBroker\<rparr>;
          scfg = \<lparr>c_Host = hostFactory D configDir stateDir store (moduleSchemas M factories),
                  c_StatePath = stateDir @ ''/enabled.json'', c_Backoff = DefaultBackoff, c_MaxRestarts = 0,
                  c_ovf = dd_ovf D, c_RFC3339 = dd_RFC3339 D\<rparr>;
          spv = New M scfg factories;
          server = NewServer (dd_Version D) (Some (updateClientAdapter (dd_Version D)))
      in case on_os (Listen (dd_bind D) (dc_SocketPath cfg)) w3 of
           (Some e, w4) \<Rightarrow> (Inl (ListenIpc e), releaseLock l (w4\<lparr>dw_licenseDone := True\<rparr>))
         | (None, w4) \<Rightarrow>
             (case StartEnabled scfg M spv w4 of
                (_, spv', w5) \<Rightarrow>
                  (Inr \<lparr>dp_configDir = configDir, dp_stateDir = stateDir, dp_socketPath = dc_SocketPath cfg,
                        dp_group = dc_Group cfg, dp_server = server, dp_serving = False, dp_listening = True,
                        dp_config = scfg, dp_supervisor = spv', dp_secretStore = store\<rparr>, w5)))))"

section \<open>Serving and stopping\<close>

text \<open>Closing a listener that Go created removes its socket file, once.\<close>

definition closeListener ::
  "('m, ('r, 'z) dworld_scheme) daemonProgram \<Rightarrow> ('r, 'z) dworld_scheme \<Rightarrow>
   ('m, ('r, 'z) dworld_scheme) daemonProgram \<times> ('r, 'z) dworld_scheme" where
  "closeListener p w =
     (if dp_listening p then (p\<lparr>dp_listening := False\<rparr>, snd (on_os (Remove (dp_socketPath p)) w)) else (p, w))"

text \<open>\<open>GracefulStop\<close> closes the listeners that are being served.\<close>

definition gracefulStop ::
  "('m, ('r, 'z) dworld_scheme) daemonProgram \<Rightarrow> ('r, 'z) dworld_scheme \<Rightarrow>
   ('m, ('r, 'z) dworld_scheme) daemonProgram \<times> ('r, 'z) dworld_scheme" where
  "gracefulStop p w =
     (if dp_serving p then (case closeListener p w of (p1, w1) \<Rightarrow> (p1\<lparr>dp_serving := False\<rparr>, w1)) else (p, w))"

definition removeSocket ::
  "('y, 'j, 'sch, 'r, ('r, 'z) dworld_scheme) daemonDeps \<Rightarrow> ('m, ('r, 'z) dworld_scheme) daemonProgram \<Rightarrow>
   ('r, 'z) dworld_scheme \<Rightarrow> ('r, 'z) dworld_scheme" where
  "removeSocket D p w =
     (let sock = (case cs_Daemon (dd_yaml D) (dp_configDir p) (wos w) of
                    Inr cfg \<Rightarrow> dc_SocketPath cfg | Inl e \<Rightarrow> dp_socketPath p)
      in if sock \<noteq> [] then snd (on_os (Remove sock) w) else w)"

definition daemon_Stop ::
  "('y, 'j, 'sch, 'r, ('r, 'z) dworld_scheme) daemonDeps \<Rightarrow> ('m, ('r, 'z) dworld_scheme) Module \<Rightarrow>
   ('m, ('r, 'z) dworld_scheme) daemonProgram \<Rightarrow> ('r, 'z) dworld_scheme \<Rightarrow>
   ('m, ('r, 'z) dworld_scheme) daemonProgram \<times> ('r, 'z) dworld_scheme" where
  "daemon_Stop D M p w =
     (case gracefulStop p w of
        (p1, w1) \<Rightarrow>
          (case Shutdown (dp_config p1) M (dp_supervisor p1) (w1\<lparr>dw_licenseDone := True\<rparr>) of
             (spv, w2) \<Rightarrow> closeListener (p1\<lparr>dp_supervisor := spv\<rparr>) (removeSocket D p1 w2)))"


section \<open>Runs of the daemon\<close>

definition setBroker :: "EventBroker \<Rightarrow> ('m, 'w) daemonProgram \<Rightarrow> ('m, 'w) daemonProgram" where
  "setBroker eb p = p\<lparr>dp_server := (dp_server p)\<lparr>sv_eventBroker := eb\<rparr>\<rparr>"

abbreviation watchBroker :: "('m, 'w) daemonProgram \<Rightarrow> EventBroker" where
  "watchBroker p \<equiv> sv_eventBroker (dp_server p)"

text \<open>What a running daemon does: the supervisor's critical sections, the calls of \<open>WatchEvents\<close> on the
  server's broker, a validation by the licence client, serving, and stopping. \<open>initDaemon\<close> keeps no reference
  to the open lock file, so the garbage collector may close it, which ends the lock.\<close>

inductive daemon_step ::
  "('y, 'j, 'sch, 'r, ('r, 'z) dworld_scheme) daemonDeps \<Rightarrow> ('m, ('r, 'z) dworld_scheme) Module \<Rightarrow>
   ('m, ('r, 'z) dworld_scheme) daemonProgram \<times> ('r, 'z) dworld_scheme \<Rightarrow>
   ('m, ('r, 'z) dworld_scheme) daemonProgram \<times> ('r, 'z) dworld_scheme \<Rightarrow> bool"
  for D M where
  supervise: "sup_step (dp_config p) M (dp_supervisor p, w) (s', w') \<Longrightarrow>
              daemon_step D M (p, w) (p\<lparr>dp_supervisor := s'\<rparr>, w')"
| watch: "Subscribe (watchBroker p) = (i, eb) \<Longrightarrow> daemon_step D M (p, w) (setBroker eb p, w)"
| unwatch: "daemon_step D M (p, w) (setBroker (Unsubscribe i (watchBroker p)) p, w)"
| receive: "recv i (watchBroker p) = Some (e, eb) \<Longrightarrow> daemon_step D M (p, w) (setBroker eb p, w)"
| license: "\<not> dw_licenseDone w \<Longrightarrow> Validate (dd_time D) httpDo now (dw_license w) (wos w) = (e, c, s) \<Longrightarrow>
            daemon_step D M (p, w) (p, w\<lparr>dw_license := c, wos := s\<rparr>)"
| serve: "dp_listening p \<Longrightarrow> daemon_step D M (p, w) (p\<lparr>dp_serving := True\<rparr>, w)"
| stop: "daemon_Stop D M p w = (p', w') \<Longrightarrow> daemon_step D M (p, w) (p', w')"
| collect: "daemon_step D M (p, w)
     (p, w\<lparr>dw_locks := remove1 (Clean (JoinPath [dp_stateDir p, ''penguind.lock''])) (dw_locks w)\<rparr>)"

lemma setBroker_simps [simp]:
  "dp_config (setBroker eb p) = dp_config p" "dp_supervisor (setBroker eb p) = dp_supervisor p"
  "watchBroker (setBroker eb p) = eb"
  by (simp_all add: setBroker_def)

lemma closeListener_simps:
  assumes "closeListener p w = (p', w')"
  shows "dp_config p' = dp_config p" "dp_supervisor p' = dp_supervisor p" "dp_server p' = dp_server p" "\<not> dp_listening p'"
    and "wnow w' = wnow w"
  using assms by (auto simp: closeListener_def split: if_splits)

lemma gracefulStop_simps:
  assumes "gracefulStop p w = (p', w')"
  shows "dp_config p' = dp_config p" "dp_supervisor p' = dp_supervisor p" "dp_server p' = dp_server p"
    and "wnow w' = wnow w"
  using assms closeListener_simps [of p w]
  by (auto simp: gracefulStop_def split: if_splits prod.splits)

lemma removeSocket_now: "wnow (removeSocket D p w) = wnow w"
  by (simp add: removeSocket_def Let_def)

lemma daemon_Stop_cases:
  assumes "daemon_Stop D M p w = (p', w')"
  obtains w1 s' w2 where "wnow w1 = wnow w" "Shutdown (dp_config p) M (dp_supervisor p) w1 = (s', w2)"
    "dp_supervisor p' = s'" "wnow w' = wnow w2" "dp_config p' = dp_config p" "dp_server p' = dp_server p" "\<not> dp_listening p'"
proof -
  obtain p1 w1 where g: "gracefulStop p w = (p1, w1)" by fastforce
  note g' = gracefulStop_simps [OF g]
  obtain s' w2 where d: "Shutdown (dp_config p1) M (dp_supervisor p1) (w1\<lparr>dw_licenseDone := True\<rparr>) = (s', w2)" by fastforce
  have c: "closeListener (p1\<lparr>dp_supervisor := s'\<rparr>) (removeSocket D p1 w2) = (p', w')"
    using assms g d by (simp add: daemon_Stop_def)
  show thesis
    by (rule that [of "w1\<lparr>dw_licenseDone := True\<rparr>" s' w2])
       (use closeListener_simps [OF c] g' d in \<open>simp_all add: removeSocket_now\<close>)
qed

section \<open>The daemon's supervisor behaves as the supervisor alone\<close>

lemma loadAll_steps: "loadAll cfg M names s w = (s', w') \<Longrightarrow> (sup_step cfg M)\<^sup>*\<^sup>* (s, w) (s', w')"
proof (induction names arbitrary: s w)
  case Nil
  then show ?case by simp
next
  case (Cons n names)
  obtain r s1 w1 where 1: "Load cfg M n s w = (r, s1, w1)" by (cases "Load cfg M n s w")
  have "(sup_step cfg M)\<^sup>*\<^sup>* (s1, w1) (s', w')" using Cons.IH Cons.prems 1 by simp
  with sup_stepI [OF sup_act.load [OF 1]] show ?case by (rule converse_rtranclp_into_rtranclp)
qed

lemma StartEnabled_steps:
  assumes "loaded s = []" and "StartEnabled cfg M s w = (r, s', w')"
  shows "(sup_step cfg M)\<^sup>*\<^sup>* (s, w) (s', w')"
proof (cases "loadPersistedState cfg s w")
  case (Inl e)
  with assms show ?thesis by (simp add: StartEnabled_def)
next
  case (Inr s1)
  with assms have "loadAll cfg M (enabledList (persisted s1)) s1 w = (s', w')" by (simp add: StartEnabled_def)
  from loadAll_steps [OF this] sup_stepI [OF sup_act.boot [OF assms(1) Inr]] show ?thesis
    by (metis converse_rtranclp_into_rtranclp)
qed

lemma Shutdown_steps: "Shutdown cfg M s w = (s', w') \<Longrightarrow> (sup_step cfg M)\<^sup>*\<^sup>* (s, w) (s', w')"
proof -
  assume "Shutdown cfg M s w = (s', w')"
  then have "stopAll cfg M (rev (sort (keys (loaded (lifeStop s))))) (lifeStop s) w = (s', w')"
    by (simp add: Shutdown_def lifeStop_def)
  from sup_stepI [OF sup_act.stop_all [OF this]] sup_stepI [OF sup_act.life_stop [of cfg M s w]] show ?thesis by (meson rtranclp.simps)
qed

lemma outside_rtrancl: "wnow w = wnow w' \<Longrightarrow> (sup_step cfg M)\<^sup>*\<^sup>* (s, w) (s, w')"
  by (rule r_into_rtranclp, rule sup_stepI, rule sup_act.outside) simp


definition daemon_run ::
  "('y, 'j, 'sch, 'r, ('r, 'z) dworld_scheme) daemonDeps \<Rightarrow> ('m, ('r, 'z) dworld_scheme) Module \<Rightarrow> 'm list \<Rightarrow>
   path \<Rightarrow> path \<Rightarrow> path \<Rightarrow> ('m, ('r, 'z) dworld_scheme) daemonProgram \<Rightarrow> ('r, 'z) dworld_scheme \<Rightarrow> bool" where
  "daemon_run D M factories configDir stateDir socketPath p w \<longleftrightarrow>
     (\<exists>w0 p1 w1. initDaemon D M factories configDir stateDir socketPath w0 = (Inr p1, w1) \<and>
        (daemon_step D M)\<^sup>*\<^sup>* (p1, w1) (p, w))"

lemma initDaemon_ok:
  assumes "initDaemon D M factories configDir stateDir socketPath w0 = (Inr p, w1)"
  obtains r w4 where "dp_server p = NewServer (dd_Version D) (Some (updateClientAdapter (dd_Version D)))"
    "c_Host (dp_config p) = hostFactory D configDir stateDir (dp_secretStore p) (moduleSchemas M factories)"
    "StartEnabled (dp_config p) M (New M (dp_config p) factories) w4 = (r, dp_supervisor p, w1)"
  using assms
  by (auto simp: initDaemon_def Let_def split: prod.splits option.splits sum.splits)

lemma daemon_step_config: "daemon_step D M (p, w) (p', w') \<Longrightarrow> dp_config p' = dp_config p"
  by (erule daemon_step.cases) (auto elim: daemon_Stop_cases)

text \<open>Every step of the daemon is a sequence of steps of the supervisor.\<close>

lemma daemon_step_sup:
  assumes "daemon_step D M (p, w) (p', w')"
  shows "(sup_step (dp_config p) M)\<^sup>*\<^sup>* (dp_supervisor p, w) (dp_supervisor p', w')"
  using assms
proof (cases rule: daemon_step.cases)
  case stop
  from daemon_Stop_cases [OF stop] obtain w1 s' w2 where a: "wnow w1 = wnow w"
      "Shutdown (dp_config p) M (dp_supervisor p) w1 = (s', w2)" "dp_supervisor p' = s'" "wnow w' = wnow w2" .
  have "(sup_step (dp_config p) M)\<^sup>*\<^sup>* (dp_supervisor p, w) (dp_supervisor p, w1)"
    by (rule outside_rtrancl) (simp add: a(1))
  also have "(sup_step (dp_config p) M)\<^sup>*\<^sup>* \<dots> (s', w2)" by (rule Shutdown_steps [OF a(2)])
  also have "(sup_step (dp_config p) M)\<^sup>*\<^sup>* \<dots> (s', w')" by (rule outside_rtrancl) (simp add: a(4))
  finally show ?thesis by (simp add: a(3))
qed (auto intro: outside_rtrancl)

lemma daemon_steps_sup:
  assumes "(daemon_step D M)\<^sup>*\<^sup>* (p, w) (p', w')"
  shows "dp_config p' = dp_config p \<and> (sup_step (dp_config p) M)\<^sup>*\<^sup>* (dp_supervisor p, w) (dp_supervisor p', w')"
  using assms
proof (induction "(p', w')" arbitrary: p' w' rule: rtranclp_induct)
  case base
  then show ?case by simp
next
  case (step y)
  obtain p1 w1 where y: "y = (p1, w1)" by fastforce
  have st: "daemon_step D M (p1, w1) (p', w')" using step.hyps(2) y by simp
  from step.hyps(3) [OF y] have IH: "dp_config p1 = dp_config p"
    "(sup_step (dp_config p) M)\<^sup>*\<^sup>* (dp_supervisor p, w) (dp_supervisor p1, w1)" by auto
  from daemon_step_sup [OF st] IH daemon_step_config [OF st] show ?case by auto
qed

lemma daemon_run_config:
  assumes "daemon_run D M factories configDir stateDir socketPath p w"
  shows "reachable (dp_config p) M factories (dp_supervisor p, w) \<and>
         c_StatePath (dp_config p) = stateDir @ ''/enabled.json'' \<and>
         (\<exists>st. c_Host (dp_config p) = hostFactory D configDir stateDir st (moduleSchemas M factories))"
proof -
  from assms obtain w0 p1 w1 where i: "initDaemon D M factories configDir stateDir socketPath w0 = (Inr p1, w1)"
    and run: "(daemon_step D M)\<^sup>*\<^sup>* (p1, w1) (p, w)"
    unfolding daemon_run_def by blast
  from initDaemon_ok [OF i] obtain r w4 where
    s: "StartEnabled (dp_config p1) M (New M (dp_config p1) factories) w4 = (r, dp_supervisor p1, w1)" .
  have "(sup_step (dp_config p1) M)\<^sup>*\<^sup>* (New M (dp_config p1) factories, w4) (dp_supervisor p1, w1)"
    by (rule StartEnabled_steps [OF _ s]) (simp add: New_def)
  with daemon_steps_sup [OF run]
  have "(sup_step (dp_config p) M)\<^sup>*\<^sup>* (New M (dp_config p) factories, w4) (dp_supervisor p, w)" by auto
  then have re: "reachable (dp_config p) M factories (dp_supervisor p, w)" unfolding reachable_def by blast
  have "c_StatePath (dp_config p1) = stateDir @ ''/enabled.json'' \<and>
      (\<exists>st. c_Host (dp_config p1) = hostFactory D configDir stateDir st (moduleSchemas M factories))"
    using i by (auto simp: initDaemon_def Let_def split: prod.splits option.splits sum.splits)
  with re daemon_steps_sup [OF run] show ?thesis by simp
qed

section \<open>Events\<close>

definition silent :: "EventBroker \<Rightarrow> bool" where
  "silent eb \<longleftrightarrow> (\<forall>i q. get (subscribers eb) i = Some q \<longrightarrow> q = [])"

lemma silent_keep:
  "silent NewEventBroker" "silent eb \<Longrightarrow> silent (snd (Subscribe eb))" "silent eb \<Longrightarrow> silent (Unsubscribe i eb)"
  "silent eb \<Longrightarrow> recv i eb = None"
  by (auto simp: silent_def NewEventBroker_def Subscribe_def Unsubscribe_def recv_def split: option.split list.split)

lemma daemon_steps_server:
  "(daemon_step D M)\<^sup>*\<^sup>* (p, w) (p', w') \<Longrightarrow>
   sv_updateClient (dp_server p') = sv_updateClient (dp_server p) \<and> sv_version (dp_server p') = sv_version (dp_server p)"
proof (induction "(p', w')" arbitrary: p' w' rule: rtranclp_induct)
  case base
  then show ?case by simp
next
  case (step y)
  obtain p1 w1 where y: "y = (p1, w1)" by fastforce
  have "daemon_step D M (p1, w1) (p', w')" using step.hyps(2) y by simp
  then have "sv_updateClient (dp_server p') = sv_updateClient (dp_server p1) \<and> sv_version (dp_server p') = sv_version (dp_server p1)"
    by (rule daemon_step.cases) (auto simp: setBroker_def elim: daemon_Stop_cases)
  with step.hyps(3) [OF y] show ?case by simp
qed

lemma daemon_step_silent: "daemon_step D M (p, w) (p', w') \<Longrightarrow> silent (watchBroker p) \<Longrightarrow> silent (watchBroker p')"
proof (erule daemon_step.cases, goal_cases)
  case (2 q i eb v)
  then show ?case using silent_keep(2) [of "watchBroker p"] by auto
next
  case (4 i q e eb v)
  then show ?case using silent_keep(4) [of "watchBroker p" i] by auto
next
  case (7 q v q' v')
  then have "daemon_Stop D M p w = (p', w')" by simp
  from daemon_Stop_cases [OF this] have "dp_server p' = dp_server p" by metis
  with 7 show ?case by simp
qed (auto simp: silent_keep)

lemma daemon_steps_silent:
  "(daemon_step D M)\<^sup>*\<^sup>* (p, w) (p', w') \<Longrightarrow> silent (watchBroker p) \<Longrightarrow> silent (watchBroker p')"
proof (induction "(p', w')" arbitrary: p' w' rule: rtranclp_induct)
  case base
  then show ?case by simp
next
  case (step y)
  obtain p1 w1 where y: "y = (p1, w1)" by fastforce
  from step.hyps(3) [OF y step.prems] step.hyps(2) y show ?case by (simp add: daemon_step_silent)
qed

lemma daemon_run_silent:
  assumes "daemon_run D M factories configDir stateDir socketPath p w"
  shows "silent (watchBroker p)"
proof -
  from assms obtain w0 p1 w1 where i: "initDaemon D M factories configDir stateDir socketPath w0 = (Inr p1, w1)"
    and run: "(daemon_step D M)\<^sup>*\<^sup>* (p1, w1) (p, w)"
    unfolding daemon_run_def by blast
  from initDaemon_ok [OF i]
  have sv: "dp_server p1 = NewServer (dd_Version D) (Some (updateClientAdapter (dd_Version D)))" by metis
  have "silent (watchBroker p1)" by (simp add: sv NewServer_def silent_keep)
  from daemon_steps_silent [OF run this] show ?thesis .
qed

text \<open>C38: The event stream is silent. The hosts publish to the broker that \<open>initDaemon\<close> creates, each event
  being delivered there, but \<open>WatchEvents\<close> subscribes to a broker of the server's own, to which nothing is
  ever published: throughout the daemon's life a client that watches events receives none.\<close>

theorem events_never_watched:
  assumes "daemon_run D M factories configDir stateDir socketPath p w"
  shows "(\<forall>i. recv i (watchBroker p) = None) \<and>
         (\<forall>n v h v' ev u. c_Host (dp_config p) n v = (Some h, v') \<longrightarrow>
            dw_broker (h_Publish h ev u) = Publish ev (dw_broker u))"
proof -
  have "\<forall>i. recv i (watchBroker p) = None" using daemon_run_silent [OF assms] by (simp add: silent_keep)
  moreover obtain st where "c_Host (dp_config p) = hostFactory D configDir stateDir st (moduleSchemas M factories)"
    using daemon_run_config [OF assms] by blast
  ultimately show ?thesis by (auto simp: hostFactory_def NewHost_def Let_def)
qed


section \<open>Hosts\<close>

text \<open>What a module does with its secrets through its host.\<close>

fun hostRun :: "'w HostServices \<Rightarrow> (string \<times> bytes option) list \<Rightarrow> 'w \<Rightarrow> 'w" where
  "hostRun h [] w = w"
| "hostRun h ((k, Some v) # ops) w = hostRun h ops (snd (h_SecretsSet h k v w))"
| "hostRun h ((k, None) # ops) w = hostRun h ops (snd (h_SecretsDelete h k w))"

lemma hostFactory_simps:
  assumes "hostFactory D configDir stateDir st schemas n w = (Some h, w1)"
  shows "fst (h_SecretsGet h k u) = Store_Get (dd_keyring D) (Namespaced st n) k (dw_ring u)"
    and "dw_ring (hostRun h ops u) = storeRun (\<lambda>n. Store_Set (dd_keyring D) (Namespaced st n))
           (\<lambda>n. Store_Delete (dd_keyring D) (Namespaced st n)) n ops (dw_ring u)"
    and "h_DataDir h = JoinPath [stateDir, n]"
    and "w1 = snd (on_os (MkdirAll (h_DataDir h) mode700) w)"
    and "h_FeatureEnabled h key u = (FeatureEnabled (dw_license u) key, u)"
proof -
  note h = assms [unfolded hostFactory_def NewHost_def Let_def ringView_def]
  show "fst (h_SecretsGet h k u) = Store_Get (dd_keyring D) (Namespaced st n) k (dw_ring u)"
    "h_DataDir h = JoinPath [stateDir, n]" "w1 = snd (on_os (MkdirAll (h_DataDir h) mode700) w)"
    "h_FeatureEnabled h key u = (FeatureEnabled (dw_license u) key, u)"
    using h by auto
  have s: "dw_ring (snd (h_SecretsSet h k v u)) = snd (Store_Set (dd_keyring D) (Namespaced st n) k v (dw_ring u))" for k v u
    using h by (auto split: prod.split)
  have d: "dw_ring (snd (h_SecretsDelete h k u)) = snd (Store_Delete (dd_keyring D) (Namespaced st n) k (dw_ring u))" for k u
    using h by (auto split: prod.split)
  show "dw_ring (hostRun h ops u) = storeRun (\<lambda>n. Store_Set (dd_keyring D) (Namespaced st n))
           (\<lambda>n. Store_Delete (dd_keyring D) (Namespaced st n)) n ops (dw_ring u)"
  proof (induction ops arbitrary: u)
    case Nil
    then show ?case by simp
  next
    case (Cons op ops)
    then show ?case by (cases op; cases "snd op") (simp_all add: s d)
  qed
qed

lemma dataDir_comps:
  assumes "stateDir \<noteq> []" and "nsName n" "n \<notin> {''.'', ''..''}"
  shows "cleanComps (JoinPath [stateDir, n]) = cleanComps stateDir @ [n]"
proof -
  have "\<forall>x\<in>set [n]. x \<notin> {[], ''.'', ''..''} \<and> CHR ''/'' \<notin> set x" using assms by (simp add: nsName_def)
  from cleanComps_join [OF assms(1) _ this] assms show ?thesis
    by (simp add: JoinPath_def cleanComps_Clean nsName_def)
qed

text \<open>C9: The hosts of different modules are isolated from each other. Whatever writes and deletions one
  module performs through its host, all reads of secrets through another module's host return what they
  returned before, over any keyring with the documented behaviour; and the data directories of the two
  are different directories directly inside the state directory.\<close>

theorem hosts_isolated:
  assumes "keyring (dd_keyring D)" and "stateDir \<noteq> []"
    and "nsName n" "nsName n'" "n' \<noteq> n" "n \<notin> {''.'', ''..''}" "n' \<notin> {''.'', ''..''}"
    and "hostFactory D configDir stateDir st schemas n w = (Some h, w1)"
    and "hostFactory D configDir stateDir st schemas n' w' = (Some h', w1')"
  shows "fst (h_SecretsGet h' k (hostRun h ops u)) = fst (h_SecretsGet h' k u) \<and>
         cleanComps (h_DataDir h) = cleanComps stateDir @ [n] \<and> Clean (h_DataDir h) \<noteq> Clean (h_DataDir h')"
proof -
  note a = hostFactory_simps [OF assms(8)] and b = hostFactory_simps [OF assms(9)]
  have "fst (h_SecretsGet h' k (hostRun h ops u)) = fst (h_SecretsGet h' k u)"
    by (simp only: b(1) a(2) keyring.store_isolated [OF assms(1,3,4,5)])
  moreover have "cleanComps (h_DataDir h) = cleanComps stateDir @ [n]" "cleanComps (h_DataDir h') = cleanComps stateDir @ [n']"
    using a(3) b(3) dataDir_comps assms by simp_all
  moreover from this have "Clean (h_DataDir h) \<noteq> Clean (h_DataDir h')"
    by (metis assms(5) cleanComps_Clean last_snoc)
  ultimately show ?thesis by simp
qed

section \<open>Start-up and shutdown\<close>

lemma locks_on_os: "on_os f w = (x, w') \<Longrightarrow> dw_locks w' = dw_locks w"
  by (auto simp: on_os_def split: prod.splits)

lemma lock_acquired:
  "lock_call (AcquireLock p) w = (Inr l, w') \<Longrightarrow>
   Clean p \<notin> set (dw_locks w) \<and> l = Clean p \<and> dw_locks w' = Clean p # dw_locks w"
  by (auto simp: lock_call_def AcquireLock_def Let_def split: option.splits if_splits)

lemma lock_refused: "lock_call (AcquireLock p) w = (Inl e, w') \<Longrightarrow> dw_locks w' = dw_locks w"
  by (auto simp: lock_call_def AcquireLock_def Let_def split: option.splits if_splits)

lemma locks_release: "dw_locks (releaseLock l w) = remove1 l (dw_locks w)"
  by (simp add: releaseLock_def lock_call_def ReleaseLock_def)

lemma lock_refused_os:
  assumes "lock_call (AcquireLock p) w = (Inl e, w')"
  shows "w'\<lparr>wos := wos w\<rparr> = w" and "Clean q \<noteq> Clean p \<Longrightarrow> untouched q (wos w) (wos w')"
  using assms by (auto simp: lock_call_def AcquireLock_def Let_def untouched_set_node split: option.splits if_splits)

lemma second_start:
  assumes i: "initDaemon D M factories configDir stateDir socketPath w = (r, w')"
    and held: "Clean (JoinPath [stateDir, ''penguind.lock'']) \<in> set (dw_locks w)"
  shows "((\<exists>e. r = Inl (MkdirState e)) \<or> (\<exists>e. r = Inl (LockFailed e))) \<and> w'\<lparr>wos := wos w\<rparr> = w \<and>
         (\<forall>q. Clean q \<notin> Clean ` insert (JoinPath [stateDir, ''penguind.lock'']) (set (ancestors stateDir)) \<longrightarrow>
            untouched q (wos w) (wos w'))"
proof -
  let ?lp = "JoinPath [stateDir, ''penguind.lock'']"
  obtain r1 w1 where 1: "on_os (MkdirAll stateDir mode700) w = (r1, w1)" by fastforce
  have w1: "w1\<lparr>wos := wos w\<rparr> = w" using 1 by (auto simp: on_os_def split: prod.splits)
  have u1: "untouched q (wos w) (wos w1)" if "Clean q \<notin> Clean ` insert ?lp (set (ancestors stateDir))" for q
    using untouched_MkdirAll [of stateDir q "wos w" mode700] that 1 by (metis imageI insertCI on_os_simps(2) snd_conv)
  show ?thesis
  proof (cases r1)
    case None
    obtain r2 w2 where 2: "lock_call (AcquireLock ?lp) w1 = (r2, w2)" by fastforce
    have "dw_locks w1 = dw_locks w" by (rule locks_on_os [OF 1])
    with 2 held obtain e where e: "r2 = Inl e" by (cases r2) (auto dest: lock_acquired)
    note l = lock_refused_os [OF 2 [unfolded e]]
    have "w2\<lparr>wos := wos w\<rparr> = w" using l(1) w1 by (metis world.surjective world.update_convs(1))
    moreover have "untouched q (wos w) (wos w2)" if "Clean q \<notin> Clean ` insert ?lp (set (ancestors stateDir))" for q
      using untouched_trans [OF u1 l(2)] that by blast
    moreover have "r = Inl (LockFailed e)" "w' = w2" using i 1 2 e None by (simp_all add: initDaemon_def Let_def)
    ultimately show ?thesis by blast
  next
    case (Some e)
    then have "r = Inl (MkdirState e)" "w' = w1" using i 1 by (simp_all add: initDaemon_def Let_def)
    with w1 u1 show ?thesis by blast
  qed
qed

text \<open>C33: One daemon per state directory, and no leftovers of a failed start. While the lock of the state
  directory is held, starting a second daemon fails, either in making the state directory or in taking the lock, and does
  nothing else: no path is touched but that of the lock file and those of the state directory and the directories
  above it, so no socket, no state file and no module's directory, and nothing in memory, the keyring, the broker and the
  licence client included, has changed. A start that fails, at whatever point, leaves the set of held locks as it was.\<close>

theorem single_instance:
  assumes "initDaemon D M factories configDir stateDir socketPath w = (r, w')"
  shows "(Clean (JoinPath [stateDir, ''penguind.lock'']) \<in> set (dw_locks w) \<longrightarrow>
            ((\<exists>e. r = Inl (MkdirState e)) \<or> (\<exists>e. r = Inl (LockFailed e))) \<and> w'\<lparr>wos := wos w\<rparr> = w \<and>
            (\<forall>q. Clean q \<notin> Clean ` insert (JoinPath [stateDir, ''penguind.lock'']) (set (ancestors stateDir)) \<longrightarrow>
               untouched q (wos w) (wos w'))) \<and>
         (\<forall>e. r = Inl e \<longrightarrow> dw_locks w' = dw_locks w)"
proof -
  have "\<forall>e. r = Inl e \<longrightarrow> dw_locks w' = dw_locks w"
    using assms by (auto simp: initDaemon_def Let_def locks_release split: prod.splits option.splits sum.splits
        dest!: locks_on_os lock_acquired lock_refused)
  with second_start [OF assms] show ?thesis by blast
qed

lemma daemon_Stop_unloads:
  assumes "daemon_Stop D M p w = (p', w')" and "wf_map (loaded (dp_supervisor p))"
  shows "(\<forall>n. get (loaded (dp_supervisor p')) n = None) \<and> \<not> dp_listening p'"
proof -
  from daemon_Stop_cases [OF assms(1)] obtain v s' w2 where
    d: "Shutdown (dp_config p) M (dp_supervisor p) v = (s', w2)" "dp_supervisor p' = s'" "\<not> dp_listening p'" by metis
  let ?names = "rev (sort (keys (loaded (dp_supervisor p))))"
  have "distinct ?names" using assms(2) by (simp add: wf_map_def)
  moreover have "\<forall>n\<in>set ?names. get (loaded (lifeStop (dp_supervisor p))) n \<noteq> None"
    by (auto simp: lifeStop_def get_None_iff image_iff)
  moreover have "stopAll (dp_config p) M ?names (lifeStop (dp_supervisor p)) v = (s', w2)"
    using d(1) by (simp add: Shutdown_def)
  ultimately show ?thesis
    using stopAll_effect [of "dp_config p" M ?names "lifeStop (dp_supervisor p)" v s' w2] d(2,3)
    by (auto simp: lifeStop_def get_None_iff)
qed

text \<open>What stopping the daemon does. No module stays loaded, the listener is closed, and the file at the
  socket path of the configuration file is removed whatever it is, also when the daemon was started with
  another socket path and that file is not its own.\<close>

theorem stop_effect:
  assumes "daemon_Stop D M p w = (p', w')" and "wf_map (loaded (dp_supervisor p))"
  shows "(\<forall>n. get (loaded (dp_supervisor p')) n = None) \<and> \<not> dp_listening p' \<and>
         (\<forall>p1 w1 s' w2 cfg d m u. gracefulStop p w = (p1, w1) \<longrightarrow>
            Shutdown (dp_config p) M (dp_supervisor p) (w1\<lparr>dw_licenseDone := True\<rparr>) = (s', w2) \<longrightarrow>
            cs_Daemon (dd_yaml D) (dp_configDir p1) (wos w2) = Inr cfg \<longrightarrow>
            node_at (wos w2) (dc_SocketPath cfg) = Some (File d m u) \<longrightarrow>
            faults (wos w2) (OpRemove (dc_SocketPath cfg)) = None \<longrightarrow>
            node_at (wos w') (dc_SocketPath cfg) = None)"
proof (intro conjI)
  show "\<forall>n. get (loaded (dp_supervisor p')) n = None" "\<not> dp_listening p'"
    using daemon_Stop_unloads [OF assms] by simp_all
  show "\<forall>p1 w1 s' w2 cfg d m u. gracefulStop p w = (p1, w1) \<longrightarrow>
      Shutdown (dp_config p) M (dp_supervisor p) (w1\<lparr>dw_licenseDone := True\<rparr>) = (s', w2) \<longrightarrow>
      cs_Daemon (dd_yaml D) (dp_configDir p1) (wos w2) = Inr cfg \<longrightarrow>
      node_at (wos w2) (dc_SocketPath cfg) = Some (File d m u) \<longrightarrow>
      faults (wos w2) (OpRemove (dc_SocketPath cfg)) = None \<longrightarrow>
      node_at (wos w') (dc_SocketPath cfg) = None"
  proof (intro allI impI)
  fix p1 w1 s' w2 cfg d m u
  assume g: "gracefulStop p w = (p1, w1)"
    and sh: "Shutdown (dp_config p) M (dp_supervisor p) (w1\<lparr>dw_licenseDone := True\<rparr>) = (s', w2)"
    and c: "cs_Daemon (dd_yaml D) (dp_configDir p1) (wos w2) = Inr cfg"
    and f: "node_at (wos w2) (dc_SocketPath cfg) = Some (File d m u)"
    and nf: "faults (wos w2) (OpRemove (dc_SocketPath cfg)) = None"
  have "dc_SocketPath cfg \<noteq> []"
    using c by (auto simp: cs_Daemon_def orDefault_def defaultConfig_def split: sum.splits if_splits)
  then have "node_at (wos (removeSocket D p1 w2)) (dc_SocketPath cfg) = None"
    using c f nf by (simp add: removeSocket_def Let_def Remove_def node_at_def)
  moreover have "node_at (wos (snd (closeListener q v))) x = None" if "node_at (wos v) x = None" for q v x
    using that by (auto simp: closeListener_def Remove_def node_at_def split: option.splits node.splits)
  moreover have "closeListener (p1\<lparr>dp_supervisor := s'\<rparr>) (removeSocket D p1 w2) = (p', w')"
    using assms(1) g sh gracefulStop_simps [OF g] by (simp add: daemon_Stop_def)
  ultimately show "node_at (wos w') (dc_SocketPath cfg) = None" by (metis snd_conv)
  qed
qed

section \<open>The built-in modules\<close>

lemma builtin_registry: "modules (New (builtinModule SD TD) cfg Builtins) = [(''squawk'', Inl squawk_New), (''tobogganing'', Inr tob_New)]"
  by (simp add: New_def Builtins_def builtinModule_def Let_def squawkModule_def tobModule_def squawk_Info_def tob_Info_def)

lemma builtin_unlicensed: "mi_LicenseFeature (m_Info (builtinModule SD TD) m) = []"
  by (simp add: builtinModule_def Let_def squawkModule_def tobModule_def squawk_Info_def tob_Info_def split: sum.split)

lemma tob_unconfigured:
  assumes "modules s = modules (New (builtinModule SD TD) cfg Builtins)" and "get (loaded s) ''tobogganing'' = None"
    and "c_Host cfg = hostFactory D configDir stateDir st schemas"
    and "\<forall>raw. ModuleRaw (dd_moduleYaml D) (dd_emptyMap D) (dd_schema D) configDir ''tobogganing''
           (case get schemas ''tobogganing'' of Some b \<Rightarrow> b | None \<Rightarrow> []) (wos w) (wos w) = Inr raw \<longrightarrow> raw = []"
  shows "\<exists>w'. Load cfg (builtinModule SD TD) ''tobogganing'' s w =
     (Some (Wrapf (''init '' @ Quote ''tobogganing'' @ '': '') (Errorf ''manager_url is required'') []), s, w')"
proof -
  have reg: "modules s = [(''squawk'', Inl squawk_New), (''tobogganing'', Inr tob_New)]"
    using assms(1) by (simp add: builtin_registry)
  obtain h w0 where h: "c_Host cfg ''tobogganing'' w = (Some h, w0)" and hc: "h_Config h = []"
    using assms(3,4) by (auto simp: hostFactory_def NewHost_def Let_def split: sum.splits)
  have init: "m_Init (builtinModule SD TD) (Some h) (Inr tob_New) v =
      (Some (Errorf ''manager_url is required''), Inr (tob_New\<lparr>to_host := Some h\<rparr>), v)" for v
    by (simp add: builtinModule_def Let_def tobModule_def tob_Init_def hc liftR_def tobDefaults_def)
  show ?thesis
    using assms(2) by (simp add: reg builtin_unlicensed licenseGate_def Load_def h init Let_def)
qed

text \<open>The built-in modules on an unlicensed, unconfigured machine. The registry holds \<open>squawk\<close> and
  \<open>tobogganing\<close>, and neither asks for a licence feature, so the licence gate lets both pass whatever the
  licence client says. With no usable configuration file, absent, unreadable or rejected by the schema, the
  module still starts initialising, with defaults: \<open>tobogganing\<close> then refuses to load, naming the
  missing manager URL, and the supervisor is unchanged.\<close>

theorem builtin_modules:
  assumes "modules s = modules (New (builtinModule SD TD) cfg Builtins)" and "get (loaded s) ''tobogganing'' = None"
    and "c_Host cfg = hostFactory D configDir stateDir st schemas"
    and "\<forall>raw. ModuleRaw (dd_moduleYaml D) (dd_emptyMap D) (dd_schema D) configDir ''tobogganing''
           (case get schemas ''tobogganing'' of Some b \<Rightarrow> b | None \<Rightarrow> []) (wos w) (wos w) = Inr raw \<longrightarrow> raw = []"
  shows "keys (modules s) = [''squawk'', ''tobogganing''] \<and>
         (\<forall>n m host v. get (modules s) n = Some m \<longrightarrow>
            licenseGate host (mi_LicenseFeature (m_Info (builtinModule SD TD) m)) n v = (None, v)) \<and>
         (\<exists>w'. Load cfg (builtinModule SD TD) ''tobogganing'' s w =
            (Some (Wrapf (''init '' @ Quote ''tobogganing'' @ '': '') (Errorf ''manager_url is required'') []), s, w'))"
  using tob_unconfigured [OF assms] assms(1) by (simp add: builtin_registry builtin_unlicensed licenseGate_def)

section \<open>A small daemon for the witnesses\<close>

type_synonym ring0 = "(string, bytes) gomap"

definition demoDaemon :: "(unit, unit, unit, ring0, ring0 dworld) daemonDeps" where
  "demoDaemon =
     \<lparr>dd_yaml = \<lambda>_. Inl (Errorf ''yaml''), dd_moduleYaml = \<lambda>_. Inr (), dd_emptyMap = (),
      dd_schema = \<lparr>sl_Unmarshal = \<lambda>_. Inr (), sl_AddResource = \<lambda>_. None, sl_Compile = \<lambda>_. None,
                   sl_Marshal = \<lambda>_. Inr [], sl_UnmarshalData = \<lambda>_. Inr (), sl_Validate = \<lambda>_ _. Valid\<rparr>,
      dd_keyring = arrayKeyring, dd_openRing = \<lambda>_ _. Inr [], dd_time = \<lparr>formatTime = Itoa, parseTime = Atoi\<rparr>,
      dd_bind = \<lambda>_ _. None, dd_ovf = \<lambda>_. 0, dd_RFC3339 = \<lambda>_. [], dd_Getenv = \<lambda>_. [], dd_Version = ''1.0.0''\<rparr>"

definition dworld0 :: "ring0 dworld" where
  "dworld0 =
     \<lparr>wos = dirOs, wnow = 0, wrand = \<lambda>_. 1 / 2, wdraws = 0, dw_ring = [],
      dw_license = \<lparr>licenseKey = [], product = [], baseURL = [], cacheDir = [], refreshInterval = 0, cachedTier = [],
                    cachedFeatures = [], cachedAt = 0, stopClosed = False\<rparr>,
      dw_licenseDone = True, dw_broker = NewEventBroker, dw_locks = []\<rparr>"

lemmas demo_eval = dirOs_def emptyOs_def node_at_def Clean_def cleanComps_def cleanStep_def Dir_def isDirectory_def
  ancestors_def isFile_def upt_rec JoinPath_def

lemma demo_init: "\<exists>p w1. initDaemon demoDaemon M fs ''/v'' ''/v'' ''/v/s'' dworld0 = (Inr p, w1)"
proof -
  have mk: "on_os (MkdirAll ''/v'' mode700) dworld0 = (None, dworld0)"
    by (simp add: on_os_def MkdirAll_def dworld0_def demo_eval)
  show ?thesis
    by (simp add: initDaemon_def Let_def mk) 
       (simp add: dworld0_def demoDaemon_def lock_call_def AcquireLock_def Open_def daemonConfig_def
        cs_Daemon_def defaultConfig_def on_os_def Listen_def Remove_def MkdirAll_def Chmod_def StartEnabled_def
        loadPersistedState_def LoadState_def ReadFile_def enabledList_def Let_def demo_eval set_node_def commit_def)
qed


lemma demo_run: "\<exists>p w. daemon_run demoDaemon M fs ''/v'' ''/v'' ''/v/s'' p w"
  using demo_init [of M fs] unfolding daemon_run_def by blast

definition offSquawk :: "(ipv4, unit, unit, 'w) squawkDeps" where
  "offSquawk =
     \<lparr>sd_netip = ipv4Lib, sd_time = \<lparr>formatTime = Itoa, parseTime = Atoi\<rparr>, sd_yaml = \<lambda>_ c. Inr c,
      sd_NewDoHClient = \<lambda>_ w. (Inr (), w), sd_Query = \<lambda>_ _ _ w. (Inl (Errorf ''offline''), w),
      sd_CloseDoH = \<lambda>_ w. (None, w), sd_NewForwarder = \<lambda>_ _. (), sd_FwdStart = \<lambda>_ w. (None, w),
      sd_FwdStop = \<lambda>_ w. (None, w), sd_FwdIsRunning = \<lambda>_ _. True, sd_LicenseIsValid = \<lambda>_ w. (Inr False, w),
      sd_MustRegister = \<lambda>_ w. (True, w)\<rparr>"

definition offTob :: "(unit, unit, unit, 'w) tobDeps" where
  "offTob =
     \<lparr>td_net = \<lparr>nt_do = \<lambda>_ w. (NoResponse (Errorf ''offline''), w), nt_exp = \<lambda>_. Inr None,
                nt_time = \<lparr>formatTime = Itoa, parseTime = Atoi\<rparr>\<rparr>,
      td_yaml = \<lambda>_ c. Inr c, td_GenerateKey = \<lambda>w. (Inr (), w), td_ParseKey = \<lambda>_. Inr (),
      td_ResolveUDP = \<lambda>_ w. (Inr (), w), td_ParseCIDR = \<lambda>_. Inr (), td_Configure = \<lambda>_ _ w. (None, w),
      td_durationText = \<lambda>_. [], td_Register = \<lambda>_ w. (None, w)\<rparr>"

theorem events_never_watched_witness:
  "\<exists>p w. daemon_run demoDaemon (builtinModule offSquawk offTob) Builtins ''/v'' ''/v'' ''/v/s'' p w \<and>
     get (subscribers (watchBroker p)) 1 = Some [] \<and> recv 1 (watchBroker p) = None"
proof -
  obtain p w1 where i: "initDaemon demoDaemon (builtinModule offSquawk offTob) Builtins ''/v'' ''/v'' ''/v/s'' dworld0 = (Inr p, w1)"
    using demo_init by blast
  from initDaemon_ok [OF i] have "dp_server p = NewServer (dd_Version demoDaemon) (Some (updateClientAdapter (dd_Version demoDaemon)))"
    by blast
  then have b: "watchBroker p = NewEventBroker" by (simp add: NewServer_def)
  let ?p = "setBroker (snd (Subscribe (watchBroker p))) p"
  have "daemon_step demoDaemon (builtinModule offSquawk offTob) (p, w1) (?p, w1)"
    by (rule daemon_step.watch [OF prod.collapse [symmetric]])
  with i have r: "daemon_run demoDaemon (builtinModule offSquawk offTob) Builtins ''/v'' ''/v'' ''/v/s'' ?p w1"
    unfolding daemon_run_def by blast
  have "get (subscribers (watchBroker ?p)) 1 = Some []" by (simp add: b Subscribe_def NewEventBroker_def)
  with r events_never_watched [OF r] show ?thesis by blast
qed

theorem hosts_isolated_witness:
  "\<exists>h w1 h' w2. hostFactory demoDaemon ''/v'' ''/v'' \<lparr>ss_namespace = [], ss_fileDir = [], ss_serviceName = []\<rparr> [] ''squawk'' dworld0 = (Some h, w1) \<and>
     hostFactory demoDaemon ''/v'' ''/v'' \<lparr>ss_namespace = [], ss_fileDir = [], ss_serviceName = []\<rparr> [] ''tobogganing'' dworld0 = (Some h', w2) \<and>
     fst (h_SecretsGet h' ''api_key'' (hostRun h [(''api_key'', Some ''x'')] dworld0)) = fst (h_SecretsGet h' ''api_key'' dworld0)"
proof -
  let ?st = "\<lparr>ss_namespace = [], ss_fileDir = [], ss_serviceName = []\<rparr>"
  have ex: "\<exists>h w1. hostFactory demoDaemon ''/v'' ''/v'' ?st [] n dworld0 = (Some h, w1)" for n
    by (simp add: hostFactory_def NewHost_def Let_def)
  obtain h w1 h' w2 where h: "hostFactory demoDaemon ''/v'' ''/v'' ?st [] ''squawk'' dworld0 = (Some h, w1)"
      "hostFactory demoDaemon ''/v'' ''/v'' ?st [] ''tobogganing'' dworld0 = (Some h', w2)"
    using ex [of "''squawk''"] ex [of "''tobogganing''"] by blast
  have K: "keyring (dd_keyring demoDaemon)" using arr.keyring_axioms by (simp add: demoDaemon_def)
  have "fst (h_SecretsGet h' ''api_key'' (hostRun h [(''api_key'', Some ''x'')] dworld0)) = fst (h_SecretsGet h' ''api_key'' dworld0)"
    using hosts_isolated [OF K _ _ _ _ _ _ h, of "''api_key''" "[(''api_key'', Some ''x'')]" dworld0]
    by (simp add: nsName_def)
  with h show ?thesis by blast
qed

theorem single_instance_witness:
  "\<exists>e w'. initDaemon demoDaemon (builtinModule offSquawk offTob) Builtins ''/v'' ''/v'' ''/v/s''
     (dworld0\<lparr>dw_locks := [''/v/penguind.lock'']\<rparr>) = (Inl e, w') \<and> dw_locks w' = [''/v/penguind.lock''] \<and>
     node_at (wos w') ''/v/s'' = None"
proof -
  have c: "Clean (JoinPath [''/v'', ''penguind.lock'']) = ''/v/penguind.lock''" by (simp add: demo_eval)
  obtain r w' where i: "initDaemon demoDaemon (builtinModule offSquawk offTob) Builtins ''/v'' ''/v'' ''/v/s''
      (dworld0\<lparr>dw_locks := [''/v/penguind.lock'']\<rparr>) = (r, w')" by fastforce
  have "Clean ''/v/s'' \<notin> Clean ` insert (JoinPath [''/v'', ''penguind.lock'']) (set (ancestors ''/v''))"
    by (simp add: demo_eval)
  with single_instance [OF i] c have "\<exists>e. r = Inl e" "untouched ''/v/s'' dirOs (wos w')"
    "\<forall>e. r = Inl e \<longrightarrow> dw_locks w' = [''/v/penguind.lock'']"
    by (auto simp: dworld0_def)
  moreover have "node_at dirOs ''/v/s'' = None" by (simp add: demo_eval)
  ultimately show ?thesis using i by (auto simp: untouched_def)
qed

theorem stop_effect_witness:
  "\<exists>p w p' w'. daemon_run demoDaemon (builtinModule offSquawk offTob) Builtins ''/v'' ''/v'' ''/v/s'' p w \<and>
     daemon_Stop demoDaemon (builtinModule offSquawk offTob) p w = (p', w') \<and> \<not> dp_listening p'"
proof -
  obtain p w1 where i: "initDaemon demoDaemon (builtinModule offSquawk offTob) Builtins ''/v'' ''/v'' ''/v/s'' dworld0 = (Inr p, w1)"
    using demo_init by blast
  then have r: "daemon_run demoDaemon (builtinModule offSquawk offTob) Builtins ''/v'' ''/v'' ''/v/s'' p w1"
    unfolding daemon_run_def by blast
  from initDaemon_ok [OF i] obtain q w4 where
    s: "StartEnabled (dp_config p) (builtinModule offSquawk offTob) (New (builtinModule offSquawk offTob) (dp_config p) Builtins) w4 =
        (q, dp_supervisor p, w1)" .
  have "sup_inv (dp_supervisor p)"
    by (rule sup_inv_reachable [of "dp_config p" "builtinModule offSquawk offTob" Builtins _ w1], unfold reachable_def, rule exI [of _ w4],
        rule StartEnabled_steps [OF _ s]) (simp add: New_def)
  then have wf: "wf_map (loaded (dp_supervisor p))" by (simp add: sup_inv_def registry_inv_def)
  obtain p' w' where st: "daemon_Stop demoDaemon (builtinModule offSquawk offTob) p w1 = (p', w')" by fastforce
  from stop_effect [OF st wf] st r show ?thesis by blast
qed

lemma demo_no_config:
  "\<forall>raw. ModuleRaw (dd_moduleYaml demoDaemon) (dd_emptyMap demoDaemon) (dd_schema demoDaemon) ''/v'' ''tobogganing''
      (case get [] ''tobogganing'' of Some b \<Rightarrow> b | None \<Rightarrow> []) (wos dworld0) (wos dworld0) = Inr raw \<longrightarrow> raw = []"
  by (simp add: ModuleRaw_def cs_Module_def modulePath_def ReadFile_def demoDaemon_def dworld0_def demo_eval)

theorem builtin_modules_witness:
  "\<exists>e cfg w'. Load cfg (builtinModule offSquawk offTob) ''tobogganing'' (New (builtinModule offSquawk offTob) cfg Builtins) dworld0 =
     (Some e, New (builtinModule offSquawk offTob) cfg Builtins, w')"
proof -
  let ?st = "\<lparr>ss_namespace = [], ss_fileDir = [], ss_serviceName = []\<rparr>"
  let ?cfg = "\<lparr>c_Host = hostFactory demoDaemon ''/v'' ''/v'' ?st [], c_StatePath = ''/v/enabled.json'', c_Backoff = DefaultBackoff,
     c_MaxRestarts = 0, c_ovf = \<lambda>_. 0, c_RFC3339 = \<lambda>_. []\<rparr>"
  let ?s = "New (builtinModule offSquawk offTob) ?cfg Builtins"
  have l: "get (loaded ?s) ''tobogganing'' = None" by (simp add: New_def)
  have c: "c_Host ?cfg = hostFactory demoDaemon ''/v'' ''/v'' ?st []" by simp
  from builtin_modules [OF refl l c demo_no_config] show ?thesis by blast
qed

end
