(* ===== verification/Flags.thy ===== *)
theory Flags
  imports Go_Strings Sdk
begin

text \<open>
  The standard package \<open>flag\<close> as far as the programs use it: the shape of an argument that is a flag, and
  \<open>FlagSet.Parse\<close> for a set of string flags, which is what the daemon and the tray declare. The values are a map from flag names;
  a flag set to several values keeps the last one.
\<close>

text \<open>The name of a flag and the value after an equals sign.\<close>

definition flagName :: "string \<Rightarrow> string \<times> string option" where
  "flagName name =
     (case name of [] \<Rightarrow> ([], None)
      | c # cs \<Rightarrow> (c # takeWhile (\<lambda>x. x \<noteq> CHR ''='') cs,
                   case dropWhile (\<lambda>x. x \<noteq> CHR ''='') cs of [] \<Rightarrow> None | _ # v \<Rightarrow> Some v))"

fun parseStringFlags :: "string list \<Rightarrow> string list \<Rightarrow> (string, string) gomap \<Rightarrow> goerr + (string, string) gomap" where
  "parseStringFlags names [] vals = Inr vals"
| "parseStringFlags names (s # args) vals =
     (if length s < 2 \<or> hd s \<noteq> CHR ''-'' then Inr vals
      else if s = ''--'' then Inr vals
      else let name = (if s ! 1 = CHR ''-'' then drop 2 s else drop 1 s)
           in if name = [] \<or> hd name = CHR ''-'' \<or> hd name = CHR ''='' then Inl (Errorf (''bad flag syntax: '' @ s))
              else case flagName name of (n, value) \<Rightarrow>
                if n \<in> set names then
                  (case value of Some v \<Rightarrow> parseStringFlags names args (put n v vals)
                   | None \<Rightarrow>
                       (case args of [] \<Rightarrow> Inl (Errorf (''flag needs an argument: -'' @ n))
                        | v # args' \<Rightarrow> parseStringFlags names args' (put n v vals)))
                else if n = ''help'' \<or> n = ''h'' then Inl (Sentinel ''flag: help requested'')
                else Inl (Errorf (''flag provided but not defined: -'' @ n)))"

definition flagValueOf :: "(string, string) gomap \<Rightarrow> string \<Rightarrow> string \<Rightarrow> string" where
  "flagValueOf vals n dflt = (case get vals n of None \<Rightarrow> dflt | Some v \<Rightarrow> v)"

section \<open>Spelling a flag\<close>

text \<open>One or two dashes, the value in the same argument or in the next.\<close>

datatype fopt = Sep bool string string | Eq bool string string

definition dashes :: "bool \<Rightarrow> string" where
  "dashes two = (if two then ''--'' else ''-'')"

fun renderFopt :: "fopt \<Rightarrow> string list" where
  "renderFopt (Sep two n v) = [dashes two @ n, v]"
| "renderFopt (Eq two n v) = [dashes two @ n @ ''='' @ v]"

fun foptName :: "fopt \<Rightarrow> string" where
  "foptName (Sep two n v) = n"
| "foptName (Eq two n v) = n"

fun foptValue :: "fopt \<Rightarrow> string" where
  "foptValue (Sep two n v) = v"
| "foptValue (Eq two n v) = v"

definition plainFlag :: "string \<Rightarrow> bool" where
  "plainFlag n \<longleftrightarrow> n \<noteq> [] \<and> hd n \<noteq> CHR ''-'' \<and> CHR ''='' \<notin> set n"

lemma flagName_plain:
  assumes "plainFlag n"
  shows "flagName n = (n, None)" "flagName (n @ CHR ''='' # v) = (n, Some v)"
proof -
  obtain c cs where n: "n = c # cs" and cs: "CHR ''='' \<notin> set cs" using assms by (cases n) (auto simp: plainFlag_def)
  have a: "x \<in> set cs \<Longrightarrow> x \<noteq> CHR ''=''" for x using cs by blast
  from a show "flagName n = (n, None)" by (simp add: n flagName_def takeWhile_eq_all_conv [THEN iffD2] dropWhile_eq_Nil_conv [THEN iffD2])
  from a show "flagName (n @ CHR ''='' # v) = (n, Some v)" by (simp add: n flagName_def takeWhile_append2 dropWhile_append2)
qed

lemma parseStringFlags_opt:
  assumes "foptName f \<in> set names" "plainFlag (foptName f)"
  shows "parseStringFlags names (renderFopt f @ args) vals = parseStringFlags names args (put (foptName f) (foptValue f) vals)"
  using assms flagName_plain [OF assms(2)]
  by (cases f) (auto simp: dashes_def plainFlag_def Let_def neq_Nil_conv nth_Cons')

lemma parseStringFlags_render:
  assumes "\<forall>f\<in>set fs. foptName f \<in> set names \<and> plainFlag (foptName f)"
  shows "parseStringFlags names (concat (map renderFopt fs)) vals =
           Inr (fold (\<lambda>f. put (foptName f) (foptValue f)) fs vals)"
  using assms
proof (induction fs arbitrary: vals)
  case (Cons f fs)
  then show ?case using parseStringFlags_opt [of f names "concat (map renderFopt fs)" vals] by simp
qed simp

text \<open>The value in effect is that of the last spelling of the flag.\<close>

lemma flagValueOf_render:
  "flagValueOf (fold (\<lambda>f. put (foptName f) (foptValue f)) fs []) n d =
     (case List.find (\<lambda>f. foptName f = n) (rev fs) of Some f \<Rightarrow> foptValue f | None \<Rightarrow> d)"
  by (simp add: flagValueOf_def get_fold_put split: option.split)

end
