(* ===== verification/Penguin.thy ===== *)
theory Penguin
  imports Daemon Flags
begin

text \<open>
  The command-line programs: the unprivileged client (\<open>cmd/penguin/main.go\<close>) with its argument parsing and
  its commands, and the service subcommands of the daemon (\<open>cmd/penguind/service_commands.go\<close>). A command is a
  function of its arguments and of what the daemon answers, and yields the text it prints and the error it
  returns. the command framework
  (cobra), the JSON form of generated messages, and the operating system's service manager are outside.
\<close>

section \<open>Global flags\<close>

definition defaultSocket :: string where
  "defaultSocket = ''/run/penguin/penguind.sock''"

text \<open>The loop of \<open>run\<close> that separates global flags from the command: the command's arguments.\<close>

fun splitArgs :: "string list \<Rightarrow> string list" where
  "splitArgs [] = []"
| "splitArgs (arg # args) =
     (if \<not> HasPrefix arg ''-'' then arg # args
      else if arg = ''-socket'' \<or> arg = ''--socket'' then (case args of [] \<Rightarrow> [] | v # args' \<Rightarrow> splitArgs args')
      else splitArgs args)"

definition ParseBool :: "string \<Rightarrow> bool option" where
  "ParseBool s =
     (if s \<in> {''1'', ''t'', ''T'', ''true'', ''TRUE'', ''True''} then Some True
      else if s \<in> {''0'', ''f'', ''F'', ''false'', ''FALSE'', ''False''} then Some False else None)"

record globals =
  gl_socket :: string
  gl_json :: bool

text \<open>\<open>FlagSet.Parse\<close> for the two global flags: arguments after the first that is not a flag are ignored.\<close>

fun parseFlags :: "string list \<Rightarrow> globals \<Rightarrow> goerr + globals" where
  "parseFlags [] g = Inr g"
| "parseFlags (s # args) g =
     (if length s < 2 \<or> hd s \<noteq> CHR ''-'' then Inr g
      else if s = ''--'' then Inr g
      else let name = (if s ! 1 = CHR ''-'' then drop 2 s else drop 1 s)
           in if name = [] \<or> hd name = CHR ''-'' \<or> hd name = CHR ''='' then Inl (Errorf (''bad flag syntax: '' @ s))
              else case flagName name of (n, value) \<Rightarrow>
                if n = ''json'' then
                  (case value of None \<Rightarrow> parseFlags args (g\<lparr>gl_json := True\<rparr>)
                   | Some v \<Rightarrow>
                       (case ParseBool v of
                          None \<Rightarrow> Inl (Errorf (''invalid boolean value '' @ Quote v @ '' for -json: parse error''))
                        | Some b \<Rightarrow> parseFlags args (g\<lparr>gl_json := b\<rparr>)))
                else if n = ''socket'' then
                  (case value of Some v \<Rightarrow> parseFlags args (g\<lparr>gl_socket := v\<rparr>)
                   | None \<Rightarrow>
                       (case args of [] \<Rightarrow> Inl (Errorf ''flag needs an argument: -socket'')
                        | v # args' \<Rightarrow> parseFlags args' (g\<lparr>gl_socket := v\<rparr>)))
                else if n = ''help'' \<or> n = ''h'' then Inl (Sentinel ''flag: help requested'')
                else Inl (Errorf (''flag provided but not defined: -'' @ n)))"

definition parseGlobals :: "string list \<Rightarrow> (goerr + globals) \<times> string list" where
  "parseGlobals args =
     (let cmdArgs = splitArgs args
      in (parseFlags (take (length args - length cmdArgs) args) \<lparr>gl_socket = defaultSocket, gl_json = False\<rparr>, cmdArgs))"

section \<open>Errors as the client sees them\<close>

datatype clientCode = Code code | Unauthenticated | UnknownCode | UnavailableCode

datatype cliErr = StatusErr clientCode string | TextErr string

text \<open>A handler's error on the client's side; a daemon that dies leaves the call unavailable.\<close>

definition fromRpc :: "rpcerr \<Rightarrow> cliErr" where
  "fromRpc e =
     (case e of RpcStatus c msg \<Rightarrow> StatusErr (Code c) msg
      | Plain x \<Rightarrow> StatusErr UnknownCode (Error x)
      | NilDeref \<Rightarrow> StatusErr UnavailableCode [])"

definition fromAuth :: "authErr \<Rightarrow> cliErr" where
  "fromAuth e =
     (case e of NoPeerInfo \<Rightarrow> StatusErr Unauthenticated ''no peer info''
      | NoPeerCredentials \<Rightarrow> StatusErr Unauthenticated ''no peer credentials''
      | NotAuthorized u g \<Rightarrow>
          StatusErr (Code PermissionDenied) (''peer uid '' @ Itoa u @ '' (gid '' @ Itoa g @ '') not authorized''))"

text \<open>The message of \<open>friendly\<close> has a dash outside ASCII, here as its three bytes.\<close>

definition friendly :: "string \<Rightarrow> cliErr option \<Rightarrow> cliErr option" where
  "friendly socket err =
     (case err of
        Some (StatusErr UnavailableCode msg) \<Rightarrow>
          Some (TextErr (''cannot reach penguind at '' @ socket @ '' '' @ [CHR 0xE2, CHR 0x80, CHR 0x94] @
                         '' is the daemon running?''))
      | _ \<Rightarrow> err)"

section \<open>Commands\<close>

definition nl :: string where
  "nl = [CHR 0x0A]"

function RuneCount :: "string \<Rightarrow> nat" where
  "RuneCount [] = 0"
| "RuneCount (c # s) = Suc (RuneCount (drop (runeLen (c # s) - 1) s))"
  by pat_completeness auto
termination
  by (relation "measure length") auto

text \<open>The verb \<open>%-ns\<close>.\<close>

definition pad :: "nat \<Rightarrow> string \<Rightarrow> string" where
  "pad n s = s @ replicate (n - RuneCount s) (CHR '' '')"

definition cmdVersion :: "string \<Rightarrow> cliErr + VersionResponse \<Rightarrow> string \<times> cliErr option" where
  "cmdVersion ver resp =
     (''penguin version '' @ ver @ nl @
        (case resp of Inr r \<Rightarrow> ''penguind version '' @ vr_DaemonVersion r @ nl | Inl _ \<Rightarrow> []), None)"

definition moduleRow :: "string \<Rightarrow> string \<Rightarrow> string \<Rightarrow> string \<Rightarrow> string \<Rightarrow> string" where
  "moduleRow a b c d e = pad 14 a @ '' '' @ pad 10 b @ '' '' @ pad 10 c @ '' '' @ pad 42 d @ '' '' @ e @ nl"

definition cmdModules ::
  "bool \<Rightarrow> (ModuleSummary list \<Rightarrow> string) \<Rightarrow> cliErr + ModuleSummary list \<Rightarrow> string \<times> cliErr option" where
  "cmdModules json jsonOf resp =
     (case resp of Inl e \<Rightarrow> ([], Some e)
      | Inr mods \<Rightarrow>
          (if json then jsonOf mods @ nl
           else if mods = [] then ''No modules loaded'' @ nl
           else moduleRow ''NAME'' ''STATE'' ''VERSION'' ''DESCRIPTION'' ''LICENSE FLAG'' @ replicate 100 (CHR ''-'') @ nl @
                concat (map (\<lambda>m. moduleRow (su_Name m) (su_State m) (su_Version m) (su_Description m) (su_LicenseFeature m)) mods),
           None))"

definition ExactArgs :: "nat \<Rightarrow> string list \<Rightarrow> cliErr option" where
  "ExactArgs n args =
     (if length args \<noteq> n
      then Some (TextErr (''accepts '' @ Itoa (int n) @ '' arg(s), received '' @ Itoa (int (length args)))) else None)"

definition cmdLoad :: "(string \<Rightarrow> cliErr + string) \<Rightarrow> string list \<Rightarrow> string \<times> cliErr option" where
  "cmdLoad loadModule args =
     (case ExactArgs 1 args of Some e \<Rightarrow> ([], Some e)
      | None \<Rightarrow>
          (case loadModule (hd args) of
             Inl (StatusErr (Code NotFound) msg) \<Rightarrow> ([], Some (TextErr (''module '' @ Quote (hd args) @ '' not found'')))
           | Inl (StatusErr (Code PermissionDenied) msg) \<Rightarrow> ([], Some (TextErr (''license feature required: '' @ msg)))
           | Inl e \<Rightarrow> ([], Some e)
           | Inr st \<Rightarrow> (''Module '' @ Quote (hd args) @ '' loaded (state: '' @ st @ '')'' @ nl, None)))"

definition cmdUnload :: "(string \<Rightarrow> cliErr + string) \<Rightarrow> string list \<Rightarrow> string \<times> cliErr option" where
  "cmdUnload unloadModule args =
     (case ExactArgs 1 args of Some e \<Rightarrow> ([], Some e)
      | None \<Rightarrow>
          (case unloadModule (hd args) of Inl e \<Rightarrow> ([], Some e)
           | Inr _ \<Rightarrow> (''Module '' @ Quote (hd args) @ '' unloaded'' @ nl, None)))"

definition statusRow :: "string \<Rightarrow> string \<Rightarrow> string \<Rightarrow> string \<Rightarrow> string" where
  "statusRow a b c d = pad 20 a @ '' '' @ pad 15 b @ '' '' @ pad 15 c @ '' '' @ d @ nl"

definition penguin_cmdStatus ::
  "bool \<Rightarrow> (GetStatusResponse \<Rightarrow> string) \<Rightarrow> (string \<Rightarrow> cliErr + GetStatusResponse) \<Rightarrow> string list \<Rightarrow> string \<times> cliErr option" where
  "penguin_cmdStatus json jsonOf getStatus args =
     (case getStatus (case args of [] \<Rightarrow> [] | a # _ \<Rightarrow> a) of Inl e \<Rightarrow> ([], Some e)
      | Inr resp \<Rightarrow>
          (if json then jsonOf resp @ nl
           else ''Daemon version: '' @ gs_DaemonVersion resp @ nl @ nl @
             (if gs_Modules resp = [] then ''No modules'' @ nl
              else statusRow ''NAME'' ''STATE'' ''HEALTH'' ''MESSAGE'' @ replicate 70 (CHR ''-'') @ nl @
                concat (map (\<lambda>m. statusRow (mo_Name m) (mo_State m) (mo_Health m) (mo_HealthMessage m)) (gs_Modules resp))),
           None))"

record LogLine =
  ll_AtUnixNano :: "64 word"
  ll_Level :: string
  ll_Message :: string

text \<open>The stream of \<open>TailLogs\<close>: the error of opening it, or the lines received before an error ended it.\<close>

definition cmdLogs ::
  "(64 word \<Rightarrow> string) \<Rightarrow> 64 word \<Rightarrow> bool \<Rightarrow> (string \<Rightarrow> 32 word \<Rightarrow> bool \<Rightarrow> cliErr + LogLine list \<times> cliErr) \<Rightarrow> string list \<Rightarrow>
   string \<times> cliErr option" where
  "cmdLogs fmtTime lines follow tailLogs args =
     (if lines <s 0 \<or> 10000 <s lines then ([], Some (TextErr ''lines must be between 0 and 10000''))
      else case tailLogs (case args of [] \<Rightarrow> [] | a # _ \<Rightarrow> a) (scast lines) follow of
             Inl (StatusErr (Code Unimplemented) msg) \<Rightarrow> (''TailLogs not implemented yet'' @ nl, None)
           | Inl e \<Rightarrow> ([], Some e)
           | Inr (ls, _) \<Rightarrow>
               (concat (map (\<lambda>l. ''['' @ fmtTime (ll_AtUnixNano l) @ ''] '' @ ll_Level l @ '': '' @ ll_Message l @ nl) ls), None))"

text \<open>\<open>answer\<close> is the line read from the terminal, if any; the second component says whether the update was requested.\<close>

definition cmdUpdate ::
  "bool \<Rightarrow> string option \<Rightarrow> cliErr + CheckUpdateResponse \<Rightarrow> cliErr + ApplyUpdateResponse \<Rightarrow> string \<times> bool \<times> cliErr option" where
  "cmdUpdate yes answer check applyResp =
     (case check of Inl e \<Rightarrow> ([], False, Some e)
      | Inr c \<Rightarrow>
          let head = ''Current version: '' @ cu_CurrentVersion c @ nl @ ''Latest version: '' @ cu_LatestVersion c @ nl
          in if \<not> cu_Available c then (head @ ''No updates available'' @ nl, False, None)
             else let ask = (if yes then [] else ''Apply update? (y/n): '')
                  in if \<not> yes \<and> answer \<noteq> Some ''y'' \<and> answer \<noteq> Some ''yes'' then (head @ ask, False, None)
                     else case applyResp of Inl e \<Rightarrow> (head @ ask, True, Some e)
                          | Inr r \<Rightarrow>
                              (head @ ask @ (if au_Applied r then ''Update applied successfully'' @ nl
                                             else ''Update failed: '' @ au_Message r @ nl), True, None))"

section \<open>The program\<close>

definition staticCommands :: "string list" where
  "staticCommands = [''version'', ''modules'', ''load'', ''unload'', ''status'', ''logs'', ''update'']"

text \<open>\<open>run\<close>: \<open>dial\<close> is the error of \<open>ipc.Dial\<close>, \<open>dynamic\<close> the commands built from the daemon's modules, which are left out when
  they cannot be fetched, and \<open>execute\<close> the command framework on the commands and arguments. The result is what is
  printed, what goes to standard error, and the error.\<close>

definition penguin_run ::
  "(string \<Rightarrow> goerr option) \<Rightarrow> goerr + string list \<Rightarrow> (globals \<Rightarrow> string list \<Rightarrow> string list \<Rightarrow> string \<times> cliErr option) \<Rightarrow>
   string list \<Rightarrow> string \<times> string \<times> cliErr option" where
  "penguin_run dial dynamic execute args =
     (case parseGlobals args of
        (Inl e, _) \<Rightarrow> ([], [], Some (TextErr (Error e)))
      | (Inr g, cmdArgs) \<Rightarrow>
          (case dial (gl_socket g) of
             Some e \<Rightarrow> ([], ''penguin: is penguind running? daemon unreachable'' @ nl, Some (TextErr (''connect daemon: '' @ Error e)))
           | None \<Rightarrow>
               (case execute g (staticCommands @ (case dynamic of Inl _ \<Rightarrow> [] | Inr cmds \<Rightarrow> cmds)) cmdArgs of
                  (out, err) \<Rightarrow> (out, [], friendly (gl_socket g) err))))"

definition codeName :: "clientCode \<Rightarrow> string" where
  "codeName c =
     (case c of Code Unimplemented \<Rightarrow> ''Unimplemented'' | Code InvalidArgument \<Rightarrow> ''InvalidArgument''
      | Code NotFound \<Rightarrow> ''NotFound'' | Code PermissionDenied \<Rightarrow> ''PermissionDenied'' | Code Internal \<Rightarrow> ''Internal''
      | Unauthenticated \<Rightarrow> ''Unauthenticated'' | UnknownCode \<Rightarrow> ''Unknown'' | UnavailableCode \<Rightarrow> ''Unavailable'')"

definition cliErrText :: "cliErr \<Rightarrow> string" where
  "cliErrText e = (case e of TextErr t \<Rightarrow> t | StatusErr c msg \<Rightarrow> ''rpc error: code = '' @ codeName c @ '' desc = '' @ msg)"

definition penguin_main :: "cliErr option \<Rightarrow> string \<times> int" where
  "penguin_main err = (case err of None \<Rightarrow> ([], 0) | Some e \<Rightarrow> (''penguin: '' @ cliErrText e @ nl, 1))"

text \<open>Whatever command is given, when the daemon cannot be reached the user is told so, with the socket that was tried, and the
  status is 1; the commands of the modules are offered when the daemon lists them, and the static ones always.\<close>

lemma unreachable_told:
  assumes "cmd = [] \<or> \<not> HasPrefix (hd cmd) ''-''" and "dial socket = None" and "args = [''--socket'', socket] @ cmd"
    and "execute \<lparr>gl_socket = socket, gl_json = False\<rparr> (staticCommands @ (case dynamic of Inl _ \<Rightarrow> [] | Inr cmds \<Rightarrow> cmds)) cmd =
           (out, Some (StatusErr UnavailableCode msg))"
  shows "penguin_run dial dynamic execute args =
           (out, [], Some (TextErr (''cannot reach penguind at '' @ socket @ '' '' @ [CHR 0xE2, CHR 0x80, CHR 0x94] @
                                    '' is the daemon running?'')))"
proof -
  have "splitArgs cmd = cmd" using assms(1) by (cases cmd) auto
  then have "parseGlobals args = (Inr \<lparr>gl_socket = socket, gl_json = False\<rparr>, cmd)"
    unfolding assms(3) parseGlobals_def by (simp add: HasPrefix_def flagName_def Let_def)
  with assms(2,4) show ?thesis by (simp add: penguin_run_def friendly_def)
qed

section \<open>Service subcommands of the daemon\<close>

text \<open>The service library: creating the service object, its status as text, and control actions.\<close>

record serviceLib =
  sl_New :: "goerr option"
  sl_Status :: "goerr + string"
  sl_Control :: "string \<Rightarrow> goerr option"

definition serviceAction :: "serviceLib \<Rightarrow> string \<Rightarrow> string \<Rightarrow> string \<times> goerr option" where
  "serviceAction L action ok =
     (case sl_New L of Some e \<Rightarrow> ([], Some (Wrapf (''service '' @ action @ '': '') e []))
      | None \<Rightarrow>
          (case sl_Control L action of Some e \<Rightarrow> ([], Some (Wrapf (action @ '' failed: '') e []))
           | None \<Rightarrow> (''penguind service '' @ ok @ nl, None)))"

definition handleServiceCommand :: "serviceLib \<Rightarrow> string list \<Rightarrow> bool \<times> string \<times> goerr option" where
  "handleServiceCommand L args =
     (if args = [] \<or> hd args \<noteq> ''service'' then (False, [], None)
      else if length args < 2 then (True, [], Some (Errorf ''service: missing action (install|uninstall|start|stop|status)''))
      else let action = args ! 1
           in if action = ''status'' then
                (True,
                 case sl_New L of Some e \<Rightarrow> ([], Some (Wrapf (''service '' @ action @ '': '') e []))
                 | None \<Rightarrow>
                     (case sl_Status L of Inl e \<Rightarrow> ([], Some (Wrapf ''status check failed: '' e []))
                      | Inr st \<Rightarrow> (''penguind service status: '' @ st @ nl, None)))
              else if action = ''start'' then (True, serviceAction L action ''started'')
              else if action = ''stop'' then (True, serviceAction L action ''stopped'')
              else if action = ''install'' then (True, serviceAction L action ''installed successfully'')
              else if action = ''uninstall'' then (True, serviceAction L action ''uninstalled successfully'')
              else (True, [], Some (Errorf (''service: unknown action '' @ Quote action @ '' (install|uninstall|start|stop|status)''))))"


section \<open>Properties\<close>

text \<open>The options as a user writes them. \<open>boolWords\<close> are the words for a Boolean value that \<open>strconv.ParseBool\<close> documents.\<close>

definition boolWords :: "bool \<Rightarrow> string list" where
  "boolWords b =
     (if b then [''1'', ''t'', ''T'', ''true'', ''TRUE'', ''True''] else [''0'', ''f'', ''F'', ''false'', ''FALSE'', ''False''])"

datatype gopt = SocketOpt bool string | SocketEq bool string | JsonOpt bool | JsonEq bool bool nat

fun renderOpt :: "gopt \<Rightarrow> string list" where
  "renderOpt (SocketOpt two v) = [dashes two @ ''socket'', v]"
| "renderOpt (SocketEq two v) = [dashes two @ ''socket='' @ v]"
| "renderOpt (JsonOpt two) = [dashes two @ ''json'']"
| "renderOpt (JsonEq two b i) = [dashes two @ ''json='' @ boolWords b ! (i mod 6)]"

fun applyOpt :: "globals \<Rightarrow> gopt \<Rightarrow> globals" where
  "applyOpt g (SocketOpt two v) = g\<lparr>gl_socket := v\<rparr>"
| "applyOpt g (SocketEq two v) = g\<lparr>gl_socket := v\<rparr>"
| "applyOpt g (JsonOpt two) = g\<lparr>gl_json := True\<rparr>"
| "applyOpt g (JsonEq two b i) = g\<lparr>gl_json := b\<rparr>"

lemma ParseBool_iff: "ParseBool v = Some b \<longleftrightarrow> v \<in> set (boolWords b)"
  by (cases b) (auto simp: ParseBool_def boolWords_def)

lemma boolWord_mem: "boolWords b ! (i mod 6) \<in> set (boolWords b)"
  by (rule nth_mem) (simp add: boolWords_def)

lemma splitArgs_render: "splitArgs (concat (map renderOpt gs) @ rest) = splitArgs rest"
proof (induction gs)
  case (Cons g gs)
  then show ?case by (cases g) (simp_all add: dashes_def HasPrefix_def)
qed simp

lemma splitArgs_command: "cmd = [] \<or> \<not> HasPrefix (hd cmd) ''-'' \<Longrightarrow> splitArgs cmd = cmd"
  by (cases cmd) auto

lemma splitArgs_length: "length (splitArgs args) \<le> length args"
proof (induction args rule: splitArgs.induct)
  case (2 arg args)
  have "length (splitArgs args) \<le> length (arg # args)" if "HasPrefix arg ''-''" "\<not> (arg = ''-socket'' \<or> arg = ''--socket'')"
    using 2(2) that by (simp add: le_SucI)
  moreover have "length (splitArgs as) \<le> length (arg # args)"
    if "HasPrefix arg ''-''" "arg = ''-socket'' \<or> arg = ''--socket''" "args = a # as" for a as
    using 2(1) [OF _ that(2,3)] that by simp
  ultimately show ?case unfolding splitArgs.simps(2) [of arg] by (cases args) simp_all
qed simp

lemma parseFlags_render:
  "parseFlags (concat (map renderOpt gs) @ rest) g = parseFlags rest (foldl applyOpt g gs)"
proof (induction gs arbitrary: g)
  case (Cons o1 gs)
  have "ParseBool (boolWords b ! (i mod 6)) = Some b" for b i unfolding ParseBool_iff by (rule boolWord_mem)
  with Cons show ?case by (cases o1) (simp_all add: dashes_def flagName_def Let_def)
qed simp

text \<open>C36: Parsing of the command line. For every sequence of global options, the socket with its value in the same or
  the next argument, \<open>json\<close> alone or with any of the words for true and false, with one dash or two,
  followed by a command that does not start with a dash, the client splits the arguments
  exactly between options and command, and parsing the options gives what they say, the last one winning. A word after
  \<open>json=\<close> that is none of these is refused, whatever comes before and after it.\<close>

theorem global_flags_roundtrip:
  assumes "cmd = [] \<or> \<not> HasPrefix (hd cmd) ''-''"
  shows "parseGlobals (concat (map renderOpt gs) @ cmd) =
           (Inr (foldl applyOpt \<lparr>gl_socket = defaultSocket, gl_json = False\<rparr> gs), cmd) \<and>
         (\<forall>two v rest. v \<notin> set (boolWords True) \<union> set (boolWords False) \<longrightarrow>
            fst (parseGlobals (concat (map renderOpt gs) @ (dashes two @ ''json='' @ v) # rest)) =
              Inl (Errorf (''invalid boolean value '' @ Quote v @ '' for -json: parse error'')))"
proof (intro conjI allI impI)
  show "parseGlobals (concat (map renderOpt gs) @ cmd) =
      (Inr (foldl applyOpt \<lparr>gl_socket = defaultSocket, gl_json = False\<rparr> gs), cmd)"
    using parseFlags_render [of gs "[]"]
    by (simp add: parseGlobals_def Let_def splitArgs_render splitArgs_command [OF assms])
  fix two v rest
  assume v: "v \<notin> set (boolWords True) \<union> set (boolWords False)"
  let ?x = "dashes two @ ''json='' @ v" and ?os = "concat (map renderOpt gs)"
  have "splitArgs (?x # rest) = splitArgs rest" by (simp add: dashes_def HasPrefix_def)
  then have "take (length (?os @ ?x # rest) - length (splitArgs (?os @ ?x # rest))) (?os @ ?x # rest) =
      ?os @ ?x # take (length rest - length (splitArgs rest)) rest"
    using splitArgs_length [of rest] by (simp add: splitArgs_render Suc_diff_le)
  moreover have "ParseBool v = None" using v ParseBool_iff [of v] by (metis (full_types) UnCI not_None_eq)
  ultimately show "fst (parseGlobals (?os @ ?x # rest)) =
      Inl (Errorf (''invalid boolean value '' @ Quote v @ '' for -json: parse error''))"
    unfolding parseGlobals_def Let_def fst_conv by (simp only: parseFlags_render) (simp add: dashes_def flagName_def)
qed

theorem global_flags_roundtrip_witness:
  "parseGlobals [''--json'', ''-socket'', ''--x'', ''-json=F'', ''load'', ''squawk''] =
     (Inr \<lparr>gl_socket = ''--x'', gl_json = False\<rparr>, [''load'', ''squawk'']) \<and>
   fst (parseGlobals [''-json=yes'', ''load'']) = Inl (Errorf (''invalid boolean value '' @ Quote ''yes'' @ '' for -json: parse error''))"
proof -
  have c: "[''load'', ''squawk''] = [] \<or> \<not> HasPrefix (hd [''load'', ''squawk'']) ''-''" by (simp add: HasPrefix_def)
  note r = global_flags_roundtrip [OF c]
  have y: "''yes'' \<notin> set (boolWords True) \<union> set (boolWords False)" by (simp add: boolWords_def)
  from r [of "[JsonOpt True, SocketOpt False ''--x'', JsonEq False False 2]", THEN conjunct1]
    r [of "[]", THEN conjunct2, rule_format, OF y, of False "[''load'']"]
  show ?thesis by (simp add: dashes_def boolWords_def)
qed

definition callLoad ::
  "('x world_scheme) Config \<Rightarrow> ('m, 'x world_scheme) Module \<Rightarrow> ('m, 'x world_scheme) Supervisor \<Rightarrow> 'x world_scheme \<Rightarrow>
   string \<Rightarrow> cliErr + string" where
  "callLoad cfg M s w name =
     (case fst (LoadModule cfg M ''v1'' name s w) of Inl e \<Rightarrow> Inl (fromRpc e) | Inr st \<Rightarrow> Inr st)"

text \<open>What \<open>penguin load\<close> tells the user. Loading the built-in \<open>tobogganing\<close> module without a configuration
  ends, through supervisor, server and client, in the message that a licence feature is required, although the module
  needs no licence and the reason, a missing manager URL, is only quoted behind it; a user whom the daemon does
  not authorise is told the same.\<close>

theorem load_blames_licence:
  assumes "modules s = modules (New (builtinModule SD TD) cfg Builtins)" and "get (loaded s) ''tobogganing'' = None"
    and "c_Host cfg = hostFactory D configDir stateDir st schemas"
    and "\<forall>raw. ModuleRaw (dd_moduleYaml D) (dd_emptyMap D) (dd_schema D) configDir ''tobogganing''
           (case get schemas ''tobogganing'' of Some b \<Rightarrow> b | None \<Rightarrow> []) (wos w) (wos w) = Inr raw \<longrightarrow> raw = []"
  shows "cmdLoad (callLoad cfg (builtinModule SD TD) s w) [''tobogganing''] =
           ([], Some (TextErr (''license feature required: cannot load module: init '' @ Quote ''tobogganing'' @
                               '': manager_url is required''))) \<and>
         cmdLoad (\<lambda>_. Inl (fromAuth (NotAuthorized u g))) [n] =
           ([], Some (TextErr (''license feature required: peer uid '' @ Itoa u @ '' (gid '' @ Itoa g @ '') not authorized'')))"
proof -
  obtain w' where l: "Load cfg (builtinModule SD TD) ''tobogganing'' s w =
      (Some (Wrapf (''init '' @ Quote ''tobogganing'' @ '': '') (Errorf ''manager_url is required'') []), s, w')"
    using tob_unconfigured [OF assms] by blast
  show ?thesis
    by (simp add: cmdLoad_def ExactArgs_def callLoad_def LoadModule_def checkAPIVersion_def l fromRpc_def fromAuth_def)
qed

theorem load_blames_licence_witness:
  "\<exists>cfg msg. cmdLoad (callLoad cfg (builtinModule offSquawk offTob) (New (builtinModule offSquawk offTob) cfg Builtins) dworld0)
     [''tobogganing''] = ([], Some (TextErr (''license feature required: '' @ msg)))"
proof -
  let ?st = "\<lparr>ss_namespace = [], ss_fileDir = [], ss_serviceName = []\<rparr>"
  let ?cfg = "\<lparr>c_Host = hostFactory demoDaemon ''/v'' ''/v'' ?st [], c_StatePath = ''/v/enabled.json'', c_Backoff = DefaultBackoff,
     c_MaxRestarts = 0, c_ovf = \<lambda>_. 0, c_RFC3339 = \<lambda>_. []\<rparr>"
  have l: "get (loaded (New (builtinModule offSquawk offTob) ?cfg Builtins)) ''tobogganing'' = None" by (simp add: New_def)
  have c: "c_Host ?cfg = hostFactory demoDaemon ''/v'' ''/v'' ?st []" by simp
  from load_blames_licence [OF refl l c demo_no_config, of 0 0 "[]"]
  have "cmdLoad (callLoad ?cfg (builtinModule offSquawk offTob) (New (builtinModule offSquawk offTob) ?cfg Builtins) dworld0)
     [''tobogganing''] = ([], Some (TextErr (''license feature required: '' @ ''cannot load module: init '' @ Quote ''tobogganing'' @
                               '': manager_url is required'')))" by simp
  then show ?thesis by blast
qed

text \<open>\<open>penguin update\<close> never updates. Throughout the daemon's life its update client reports its own version
  as the latest one, so the command prints that there is no update and never asks the daemon to apply one,
  whatever the user answers.\<close>

theorem update_never_applies:
  assumes "daemon_run D M factories configDir stateDir socketPath p w"
  shows "\<exists>r v'. CheckUpdate (dp_server p) ''v1'' v = (Inr r, v') \<and>
           cmdUpdate yes answer (Inr r) applyResp =
             (''Current version: '' @ dd_Version D @ nl @ ''Latest version: '' @ dd_Version D @ nl @ ''No updates available'' @ nl,
              False, None)"
proof -
  from assms obtain w0 p1 w1 where i: "initDaemon D M factories configDir stateDir socketPath w0 = (Inr p1, w1)"
    and run: "(daemon_step D M)\<^sup>*\<^sup>* (p1, w1) (p, w)"
    unfolding daemon_run_def by blast
  from initDaemon_ok [OF i]
  have "dp_server p1 = NewServer (dd_Version D) (Some (updateClientAdapter (dd_Version D)))" by blast
  with daemon_steps_server [OF run]
  have "sv_updateClient (dp_server p) = Some (updateClientAdapter (dd_Version D))" "sv_version (dp_server p) = dd_Version D"
    by (simp_all add: NewServer_def)
  then show ?thesis
    by (simp add: CheckUpdate_def checkAPIVersion_def updateClientAdapter_def cmdUpdate_def Let_def)
qed

theorem update_never_applies_witness:
  "\<exists>p w r v. daemon_run demoDaemon (builtinModule offSquawk offTob) Builtins ''/v'' ''/v'' ''/v/s'' p w \<and>
     CheckUpdate (dp_server p) ''v1'' w = (Inr r, v) \<and> fst (snd (cmdUpdate True None (Inr r) (Inl (TextErr [])))) = False"
proof -
  obtain p w where r: "daemon_run demoDaemon (builtinModule offSquawk offTob) Builtins ''/v'' ''/v'' ''/v/s'' p w"
    using demo_run by blast
  from update_never_applies [OF r, of w True None "Inl (TextErr [])"] r show ?thesis by fastforce
qed

text \<open>\<open>penguin logs\<close> is silent. The daemon's \<open>TailLogs\<close> answers with the status \<open>Unimplemented\<close>; for a streaming
  call a client of gRPC sees a status of the server when it first receives, where the command just ends: it prints nothing
  and succeeds, and its message for that status is not shown. A line count out of range is refused before.\<close>

theorem logs_silent:
  shows "cmdLogs fmtTime lines follow (\<lambda>_ _ _. Inr ([], fromRpc (TailLogs ''v1''))) args =
           ([], if 0 \<le> sint lines \<and> sint lines \<le> 10000 then None else Some (TextErr ''lines must be between 0 and 10000''))"
  by (auto simp: cmdLogs_def word_sless_alt)

text \<open>The service subcommands never fall through to starting the daemon.\<close>

lemma service_handled: "fst (handleServiceCommand L args) \<longleftrightarrow> args \<noteq> [] \<and> hd args = ''service''"
  by (simp add: handleServiceCommand_def Let_def)

end
