(* ===== verification/Supervisor_Runs.thy ===== *)
theory Supervisor_Runs
  imports Supervisor_Props
begin

text \<open>
  Whole runs of the supervisor, as lists of labelled steps (\<open>sup_act\<close>), with a count of
  restarts: a potential per module, what is left of its restart budget plus its waiting timers,
  pays for every timer that fires, and a measure over all modules shows that a supervisor left
  alone stops restarting.
\<close>

section \<open>Runs\<close>

text \<open>A run whose environment steps are only those that \<open>E\<close> allows.\<close>

inductive sup_run ::
  "('x world_scheme) Config \<Rightarrow> ('m, 'x world_scheme) Module \<Rightarrow>
   (('m, 'x world_scheme) Supervisor \<times> 'x world_scheme \<Rightarrow> ('m, 'x world_scheme) Supervisor \<times> 'x world_scheme \<Rightarrow> bool) \<Rightarrow>
   ('m, 'x world_scheme) Supervisor \<times> 'x world_scheme \<Rightarrow> act list \<Rightarrow>
   ('m, 'x world_scheme) Supervisor \<times> 'x world_scheme \<Rightarrow> bool"
  for cfg M E sw where
  none: "sup_run cfg M E sw [] sw"
| more: "sup_run cfg M E sw as (s, w) \<Longrightarrow> sup_act cfg M a (s, w) (s', w') \<Longrightarrow> (a = Env \<longrightarrow> E (s, w) (s', w')) \<Longrightarrow>
         sup_run cfg M E sw (as @ [a]) (s', w')"

abbreviation any_env :: "'c \<Rightarrow> 'c \<Rightarrow> bool" where
  "any_env \<equiv> \<lambda>_ _. True"

lemmas sup_act_cases = sup_actE [consumes 1, case_names load unload boot report fire fail_report
  life_stop abandon stop_all internal outside]

lemma sup_run_steps: "sup_run cfg M E sw as sw' \<Longrightarrow> (sup_step cfg M)\<^sup>*\<^sup>* sw sw'"
  by (induction rule: sup_run.induct) (auto intro: sup_stepI rtranclp.rtrancl_into_rtrancl)

lemma sup_run_reachable: "sup_run cfg M E (New M cfg fs, w) as sw \<Longrightarrow> reachable cfg M fs sw"
  unfolding reachable_def using sup_run_steps by blast

section \<open>Counting restarts\<close>

text \<open>How many more restarts the recorded failures of a module allow, and how many are waiting.\<close>

fun room :: "int \<Rightarrow> ('m, 'w) moduleState option \<Rightarrow> nat" where
  "room limit None = 0"
| "room limit (Some ms) = nat (limit - 1 - ms_restartAttempt ms)"

definition budget :: "('m, 'w) Supervisor \<Rightarrow> string \<Rightarrow> nat" where
  "budget s n = room (maxRestart s) (get (loaded s) n)"

definition waiting :: "('m, 'w) Supervisor \<Rightarrow> string \<Rightarrow> nat" where
  "waiting s n = count_list (map fst (pending s)) n"

definition potential :: "('m, 'w) Supervisor \<Rightarrow> string \<Rightarrow> nat" where
  "potential s n = budget s n + waiting s n"

lemma waiting_remove1:
  "(m, due) \<in> set (pending s) \<Longrightarrow>
   waiting (s\<lparr>pending := remove1 (m, due) (pending s)\<rparr>) n + (if n = m then 1 else 0) = waiting s n"
proof -
  have "count_list (map fst (remove1 (m, due) xs)) n + (if n = m then 1 else 0) = count_list (map fst xs) n"
    if "(m, due) \<in> set xs" for xs :: "(string \<times> time) list"
    using that by (induction xs) auto
  then show "(m, due) \<in> set (pending s) \<Longrightarrow> ?thesis" by (simp add: waiting_def)
qed

lemmas potential_defs = potential_def budget_def waiting_def

lemma ReportFailure_potential:
  assumes "ReportFailure cfg m s w = (s', w')"
  shows "maxRestart s' = maxRestart s \<and> potential s' n \<le> potential s n"
  using assms by (cases rule: ReportFailure_cases) (auto simp: potential_defs)

lemma restartNow_potential:
  assumes "restartNow cfg M m s w = (f, s', w')"
  shows "maxRestart s' = maxRestart s \<and> potential s' n = potential s n"
  using assms by (cases rule: restartNow_cases) (auto simp: potential_defs)

lemma Load_potential:
  assumes "Load cfg M m s w = (r, s', w')"
  shows "maxRestart s' = maxRestart s \<and>
         potential s' n \<le> potential s n + (if n = m then nat (maxRestart s - 1) else 0)"
  using assms by (cases rule: Load_cases) (auto simp: potential_defs newState_def cancel_def)

lemma stopLocked_potential:
  assumes "stopLocked cfg M m s w = (s', w')"
  shows "maxRestart s' = maxRestart s \<and> potential s' n \<le> potential s n"
  using assms by (cases rule: stopLocked_cases) (auto simp: potential_defs)

lemma Unload_potential:
  assumes "Unload cfg M m s w = (s', w')"
  shows "maxRestart s' = maxRestart s \<and> potential s' n \<le> potential s n"
  using assms by (cases rule: Unload_cases) (auto simp: potential_defs)

lemma stopAll_potential:
  "stopAll cfg M ms s w = (s', w') \<Longrightarrow> maxRestart s' = maxRestart s \<and> potential s' n \<le> potential s n"
proof (induction ms arbitrary: s w)
  case (Cons m ms)
  obtain s1 w1 where 1: "stopLocked cfg M m s w = (s1, w1)" by fastforce
  with Cons stopLocked_potential [OF 1, of n] show ?case by fastforce
qed simp

lemma potential_reports [simp]: "potential (s\<lparr>reports := rs\<rparr>) n = potential s n"
  by (simp add: potential_defs)

lemma loadPersistedState_potential:
  "loadPersistedState cfg s w = Inr s' \<Longrightarrow> maxRestart s' = maxRestart s \<and> potential s' n = potential s n"
  by (auto simp: loadPersistedState_def potential_defs split: sum.splits)

text \<open>Every step pays for the restart it makes, and only a load adds to the account.\<close>

lemma act_potential:
  assumes "sup_act cfg M a (s, w) (s', w')"
  shows "maxRestart s' = maxRestart s \<and>
         potential s' n + (if a = Firing n then 1 else 0) \<le>
           potential s n + (if a = Loading n then nat (maxRestart s - 1) else 0)"
  using assms
proof (cases rule: sup_act_cases)
  case (fire m due f s1)
  let ?s = "s\<lparr>pending := remove1 (m, due) (pending s)\<rparr>"
  have "potential ?s n + (if n = m then 1 else 0) = potential s n"
    using waiting_remove1 [OF fire(3), of n] by (simp add: potential_def budget_def)
  moreover have "maxRestart s1 = maxRestart s \<and> potential s1 n = potential ?s n"
    using restartNow_potential [OF fire(5), of n] by simp
  ultimately show ?thesis using fire(1,2) by (auto split: if_splits)
next
  case (fail_report m)
  then show ?thesis using ReportFailure_potential [OF fail_report(3), of n] by simp
next
  case (abandon p)
  then show ?thesis using waiting_remove1 [of "fst p" "snd p" s n]
    by (auto simp: potential_def budget_def split: if_splits)
next
  case stop_all
  then show ?thesis using stopAll_potential [of cfg M _ s w s' w' n] by simp
qed (auto simp: lifeStop_def potential_defs dest: Load_potential [of _ _ _ _ _ _ _ _ n]
      Unload_potential [of _ _ _ _ _ _ _ n] ReportFailure_potential [of _ _ _ _ _ _ n]
      loadPersistedState_potential [of _ _ _ _ n] split: if_splits)

lemma run_potential:
  assumes "sup_run cfg M E (s0, w0) as (s, w)"
  shows "maxRestart s = maxRestart s0 \<and>
         potential s n + count_list as (Firing n) \<le>
           potential s0 n + nat (maxRestart s0 - 1) * count_list as (Loading n)"
  using assms
proof (induction "as" "(s, w)" arbitrary: s w rule: sup_run.induct)
  case none
  then show ?case by simp
next
  case (more "as" s w a s' w')
  then show ?case using act_potential [OF more.hyps(3), of n] by (auto split: if_splits)
qed

section \<open>Restarts come to an end\<close>

definition work :: "('m, 'w) Supervisor \<Rightarrow> nat" where
  "work s = 3 * (\<Sum>n\<in>fst ` set (loaded s). budget s n) + 2 * length (pending s) + length (reports s)"

text \<open>What the supervisor does on its own: fire timers, report failed restarts, abandon timers.\<close>

definition own :: "act \<Rightarrow> bool" where
  "own a \<longleftrightarrow> (case a of Firing _ \<Rightarrow> True | FailReporting _ \<Rightarrow> True | Abandoning \<Rightarrow> True | _ \<Rightarrow> False)"

lemma sum_one_changed:
  fixes f g :: "'a \<Rightarrow> nat"
  assumes "finite A" "m \<in> A" "\<And>n. n \<noteq> m \<Longrightarrow> g n = f n"
  shows "sum g A + f m = sum f A + g m"
proof -
  have "sum g (A - {m}) = sum f (A - {m})" using assms(3) by (intro sum.cong) auto
  then show ?thesis using sum.remove [OF assms(1,2), of f] sum.remove [OF assms(1,2), of g] by simp
qed

lemma ReportFailure_work:
  assumes "ReportFailure cfg m s w = (s', w')"
  shows "work s' \<le> work s"
  using assms
proof (cases rule: ReportFailure_cases)
  case absent
  then show ?thesis by simp
next
  case (parked ms)
  have "budget s' n = budget s n" for n using parked by (auto simp: budget_def)
  then show ?thesis using parked by (simp add: work_def insert_absorb get_Some_key)
next
  case (scheduled ms due)
  have keys: "fst ` set (loaded s') = fst ` set (loaded s)" and m: "m \<in> fst ` set (loaded s)"
    using scheduled by (simp_all add: insert_absorb get_Some_key)
  have "budget s' n = budget s n" if "n \<noteq> m" for n using scheduled that by (simp add: budget_def)
  from sum_one_changed [OF _ m this]
  have "(\<Sum>n\<in>fst ` set (loaded s). budget s' n) + budget s m = (\<Sum>n\<in>fst ` set (loaded s). budget s n) + budget s' m"
    by simp
  moreover have "budget s m = Suc (budget s' m)" using scheduled by (simp add: budget_def)
  ultimately show ?thesis using scheduled(3) keys by (simp add: work_def)
qed

lemma restartNow_work:
  assumes "restartNow cfg M m s w = (f, s', w')"
  shows "work s' = work s"
proof -
  have "budget s' n = budget s n" for n
    using assms by (cases rule: restartNow_cases) (auto simp: budget_def)
  moreover have "fst ` set (loaded s') = fst ` set (loaded s) \<and> pending s' = pending s \<and> reports s' = reports s"
    using assms by (cases rule: restartNow_cases) (simp_all add: insert_absorb get_Some_key)
  ultimately show ?thesis by (simp add: work_def)
qed

lemma length_remove1_Suc: "x \<in> set xs \<Longrightarrow> Suc (length (remove1 x xs)) = length xs"
  by (induction xs) auto

lemma work_updates:
  "work (s\<lparr>reports := rs\<rparr>) + length (reports s) = work s + length rs"
  "work (s\<lparr>pending := ps\<rparr>) + 2 * length (pending s) = work s + 2 * length ps"
  by (simp_all add: work_def budget_def)

lemma own_work:
  assumes "sup_act cfg M a (s, w) (s', w')" and "own a"
  shows "work s' < work s"
  using assms(1)
proof (cases rule: sup_act_cases)
  case (fire m due f s1)
  let ?s = "s\<lparr>pending := remove1 (m, due) (pending s)\<rparr>"
  have "work ?s + 2 = work s"
    using work_updates(2) [of "remove1 (m, due) (pending s)" s] length_remove1_Suc [OF fire(3)] by simp
  moreover have "work s1 = work ?s" by (rule restartNow_work [OF fire(5)])
  moreover have "work (s1\<lparr>reports := m # reports s1\<rparr>) = Suc (work s1)"
    using work_updates(1) [of "m # reports s1" s1] by simp
  ultimately show ?thesis using fire(2) by (cases f) simp_all
next
  case (fail_report m)
  let ?s = "s\<lparr>reports := remove1 m (reports s)\<rparr>"
  have "work ?s < work s"
    using work_updates(1) [of "remove1 m (reports s)" s] length_remove1_Suc [OF fail_report(2)] by simp
  then show ?thesis using ReportFailure_work [OF fail_report(3)] by simp
next
  case (abandon p)
  then show ?thesis
    using work_updates(2) [of "remove1 p (pending s)" s] length_remove1_Suc [OF abandon(3)] by simp
qed (use assms(2) in \<open>simp_all add: own_def\<close>)

text \<open>The environment changes instances and the world, not the account.\<close>

lemma env_work:
  assumes "sup_act cfg M Env (s, w) (s', w')"
  shows "work s' = work s"
  using assms
proof (cases rule: sup_act_cases)
  case (internal n ms m)
  have "budget s' k = budget s k" for k using internal by (auto simp: budget_def)
  then show ?thesis using internal by (simp add: work_def insert_absorb get_Some_key)
qed simp_all

lemma own_run_work:
  assumes "sup_run cfg M E (s0, w0) as (s, w)" and "list_all (\<lambda>a. own a \<or> a = Env) as"
  shows "work s + length (filter own as) \<le> work s0"
  using assms
proof (induction "as" "(s, w)" arbitrary: s w rule: sup_run.induct)
  case none
  then show ?case by simp
next
  case (more "as" s w a s' w')
  have IH: "work s + length (filter own as) \<le> work s0" using more by simp
  have "own a \<or> a = Env" using more by simp
  then show ?case
  proof
    assume "own a"
    with own_work [OF more.hyps(3)] IH show ?thesis by simp
  next
    assume "a = Env"
    with env_work [of cfg M s w s' w'] more.hyps(3) IH show ?thesis by (simp add: own_def)
  qed
qed

text \<open>The supervisor's own steps are never stuck: a timer fires once it is due.\<close>

lemma sup_run_env:
  "sup_run cfg M any_env sw as (s, w) \<Longrightarrow> wnow w \<le> wnow w' \<Longrightarrow> sup_run cfg M any_env sw (as @ [Env]) (s, w')"
  by (rule sup_run.more [OF _ sup_act.outside]) auto

lemma own_enabled:
  assumes "pending s \<noteq> [] \<or> reports s \<noteq> []" and "\<And>p. p \<in> set (pending s) \<Longrightarrow> snd p \<le> wnow w"
  shows "\<exists>a s' w'. own a \<and> sup_act cfg M a (s, w) (s', w')"
proof (cases "reports s")
  case Nil
  then obtain m due where p: "(m, due) \<in> set (pending s)"
    using assms(1) by (metis list.set_intros(1) neq_Nil_conv surj_pair)
  obtain f s1 w1 where "restartNow cfg M m (s\<lparr>pending := remove1 (m, due) (pending s)\<rparr>) w = (f, s1, w1)"
    by (cases "restartNow cfg M m (s\<lparr>pending := remove1 (m, due) (pending s)\<rparr>) w")
  from sup_act.fire [OF p _ this] assms(2) [OF p] show ?thesis by (force simp: own_def)
next
  case (Cons m rs)
  obtain s1 w1 where "ReportFailure cfg m (s\<lparr>reports := remove1 m (reports s)\<rparr>) w = (s1, w1)" by fastforce
  from sup_act.fail_report [OF _ this] Cons show ?thesis by (force simp: own_def)
qed

lemma settles:
  fixes s0 :: "('m, 'x world_scheme) Supervisor"
  shows "sup_run cfg M any_env sw as (s0, w0) \<Longrightarrow> list_all (\<lambda>a. own a \<or> a = Env) as \<Longrightarrow>
    \<exists>as s w. sup_run cfg M any_env sw as (s, w) \<and> list_all (\<lambda>a. own a \<or> a = Env) as \<and>
      pending s = [] \<and> reports s = []"
proof (induction "work s0" arbitrary: s0 w0 "as" rule: less_induct)
  case less
  show ?case
  proof (cases "pending s0 = [] \<and> reports s0 = []")
    case True
    with less.prems show ?thesis by blast
  next
    case False
    define T where "T = Max (insert (wnow w0) (snd ` set (pending s0)))"
    have T: "wnow w0 \<le> T" "\<And>p. p \<in> set (pending s0) \<Longrightarrow> snd p \<le> T" by (simp_all add: T_def)
    have "\<exists>a s' w'. own a \<and> sup_act cfg M a (s0, w0\<lparr>wnow := T\<rparr>) (s', w')"
      by (rule own_enabled) (use False T in auto)
    then obtain a s' w' where a: "own a" "sup_act cfg M a (s0, w0\<lparr>wnow := T\<rparr>) (s', w')" by blast
    have "sup_run cfg M any_env sw (as @ [Env]) (s0, w0\<lparr>wnow := T\<rparr>)"
      by (rule sup_run_env [OF less.prems(1)]) (simp add: T(1))
    from sup_run.more [OF this a(2)] have "sup_run cfg M any_env sw ((as @ [Env]) @ [a]) (s', w')" by simp
    from less.hyps [OF own_work [OF a(2,1)] this] less.prems(2) a(1) show ?thesis by simp
  qed
qed

section \<open>Properties of restarts\<close>

text \<open>C2: Restarts are bounded in every run. Whatever the interleaving, the timers of a module that have
  fired and those still waiting are together at most \<open>maxRestart - 1\<close> for each call of \<open>Load\<close> with its name, also one that
  fails or finds it loaded, however many failures are reported.\<close>

theorem restarts_bounded:
  assumes "sup_run cfg M E (New M cfg fs, w0) as (s, w)"
  shows "count_list as (Firing n) + count_list (map fst (pending s)) n \<le>
         nat (maxRestart s - 1) * count_list as (Loading n)"
proof -
  have "potential (New M cfg fs) n = 0" by (simp add: potential_defs New_def)
  then show ?thesis using run_potential [OF assms, of n] by (simp add: potential_def waiting_def)
qed

text \<open>C15: A supervisor that is left alone stops restarting modules. Its own steps, firing timers,
  reporting failed restarts and abandoning timers, cannot go on forever; from a given state
  at most \<open>work s0\<close> of them happen, whatever the modules answer and the environment does in between; and
  it can always go on until no timer and no report is left.\<close>

theorem restarts_terminate:
  "wf {(sw', sw). \<exists>a. own a \<and> sup_act cfg M a sw sw'} \<and>
   (\<forall>as s w. sup_run cfg M any_env (s0, w0) as (s, w) \<longrightarrow> list_all (\<lambda>a. own a \<or> a = Env) as \<longrightarrow>
      length (filter own as) \<le> work s0) \<and>
   (\<exists>as s w. sup_run cfg M any_env (s0, w0) as (s, w) \<and> list_all (\<lambda>a. own a \<or> a = Env) as \<and>
      pending s = [] \<and> reports s = [])"
proof (intro conjI allI impI)
  have "{(sw', sw). \<exists>a. own a \<and> sup_act cfg M a sw sw'} \<subseteq> measure (work \<circ> fst)"
    using own_work by fastforce
  then show "wf {(sw', sw). \<exists>a. own a \<and> sup_act cfg M a sw sw'}" by (rule wf_subset [OF wf_measure])
  show "length (filter own as) \<le> work s0"
    if "sup_run cfg M any_env (s0, w0) as (s, w)" "list_all (\<lambda>a. own a \<or> a = Env) as" for "as" s w
    using own_run_work [OF that] by simp
  show "\<exists>as s w. sup_run cfg M any_env (s0, w0) as (s, w) \<and> list_all (\<lambda>a. own a \<or> a = Env) as \<and>
      pending s = [] \<and> reports s = []"
    by (rule settles [OF sup_run.none]) simp
qed

text \<open>A run of the example plugin with one failure and one restart.\<close>

definition sup2 :: "(world HelloModule, world) Supervisor \<times> world" where
  "sup2 = ReportFailure cfg0 ''hello'' sup1 (snd (snd (Load cfg0 helloModule ''hello'' sup0 world0)))"

lemma hello_restart_run:
  "\<exists>s w. sup_run cfg0 helloModule any_env (sup0, world0)
     [Loading ''hello'', Reporting ''hello'', Env, Firing ''hello''] (s, w) \<and> maxRestart s = 5"
proof -
  obtain w1 where 1: "Load cfg0 helloModule ''hello'' sup0 world0 = (None, sup1, w1)" using sup1_Load by blast
  from sup_run.more [OF sup_run.none sup_act.load [OF 1]]
  have r1: "sup_run cfg0 helloModule any_env (sup0, world0) [Loading ''hello''] (sup1, w1)" by simp
  obtain s2 w2 where 2: "ReportFailure cfg0 ''hello'' sup1 w1 = (s2, w2)" by fastforce
  from sup_run.more [OF r1 sup_act.report [OF 2]]
  have r2: "sup_run cfg0 helloModule any_env (sup0, world0) [Loading ''hello'', Reporting ''hello''] (s2, w2)" by simp
  obtain due where due: "(''hello'', due) \<in> set (pending s2)" and m: "maxRestart s2 = 5"
    using 2 by (cases rule: ReportFailure_cases) (auto simp: newState_def)
  let ?w = "w2\<lparr>wnow := max due (wnow w2)\<rparr>"
  have r3: "sup_run cfg0 helloModule any_env (sup0, world0) [Loading ''hello'', Reporting ''hello'', Env] (s2, ?w)"
    using sup_run_env [OF r2, of ?w] by simp
  obtain f s3 w3 where 3: "restartNow cfg0 helloModule ''hello''
      (s2\<lparr>pending := remove1 (''hello'', due) (pending s2)\<rparr>) ?w = (f, s3, w3)"
    using prod_cases3 by blast
  from sup_run.more [OF r3 sup_act.fire [OF due _ 3]]
  have "sup_run cfg0 helloModule any_env (sup0, world0)
      [Loading ''hello'', Reporting ''hello'', Env, Firing ''hello'']
      (if f then s3\<lparr>reports := ''hello'' # reports s3\<rparr> else s3, w3)" by simp
  moreover have "maxRestart (if f then s3\<lparr>reports := ''hello'' # reports s3\<rparr> else s3) = 5"
    using restartNow_potential [OF 3] m by simp
  ultimately show ?thesis by blast
qed

theorem restarts_bounded_witness:
  "\<exists>s w. sup_run cfg0 helloModule any_env (sup0, world0)
     [Loading ''hello'', Reporting ''hello'', Env, Firing ''hello''] (s, w) \<and>
     1 + count_list (map fst (pending s)) ''hello'' \<le> 4"
proof -
  obtain s w where r: "sup_run cfg0 helloModule any_env (sup0, world0)
      [Loading ''hello'', Reporting ''hello'', Env, Firing ''hello''] (s, w)" and m: "maxRestart s = 5"
    using hello_restart_run by blast
  from restarts_bounded [OF r [unfolded sup0_def], of "''hello''"] m r show ?thesis by auto
qed

theorem restarts_terminate_witness:
  "\<exists>as s w. sup_run cfg0 helloModule any_env sup2 as (s, w) \<and> list_all (\<lambda>a. own a \<or> a = Env) as \<and>
     length (filter own as) \<le> work (fst sup2) \<and> pending s = [] \<and> reports s = []"
  using restarts_terminate [of cfg0 helloModule "fst sup2" "snd sup2"] by fastforce

end
