(* ===== verification/Supervisor_Disk.thy ===== *)
theory Supervisor_Disk
  imports Supervisor_Runs
begin

text \<open>
  The state file in the course of a whole run. Modules, hosts and the environment are supposed to leave
  the file alone (\<open>leaves_alone\<close>, \<open>calm\<close>); the supervisor's own writes then make every directory state of the run show
  either the first file or a complete encoding of a state the supervisor was in, and as long as no call fails the file
  agrees with the supervisor from the boot on, after every step.
\<close>

section \<open>Who leaves the paths alone\<close>

definition same_at :: "path set \<Rightarrow> 'x world_scheme \<Rightarrow> 'x world_scheme \<Rightarrow> bool" where
  "same_at P w w' \<longleftrightarrow> (\<forall>q\<in>P. untouched q (wos w) (wos w'))"

lemma same_at_refl [simp]: "same_at P w w"
  by (simp add: same_at_def)

lemma same_at_trans: "same_at P w w' \<Longrightarrow> same_at P w' w'' \<Longrightarrow> same_at P w w''"
  unfolding same_at_def by (blast intro: untouched_trans)

definition quiet_host :: "path set \<Rightarrow> ('x world_scheme) HostServices option \<Rightarrow> bool" where
  "quiet_host P ho \<longleftrightarrow>
     (\<forall>h. ho = Some h \<longrightarrow>
        (\<forall>ev w. same_at P w (h_Publish h ev w)) \<and> (\<forall>f w. same_at P w (snd (h_FeatureEnabled h f w))))"

text \<open>The host factory, for the names \<open>N\<close>, and the modules built by the factories \<open>F\<close>. \<open>G\<close> are the instances a
  quiet host can lead to: those that initialising, starting and stopping give.\<close>

definition quiet_hosts :: "path set \<Rightarrow> ('x world_scheme) Config \<Rightarrow> string set \<Rightarrow> bool" where
  "quiet_hosts P cfg N \<longleftrightarrow>
     (\<forall>n\<in>N. \<forall>w. same_at P w (snd (c_Host cfg n w)) \<and> quiet_host P (fst (c_Host cfg n w)))"

definition quiet_modules ::
  "path set \<Rightarrow> ('m, 'x world_scheme) Module \<Rightarrow> ('m \<Rightarrow> bool) \<Rightarrow> 'm set \<Rightarrow> bool" where
  "quiet_modules P M G F \<longleftrightarrow>
     (\<forall>f\<in>F. \<forall>h w e m w'. quiet_host P h \<longrightarrow> m_Init M h f w = (e, m, w') \<longrightarrow> same_at P w w' \<and> G m) \<and>
     (\<forall>c m w e m' w'. G m \<longrightarrow> m_Start M c m w = (e, m', w') \<longrightarrow> same_at P w w' \<and> G m') \<and>
     (\<forall>m w e m' w'. G m \<longrightarrow> m_Stop M m w = (e, m', w') \<longrightarrow> same_at P w w' \<and> G m')"

definition leaves_alone ::
  "path set \<Rightarrow> ('x world_scheme) Config \<Rightarrow> ('m, 'x world_scheme) Module \<Rightarrow> ('m \<Rightarrow> bool) \<Rightarrow>
   (string, 'm) gomap \<Rightarrow> bool" where
  "leaves_alone P cfg M G reg \<longleftrightarrow>
     quiet_hosts P cfg (fst ` set reg) \<and> quiet_modules P M G (snd ` set reg)"

text \<open>The instances in use are good ones, with quiet hosts.\<close>

definition tame :: "path set \<Rightarrow> ('m \<Rightarrow> bool) \<Rightarrow> ('m, 'x world_scheme) Supervisor \<Rightarrow> bool" where
  "tame P G s \<longleftrightarrow>
     (\<forall>n ms. get (loaded s) n = Some ms \<longrightarrow>
        G (ms_instance ms) \<and> quiet_host P (ms_host ms) \<and> (n, ms_factory ms) \<in> set (modules s))"

definition calm ::
  "path set \<Rightarrow> ('m \<Rightarrow> bool) \<Rightarrow> ('m, 'x world_scheme) Supervisor \<times> 'x world_scheme \<Rightarrow>
   ('m, 'x world_scheme) Supervisor \<times> 'x world_scheme \<Rightarrow> bool" where
  "calm P G sw sw' \<longleftrightarrow>
     same_at P (snd sw) (snd sw') \<and> (\<forall>n ms. get (loaded (fst sw')) n = Some ms \<longrightarrow> G (ms_instance ms))"

lemma leaves_aloneD:
  assumes "leaves_alone P cfg M G reg"
  shows "n \<in> fst ` set reg \<Longrightarrow> c_Host cfg n w = (h, w1) \<Longrightarrow> same_at P w w1 \<and> quiet_host P h"
    and "f \<in> snd ` set reg \<Longrightarrow> quiet_host P h \<Longrightarrow> m_Init M h f w = (e, m, w') \<Longrightarrow> same_at P w w' \<and> G m"
    and "G m \<Longrightarrow> m_Start M c m w = (e, m', w') \<Longrightarrow> same_at P w w' \<and> G m'"
    and "G m \<Longrightarrow> m_Stop M m w = (e, m', w') \<Longrightarrow> same_at P w w' \<and> G m'"
  using assms unfolding leaves_alone_def quiet_hosts_def quiet_modules_def by (metis fst_conv snd_conv)+

lemma publish_same_at:
  assumes "leaves_alone P cfg M G reg" "tame P G s" "name \<in> fst ` set reg"
  shows "same_at P w (publishEvent cfg s name t msg kvs w)"
proof -
  have pub: "same_at P w1 (h_Publish h ev w1)" if "quiet_host P (Some h)" for h ev w1
    using that by (simp add: quiet_host_def)
  show ?thesis
  proof (cases "get (loaded s) name")
    case None
    obtain h w1 where h: "c_Host cfg name w = (h, w1)" by fastforce
    from leaves_aloneD(1) [OF assms(1,3) h] pub None h show ?thesis
      by (auto simp: publishEvent_def split: option.split intro: same_at_trans)
  next
    case (Some ms)
    with assms(2) have "quiet_host P (ms_host ms)" by (simp add: tame_def)
    with pub Some show ?thesis by (auto simp: publishEvent_def split: option.split)
  qed
qed

lemma licenseGate_same_at:
  assumes "quiet_host P host" and "licenseGate host feature name w = (r, w')"
  shows "same_at P w w'"
proof (cases host)
  case None
  with assms(2) show ?thesis by (auto simp: licenseGate_def split: if_splits)
next
  case (Some h)
  with assms(1) have "same_at P w (snd (h_FeatureEnabled h feature w))" by (simp add: quiet_host_def)
  with Some assms(2) show ?thesis by (auto simp: licenseGate_def split: if_splits prod.splits)
qed

section \<open>What each operation does to the file\<close>

text \<open>An operation either leaves the file and the enabled list alone, or ends with a save.\<close>

definition keeps_or_saves ::
  "path set \<Rightarrow> ('x world_scheme) Config \<Rightarrow> ('m, 'x world_scheme) Supervisor \<Rightarrow> 'x world_scheme \<Rightarrow>
   ('m, 'x world_scheme) Supervisor \<Rightarrow> 'x world_scheme \<Rightarrow> bool" where
  "keeps_or_saves P cfg s w s' w' \<longleftrightarrow>
     (same_at P w w' \<and> persisted s' = persisted s) \<or>
     (\<exists>w1. same_at P w w1 \<and> w' = savePersisted cfg s' w1)"

lemma tame_same_loaded: "loaded s' = loaded s \<Longrightarrow> modules s' = modules s \<Longrightarrow> tame P G s' = tame P G s"
  by (simp add: tame_def)

lemma tame_cancel [simp]: "tame P G (cancel c s) = tame P G s"
  by (simp add: cancel_def tame_def)

lemma tame_reports [simp]: "tame P G (s\<lparr>reports := rs\<rparr>) = tame P G s"
  by (simp add: tame_def)

lemma tame_pending [simp]: "tame P G (s\<lparr>pending := ps\<rparr>) = tame P G s"
  by (simp add: tame_def)

lemma tame_ctx [simp]: "tame P G (s\<lparr>nextCtx := c\<rparr>) = tame P G s"
  by (simp add: tame_def)

text \<open>The worlds a load passes through, phase by phase.\<close>

lemma Load_phases [consumes 1, case_names nothing unlicensed init_failed start_failed started]:
  assumes "Load cfg M name s w = (r, s', w')"
  obtains "s' = s" "w' = w"
  | f host w0 e where "get (modules s) name = Some f" "c_Host cfg name w = (host, w0)" "s' = s"
      "licenseGate host (mi_LicenseFeature (m_Info M f)) name w0 = (Some e, w')"
  | f host w0 w1 e m1 w3 where "get (modules s) name = Some f" "c_Host cfg name w = (host, w0)"
      "licenseGate host (mi_LicenseFeature (m_Info M f)) name w0 = (None, w1)"
      "m_Init M host f (publishEvent cfg s name EventStateChanged StateInitializing [] w1) = (Some e, m1, w3)"
      "s' = s" "w' = publishEvent cfg s name EventError '''' [(''error'', Error e)] w3"
  | f host w0 w1 m1 w3 e m2 w5 where "get (modules s) name = Some f" "c_Host cfg name w = (host, w0)"
      "licenseGate host (mi_LicenseFeature (m_Info M f)) name w0 = (None, w1)"
      "m_Init M host f (publishEvent cfg s name EventStateChanged StateInitializing [] w1) = (None, m1, w3)"
      "m_Start M (nextCtx s) m1 (publishEvent cfg (s\<lparr>nextCtx := Suc (nextCtx s)\<rparr>) name EventStateChanged StateRunning [] w3) =
         (Some e, m2, w5)"
      "s' = cancel (nextCtx s) (s\<lparr>nextCtx := Suc (nextCtx s)\<rparr>)"
      "w' = publishEvent cfg s' name EventStateChanged StateFailed []
              (publishEvent cfg s' name EventError '''' [(''error'', Error e)] w5)"
  | f host w0 w1 m1 w3 m2 w5 where "get (modules s) name = Some f" "c_Host cfg name w = (host, w0)"
      "licenseGate host (mi_LicenseFeature (m_Info M f)) name w0 = (None, w1)"
      "m_Init M host f (publishEvent cfg s name EventStateChanged StateInitializing [] w1) = (None, m1, w3)"
      "m_Start M (nextCtx s) m1 (publishEvent cfg (s\<lparr>nextCtx := Suc (nextCtx s)\<rparr>) name EventStateChanged StateRunning [] w3) =
         (None, m2, w5)"
      "s' = s\<lparr>nextCtx := Suc (nextCtx s), loaded := put name (newState host f m2 (nextCtx s)) (loaded s),
              persisted := addToEnabled name (persisted s)\<rparr>"
      "w' = savePersisted cfg s' w5"
proof (cases "get (loaded s) name = None \<and> get (modules s) name \<noteq> None")
  case False
  then have "s' = s \<and> w' = w" using assms by (auto simp: Load_def split: option.splits if_splits)
  then show thesis using that(1) by blast
next
  case True
  then obtain f where f: "get (modules s) name = Some f" and nl: "get (loaded s) name = None" by auto
  obtain host w0 where h: "c_Host cfg name w = (host, w0)" by fastforce
  obtain g w1 where lg: "licenseGate host (mi_LicenseFeature (m_Info M f)) name w0 = (g, w1)" by fastforce
  let ?w2 = "publishEvent cfg s name EventStateChanged StateInitializing [] w1"
  obtain e3 m1 w3 where i: "m_Init M host f ?w2 = (e3, m1, w3)" by (cases "m_Init M host f ?w2")
  let ?w4 = "publishEvent cfg (s\<lparr>nextCtx := Suc (nextCtx s)\<rparr>) name EventStateChanged StateRunning [] w3"
  obtain e5 m2 w5 where st: "m_Start M (nextCtx s) m1 ?w4 = (e5, m2, w5)" by (cases "m_Start M (nextCtx s) m1 ?w4")
  note L = assms [unfolded Load_def]
  show thesis
  proof (cases g)
    case (Some e)
    with L show thesis by (intro that(2) [OF f h, of e]) (simp_all add: nl f h lg)
  next
    case g: None
    show thesis
    proof (cases e3)
      case (Some e)
      with L show thesis by (intro that(3) [OF f h lg [unfolded g] i [unfolded Some]]) (auto simp: nl f h lg g i)
    next
      case e3: None
      note run = f h lg [unfolded g] i [unfolded e3]
      show thesis
      proof (cases e5)
        case (Some e)
        with L show thesis by (intro that(4) [OF run st [unfolded Some]]) (auto simp: nl f h lg g i e3 st Let_def)
      next
        case None
        with L show thesis
          by (intro that(5) [OF run st [unfolded None]]) (auto simp: nl f h lg g i e3 st Let_def newState_def)
      qed
    qed
  qed
qed

lemma Load_disk:
  assumes q: "leaves_alone P cfg M G (modules s)" and t: "tame P G s"
    and l: "Load cfg M name s w = (r, s', w')"
  shows "keeps_or_saves P cfg s w s' w' \<and> tame P G s' \<and> modules s' = modules s"
proof -
  have reg: "name \<in> fst ` set (modules s)" "f \<in> snd ` set (modules s)" "(name, f) \<in> set (modules s)"
    if "get (modules s) name = Some f" for f
    using map_of_SomeD [OF that] by force+
  have pub: "same_at P v (publishEvent cfg x name ty msg kvs v)"
    if "get (modules s) name = Some f" "tame P G x" for f x ty msg kvs v
    by (rule publish_same_at [OF q that(2) reg(1) [OF that(1)]])
  have init: "same_at P w w3 \<and> G m1 \<and> quiet_host P host"
    if "get (modules s) name = Some f" "c_Host cfg name w = (host, w0)"
      "licenseGate host (mi_LicenseFeature (m_Info M f)) name w0 = (None, w1)"
      "m_Init M host f (publishEvent cfg s name EventStateChanged StateInitializing [] w1) = (e, m1, w3)"
    for f host w0 w1 e m1 w3
    using leaves_aloneD(1) [OF q reg(1) [OF that(1)] that(2)] licenseGate_same_at [OF _ that(3), of P]
      pub [OF that(1) t, of w1] leaves_aloneD(2) [OF q reg(2) [OF that(1)] _ that(4)]
    by (meson same_at_trans)
  have start: "same_at P w w5 \<and> G m2"
    if "get (modules s) name = Some f" "same_at P w w3" "G m1"
      "m_Start M c m1 (publishEvent cfg (s\<lparr>nextCtx := c'\<rparr>) name ty msg kvs w3) = (e, m2, w5)"
    for f w3 m1 c c' ty msg kvs e m2 w5
    using pub [OF that(1), of "s\<lparr>nextCtx := c'\<rparr>" w3] leaves_aloneD(3) [OF q that(3,4)] that(2) t
    by (simp, meson same_at_trans)
  from l show ?thesis
  proof (cases rule: Load_phases)
    case nothing
    with t show ?thesis by (simp add: keeps_or_saves_def)
  next
    case (unlicensed f host w0 e)
    have "same_at P w w'"
      using leaves_aloneD(1) [OF q reg(1) [OF unlicensed(1)] unlicensed(2)]
        licenseGate_same_at [OF _ unlicensed(4), of P] by (meson same_at_trans)
    with unlicensed t show ?thesis by (simp add: keeps_or_saves_def)
  next
    case (init_failed f host w0 w1 e m1 w3)
    have "same_at P w w'" unfolding init_failed(6)
      using init [OF init_failed(1-4)] pub [OF init_failed(1) t] by (meson same_at_trans)
    with init_failed t show ?thesis by (simp add: keeps_or_saves_def)
  next
    case (start_failed f host w0 w1 m1 w3 e m2 w5)
    have t': "tame P G s'" unfolding start_failed(6) using t by simp
    have "same_at P w w5"
      using start [OF start_failed(1) _ _ start_failed(5)] init [OF start_failed(1-4)] by blast
    then have "same_at P w w'" unfolding start_failed(7)
      using pub [OF start_failed(1) t'] by (meson same_at_trans)
    moreover have "persisted s' = persisted s" "modules s' = modules s" using start_failed(6) by (simp_all add: cancel_def)
    ultimately show ?thesis using t' by (simp add: keeps_or_saves_def)
  next
    case (started f host w0 w1 m1 w3 m2 w5)
    have "same_at P w w5 \<and> G m2 \<and> quiet_host P host"
      using start [OF started(1) _ _ started(5)] init [OF started(1-4)] by blast
    with started t reg(3) [OF started(1)] show ?thesis
      by (auto simp: keeps_or_saves_def tame_def newState_def)
  qed
qed

lemma tameD:
  "tame P G s \<Longrightarrow> get (loaded s) n = Some ms \<Longrightarrow>
   G (ms_instance ms) \<and> quiet_host P (ms_host ms) \<and> n \<in> fst ` set (modules s) \<and> ms_factory ms \<in> snd ` set (modules s)"
  unfolding tame_def by force

lemma stopLocked_disk:
  assumes q: "leaves_alone P cfg M G (modules s)" and t: "tame P G s"
    and l: "stopLocked cfg M name s w = (s', w')"
  shows "same_at P w w' \<and> tame P G s' \<and> modules s' = modules s \<and> persisted s' = persisted s"
proof (cases "get (loaded s) name")
  case None
  with l t show ?thesis by (simp add: stopLocked_def)
next
  case (Some ms)
  note ms = tameD [OF t Some]
  note pub = publish_same_at [OF q _ ms [THEN conjunct2, THEN conjunct2, THEN conjunct1]]
  let ?w1 = "publishEvent cfg s name EventStateChanged StateStopping [] w"
  obtain e m1 w2 where st: "m_Stop M (ms_instance ms) ?w1 = (e, m1, w2)" by (cases "m_Stop M (ms_instance ms) ?w1")
  have "same_at P w w2" using pub [OF t] leaves_aloneD(4) [OF q _ st] ms by (meson same_at_trans)
  moreover have "same_at P w2 (publishEvent cfg (cancel (ms_ctx ms) s) name EventStateChanged StateStopped [] w2)"
    by (rule pub) (simp add: t)
  ultimately have "same_at P w w'" using l Some st by (auto simp: stopLocked_def Let_def intro: same_at_trans)
  moreover have "s' = s\<lparr>cancelled := ms_ctx ms # cancelled s, loaded := del name (loaded s)\<rparr>"
    using l Some by (auto elim: stopLocked_cases)
  ultimately show ?thesis using t by (simp add: tame_def)
qed

lemma stopAll_disk:
  assumes "leaves_alone P cfg M G (modules s)" and "tame P G s" and "stopAll cfg M names s w = (s', w')"
  shows "same_at P w w' \<and> tame P G s' \<and> modules s' = modules s \<and> persisted s' = persisted s"
  using assms
proof (induction names arbitrary: s w)
  case Nil
  then show ?case by simp
next
  case (Cons n names)
  obtain s1 w1 where 1: "stopLocked cfg M n s w = (s1, w1)" by fastforce
  note d = stopLocked_disk [OF Cons.prems(1,2) 1]
  have "same_at P w1 w' \<and> tame P G s' \<and> modules s' = modules s1 \<and> persisted s' = persisted s1"
    by (rule Cons.IH) (use d Cons.prems(1,3) 1 in simp_all)
  with d show ?case by (auto intro: same_at_trans)
qed

lemma Unload_disk:
  assumes q: "leaves_alone P cfg M G (modules s)" and t: "tame P G s"
    and l: "Unload cfg M name s w = (s', w')"
  shows "keeps_or_saves P cfg s w s' w' \<and> tame P G s' \<and> modules s' = modules s"
proof (cases "get (loaded s) name")
  case None
  with l t show ?thesis by (simp add: Unload_def keeps_or_saves_def)
next
  case (Some ms)
  obtain s1 w1 where 1: "stopLocked cfg M name s w = (s1, w1)" by fastforce
  note d = stopLocked_disk [OF q t 1]
  have "s' = s1\<lparr>persisted := removeFromEnabled name (persisted s1)\<rparr>" "w' = savePersisted cfg s' w1"
    using l Some 1 by (auto simp: Unload_def Let_def)
  with d show ?thesis by (auto simp: keeps_or_saves_def tame_def)
qed

lemma ReportFailure_disk:
  assumes q: "leaves_alone P cfg M G (modules s)" and t: "tame P G s"
    and l: "ReportFailure cfg name s w = (s', w')"
  shows "same_at P w w' \<and> tame P G s' \<and> modules s' = modules s \<and> persisted s' = persisted s"
proof -
  have s': "tame P G s' \<and> modules s' = modules s \<and> persisted s' = persisted s"
    using l t by (cases rule: ReportFailure_cases) (auto simp: tame_def)
  have "same_at P w w'"
  proof (cases "get (loaded s) name")
    case None
    with l show ?thesis by (simp add: ReportFailure_def)
  next
    case (Some ms)
    have pub: "same_at P v (publishEvent cfg s' name ty msg kvs v)" for ty msg kvs v
      by (rule publish_same_at [OF q conjunct1 [OF s']]) (use tameD [OF t Some] in simp)
    have pub2: "same_at P v (publishEvent cfg s' name ty msg kvs (publishEvent cfg s' name ty' msg' kvs' v))"
      for ty msg kvs ty' msg' kvs' v by (rule same_at_trans [OF pub pub])
    have dr: "same_at P w (publishEvent cfg s' name ty msg kvs (snd (draw w)))" for ty msg kvs
      using pub [of "snd (draw w)"] by (simp add: same_at_def draw_def)
    from l Some pub pub2 dr show ?thesis
      by (auto simp: ReportFailure_def Let_def split: if_splits prod.splits)
  qed
  with s' show ?thesis by simp
qed

lemma restartNow_disk:
  assumes q: "leaves_alone P cfg M G (modules s)" and t: "tame P G s"
    and l: "restartNow cfg M name s w = (f, s', w')"
  shows "same_at P w w' \<and> tame P G s' \<and> modules s' = modules s \<and> persisted s' = persisted s"
proof (cases "get (loaded s) name")
  case None
  with l t show ?thesis by (simp add: restartNow_def)
next
  case (Some ms)
  note ms = tameD [OF t Some]
  obtain e0 m0 w1 where st: "m_Stop M (ms_instance ms) w = (e0, m0, w1)" by (cases "m_Stop M (ms_instance ms) w")
  have w1: "same_at P w w1" and G0: "G m0" using leaves_aloneD(4) [OF q _ st] ms by blast+
  define s1 where "s1 = cancel (ms_ctx ms) (s\<lparr>loaded := put name (ms\<lparr>ms_instance := m0\<rparr>) (loaded s)\<rparr>)"
  define s2 where "s2 = s1\<lparr>nextCtx := Suc (nextCtx s1)\<rparr>"
  have s2: "modules s2 = modules s" "loaded s2 = put name (ms\<lparr>ms_instance := m0\<rparr>) (loaded s)"
    by (simp_all add: s1_def s2_def cancel_def)
  have t2: "tame P G s2" using t G0 Some by (auto simp: tame_def s2)
  have pub: "same_at P v (publishEvent cfg x name ty msg kvs v)" if "tame P G x" for x ty msg kvs v
    by (rule publish_same_at [OF q that]) (use ms in blast)
  define w2 where "w2 = publishEvent cfg s2 name EventStateChanged StateInitializing [] w1"
  have w2: "same_at P w w2" using w1 pub [OF t2] unfolding w2_def by (meson same_at_trans)
  obtain e1 m1 w3 where i: "m_Init M (ms_host ms) (ms_factory ms) w2 = (e1, m1, w3)"
    by (cases "m_Init M (ms_host ms) (ms_factory ms) w2")
  have w3: "same_at P w w3" and G1: "G m1" using leaves_aloneD(2) [OF q _ _ i] ms w2 by (meson same_at_trans)+
  define w4 where "w4 = publishEvent cfg s2 name EventStateChanged StateRunning [] w3"
  have w4: "same_at P w w4" using w3 pub [OF t2] unfolding w4_def by (meson same_at_trans)
  obtain e2 m2 w5 where r: "m_Start M (nextCtx s1) m1 w4 = (e2, m2, w5)" by (cases "m_Start M (nextCtx s1) m1 w4")
  have w5: "same_at P w w5" and G2: "G m2" using leaves_aloneD(3) [OF q G1 r] w4 by (meson same_at_trans)+
  have fin: "same_at P w (publishEvent cfg (cancel c s2) name ty msg kvs v)" if "same_at P w v" for c ty msg kvs v
    using that pub [of "cancel c s2" v] t2 by (simp, meson same_at_trans)
  note folds = Some st Let_def s1_def [symmetric] s2_def [symmetric] w2_def [symmetric] i w4_def [symmetric] r
  have "same_at P w w'" using l fin w3 w5 unfolding restartNow_def by (auto simp: folds split: option.splits)
  moreover have "s' = cancel (nextCtx s1) s2 \<or>
      s' = s2\<lparr>loaded := put name (ms\<lparr>ms_instance := m2, ms_state := StateRunning, ms_ctx := nextCtx s1\<rparr>) (loaded s2)\<rparr>"
    using l unfolding restartNow_def by (auto simp: folds split: option.splits)
  then have "tame P G s'"
  proof
    assume "s' = cancel (nextCtx s1) s2"
    then show ?thesis using t2 by simp
  qed (use t Some G2 s2 in \<open>auto simp: tame_def\<close>)
  moreover have "modules s' = modules s \<and> persisted s' = persisted s"
    using l by (cases rule: restartNow_cases) simp_all
  ultimately show ?thesis by simp
qed

section \<open>Steps and runs\<close>

lemma act_disk:
  assumes q: "leaves_alone P cfg M G (modules s)" and t: "tame P G s"
    and a: "sup_act cfg M a (s, w) (s', w')" and e: "a = Env \<longrightarrow> calm P G (s, w) (s', w')"
  shows "modules s' = modules s \<and> tame P G s' \<and>
         (if a = Booting then w' = w \<and> LoadState (c_StatePath cfg) (wos w) = Inr (persisted s')
          else keeps_or_saves P cfg s w s' w')"
  using a
proof (cases rule: sup_act_cases)
  case (load name r)
  then show ?thesis using Load_disk [OF q t load(2)] by simp
next
  case (unload name)
  then show ?thesis using Unload_disk [OF q t unload(2)] by simp
next
  case boot
  then show ?thesis using t by (auto simp: loadPersistedState_def tame_def split: sum.splits)
next
  case (report name)
  then show ?thesis using ReportFailure_disk [OF q t report(2)] by (simp add: keeps_or_saves_def)
next
  case (fire name due f s1)
  let ?s = "s\<lparr>pending := remove1 (name, due) (pending s)\<rparr>"
  have "same_at P w w' \<and> tame P G s1 \<and> modules s1 = modules s \<and> persisted s1 = persisted s"
    using restartNow_disk [OF _ _ fire(5)] q t by simp
  with fire show ?thesis by (simp add: keeps_or_saves_def)
next
  case (fail_report name)
  then show ?thesis using ReportFailure_disk [OF _ _ fail_report(3)] q t by (simp add: keeps_or_saves_def)
next
  case stop_all
  then show ?thesis using stopAll_disk [OF q t stop_all(2)] by (simp add: keeps_or_saves_def)
next
  case (internal n ms m)
  then have "tame P G s'" using t e by (auto simp: tame_def calm_def)
  then show ?thesis using internal e by (simp add: keeps_or_saves_def calm_def)
qed (use t e in \<open>auto simp: keeps_or_saves_def calm_def lifeStop_def tame_def\<close>)

text \<open>What the directory states of a step show at the path of the state file.\<close>

definition shows_only :: "path \<Rightarrow> os \<Rightarrow> os \<Rightarrow> (node option \<Rightarrow> bool) \<Rightarrow> bool" where
  "shows_only p s s' P \<longleftrightarrow>
     getuid s' = getuid s \<and> P (node_at s' p) \<and> (\<exists>ts. trace s' = trace s @ ts \<and> (\<forall>t\<in>set ts. P (get t (Clean p))))"

lemma shows_only_trans:
  "shows_only p s s' P \<Longrightarrow> shows_only p s' s'' P \<Longrightarrow> shows_only p s s'' P"
  unfolding shows_only_def by (metis Un_iff append.assoc set_append)

lemma shows_only_mono: "shows_only p s s' P \<Longrightarrow> (\<And>n. P n \<Longrightarrow> Q n) \<Longrightarrow> shows_only p s s' Q"
  unfolding shows_only_def by blast

lemma keeps_or_saves_shows:
  assumes "keeps_or_saves {p} cfg s w s' w'" and "p = c_StatePath cfg" "statePathOk p"
  shows "shows_only p (wos w) (wos w')
    (\<lambda>n. n = node_at (wos w) p \<or> n = Some (File (encodeState (persisted s')) mode600 (getuid (wos w))))"
  using assms(1) unfolding keeps_or_saves_def
proof
  assume "same_at {p} w w' \<and> persisted s' = persisted s"
  then show ?thesis by (auto simp: same_at_def untouched_def shows_only_def)
next
  assume "\<exists>w1. same_at {p} w w1 \<and> w' = savePersisted cfg s' w1"
  then obtain w1 where u: "same_at {p} w w1" and w': "w' = savePersisted cfg s' w1" by blast
  obtain r o' where sv: "Save (persisted s') p (wos w1) = (r, o')" by fastforce
  have o': "wos w' = o'" using w' sv assms(2) by (simp add: savePersisted_def)
  from Save_steps [OF assms(3) sv] have "shows_only p (wos w1) o'
      (\<lambda>n. n = node_at (wos w1) p \<or> n = Some (File (encodeState (persisted s')) mode600 (getuid (wos w1))))"
    using saved.crash_safe [OF assms(3) sv]
    by (auto simp: shows_only_def untouched_def replaced_def split: option.splits)
  moreover have "shows_only p (wos w) (wos w1) (\<lambda>n. n = node_at (wos w) p)"
    and "node_at (wos w1) p = node_at (wos w) p" "getuid (wos w1) = getuid (wos w)"
    using u by (auto simp: same_at_def untouched_def shows_only_def)
  ultimately show ?thesis unfolding o' by (auto intro: shows_only_trans shows_only_mono)
qed

text \<open>A complete state file: the encoding of a state that the supervisor had after some part of the run.\<close>

definition a_state_of ::
  "('x world_scheme) Config \<Rightarrow> ('m, 'x world_scheme) Module \<Rightarrow>
   (('m, 'x world_scheme) Supervisor \<times> 'x world_scheme \<Rightarrow> ('m, 'x world_scheme) Supervisor \<times> 'x world_scheme \<Rightarrow> bool) \<Rightarrow>
   ('m, 'x world_scheme) Supervisor \<times> 'x world_scheme \<Rightarrow> act list \<Rightarrow> node option \<Rightarrow> bool" where
  "a_state_of cfg M E sw as n \<longleftrightarrow>
     (\<exists>as1 as2 s1 w1. as = as1 @ as2 \<and> sup_run cfg M E sw as1 (s1, w1) \<and>
        n = Some (File (encodeState (persisted s1)) mode600 (getuid (wos (snd sw)))))"

lemma a_state_of_more: "a_state_of cfg M E sw as n \<Longrightarrow> a_state_of cfg M E sw (as @ bs) n"
  unfolding a_state_of_def by (metis append.assoc)

lemma run_disk:
  assumes "sup_run cfg M (calm {p} G) (s0, w0) as (s, w)" and "p = c_StatePath cfg" "statePathOk p"
    and "leaves_alone {p} cfg M G (modules s0)" "tame {p} G s0"
  shows "modules s = modules s0 \<and> tame {p} G s \<and>
         shows_only p (wos w0) (wos w) (\<lambda>n. n = node_at (wos w0) p \<or> a_state_of cfg M (calm {p} G) (s0, w0) as n)"
  using assms(1)
proof (induction "as" "(s, w)" arbitrary: s w rule: sup_run.induct)
  case none
  then show ?case using assms(5) by (simp add: shows_only_def)
next
  case (more "as" s w a s' w')
  let ?P = "\<lambda>as n. n = node_at (wos w0) p \<or> a_state_of cfg M (calm {p} G) (s0, w0) as n"
  have IH: "modules s = modules s0" "tame {p} G s" "shows_only p (wos w0) (wos w) (?P as)"
    using more.hyps(2) by blast+
  have st: "modules s' = modules s \<and> tame {p} G s' \<and>
      (if a = Booting then w' = w \<and> LoadState (c_StatePath cfg) (wos w) = Inr (persisted s')
       else keeps_or_saves {p} cfg s w s' w')"
    by (rule act_disk [OF _ IH(2) more.hyps(3,4)]) (simp add: IH(1) assms(4))
  have new: "a_state_of cfg M (calm {p} G) (s0, w0) (as @ [a])
      (Some (File (encodeState (persisted s')) mode600 (getuid (wos w0))))"
    using sup_run.more [OF more.hyps(1,3,4)] unfolding a_state_of_def by (metis append_Nil2 snd_conv)
  have old: "shows_only p (wos w0) (wos w) (?P (as @ [a]))"
    by (rule shows_only_mono [OF IH(3)]) (auto intro: a_state_of_more)
  have "shows_only p (wos w) (wos w') (?P (as @ [a]))"
  proof (cases "a = Booting")
    case True
    with st old show ?thesis by (simp add: shows_only_def)
  next
    case False
    with st have "keeps_or_saves {p} cfg s w s' w'" by simp
    from keeps_or_saves_shows [OF this assms(2,3)] new old show ?thesis
      by (elim shows_only_mono) (auto simp: shows_only_def)
  qed
  with old st IH(1) show ?case by (auto intro: shows_only_trans)
qed

section \<open>The file agrees with the supervisor\<close>

text \<open>A directory in which saving works: the parents are there, no temporary file is left over, nothing fails.\<close>

definition temp_path :: "path \<Rightarrow> nat \<Rightarrow> path" where
  "temp_path p n = tempName (Dir p) ''.state-tmp-'' n"

definition save_ready :: "path \<Rightarrow> os \<Rightarrow> bool" where
  "save_ready p s \<longleftrightarrow>
     (\<forall>c. faults s c = None) \<and> list_all (\<lambda>a. isDirectory s a \<and> \<not> isFile s a) (ancestors (Dir p)) \<and>
     isDirectory s (Dir p) \<and> \<not> isDirectory s p \<and> (\<forall>n. node_at s (temp_path p n) = None)"

text \<open>The paths a save depends on.\<close>

definition save_paths :: "path \<Rightarrow> path set" where
  "save_paths p = {p, Dir p} \<union> set (ancestors (Dir p)) \<union> range (temp_path p)"

lemma isDirectory_cong: "node_at s' q = node_at s q \<Longrightarrow> isDirectory s' q = isDirectory s q \<and> isFile s' q = isFile s q"
  by (simp add: isDirectory_def isFile_def)

lemma save_ready_untouched:
  assumes "save_ready p s" and "\<forall>q\<in>save_paths p. untouched q s s'"
  shows "save_ready p s'"
proof -
  have u: "node_at s' q = node_at s q" "faults s' = faults s" if "q \<in> save_paths p" for q
    using assms(2) that by (auto simp: untouched_def)
  have p: "p \<in> save_paths p" "Dir p \<in> save_paths p" "temp_path p n \<in> save_paths p" for n
    by (simp_all add: save_paths_def)
  have i: "isDirectory s' q = isDirectory s q \<and> isFile s' q = isFile s q" if "q \<in> save_paths p" for q
    using u(1) [OF that] by (rule isDirectory_cong)
  note r = assms(1) [unfolded save_ready_def]
  have "\<forall>a\<in>set (ancestors (Dir p)). isDirectory s' a \<and> \<not> isFile s' a"
  proof
    fix a assume "a \<in> set (ancestors (Dir p))"
    then show "isDirectory s' a \<and> \<not> isFile s' a" using i [of a] r by (auto simp: list_all_iff save_paths_def)
  qed
  moreover have "isDirectory s' (Dir p)" "\<not> isDirectory s' p" using i p(1,2) r by blast+
  moreover have "\<forall>n. node_at s' (temp_path p n) = None" "\<forall>c. faults s' c = None"
    using u(1) [OF p(3)] u(2) [OF p(1)] r by simp_all
  ultimately show ?thesis unfolding save_ready_def list_all_iff by blast
qed

lemma save_ready_Save:
  assumes p: "statePathOk p" and r: "save_ready p s"
  shows "\<exists>s'. Save ps p s = (None, s') \<and> save_ready p s'"
proof -
  have "\<exists>s'. Save ps p s = (None, s') \<and> (\<forall>q. Clean q \<noteq> Clean p \<longrightarrow> node_at s' q = node_at s q)"
    by (rule Save_succeeds [OF p]) (use r in \<open>auto simp: save_ready_def temp_path_def\<close>)
  then obtain s' where s': "Save ps p s = (None, s')" and o: "\<And>q. Clean q \<noteq> Clean p \<Longrightarrow> node_at s' q = node_at s q" by blast
  have "replaced p (encodeState ps) s s'" using Save_steps [OF p s'] by simp
  then have n: "node_at s' p = Some (File (encodeState ps) mode600 (getuid s))" and f: "faults s' = faults s"
    by (simp_all add: replaced_def)
  have np: "Clean p \<noteq> ''/'' \<and> Clean p \<noteq> ''.''" using r by (auto simp: save_ready_def isDirectory_def)
  have d: "Clean (Dir p) \<noteq> Clean p"
  proof
    assume e: "Clean (Dir p) = Clean p"
    have "isDirectory s p = isDirectory s (Dir p)" using e by (simp add: isDirectory_def node_at_def)
    with r show False unfolding save_ready_def by blast
  qed
  have "\<forall>a\<in>set (ancestors (Dir p)). isDirectory s' a \<and> \<not> isFile s' a"
  proof
    fix a assume a: "a \<in> set (ancestors (Dir p))"
    then have "node_at s' a = node_at s a" using parents_differ [OF p] by (intro o) auto
    from isDirectory_cong [OF this] a r show "isDirectory s' a \<and> \<not> isFile s' a"
      by (auto simp: save_ready_def list_all_iff)
  qed
  moreover have "isDirectory s' (Dir p)" using isDirectory_cong [OF o [OF d]] r by (simp add: save_ready_def)
  moreover have "\<not> isDirectory s' p" using np n by (simp add: isDirectory_def)
  moreover have "\<forall>n. node_at s' (temp_path p n) = None"
    using o temp_differs [OF p] r by (metis save_ready_def temp_path_def)
  moreover have "\<forall>c. faults s' c = None" using f r by (simp add: save_ready_def)
  ultimately show ?thesis using s' unfolding save_ready_def list_all_iff by blast
qed

lemma act_enabled:
  assumes "sup_act cfg M a (s, w) (s', w')" and "a \<noteq> Booting"
  shows "set (enabledList (persisted s')) \<subseteq> set (enabledList (persisted s)) \<union> fst ` set (modules s)"
  using assms(1)
proof (cases rule: sup_act_cases)
  case (load n r)
  from load(2) show ?thesis
    by (cases rule: Load_cases) (auto simp: enabledList_add cancel_def dest: get_Some_key)
next
  case (unload n)
  from unload(2) show ?thesis by (cases rule: Unload_cases) (auto simp: enabledList_remove)
next
  case (report n)
  from report(2) show ?thesis by (cases rule: ReportFailure_cases) auto
next
  case (fire n due f s1)
  have "persisted s1 = persisted s" using fire(5) by (cases rule: restartNow_cases) auto
  with fire(2) show ?thesis by simp
next
  case (fail_report n)
  from fail_report(3) show ?thesis by (cases rule: ReportFailure_cases) auto
next
  case stop_all
  have "stopAll cfg M ns x v = (x', v') \<Longrightarrow> persisted x' = persisted x" for ns x v x' v'
    by (induction ns arbitrary: x v) (auto split: prod.splits elim!: stopLocked_cases)
  with stop_all show ?thesis by fastforce
qed (use assms(2) in \<open>auto simp: lifeStop_def\<close>)

definition in_sync :: "path \<Rightarrow> ('m, 'x world_scheme) Supervisor \<Rightarrow> 'x world_scheme \<Rightarrow> bool" where
  "in_sync p s w \<longleftrightarrow> LoadState p (wos w) = Inr (persisted s) \<and> save_ready p (wos w)"

lemma keeps_or_saves_sync:
  assumes "keeps_or_saves (save_paths p) cfg s w s' w'" and p: "p = c_StatePath cfg" "statePathOk p"
    and sync: "in_sync p s w" and plain: "list_all ascii (enabledList (persisted s'))"
  shows "in_sync p s' w'"
proof -
  have ready: "save_ready p (wos w1)" if "same_at (save_paths p) w w1" for w1
    by (rule save_ready_untouched) (use that sync in \<open>simp_all add: in_sync_def same_at_def\<close>)
  show ?thesis
    using assms(1) unfolding keeps_or_saves_def
  proof
    assume a: "same_at (save_paths p) w w' \<and> persisted s' = persisted s"
    then have "untouched (Clean p) (wos w) (wos w')" by (simp add: same_at_def save_paths_def untouched_def node_at_def)
    then have "ReadFile (Clean p) (wos w') = ReadFile (Clean p) (wos w)" by (rule ReadFile_untouched)
    from LoadState_ReadFile [OF this] ready [OF conjunct1 [OF a]] a sync show ?thesis by (simp add: in_sync_def)
  next
    assume "\<exists>w1. same_at (save_paths p) w w1 \<and> w' = savePersisted cfg s' w1"
    then obtain w1 where u: "same_at (save_paths p) w w1" and w': "w' = savePersisted cfg s' w1" by blast
    note r1 = ready [OF u]
    from save_ready_Save [OF p(2) r1] obtain o' where
      o': "Save (persisted s') p (wos w1) = (None, o')" "save_ready p o'" by blast
    have "wos w' = o'" using w' o'(1) p(1) by (simp add: savePersisted_def)
    moreover have "LoadState p o' = Inr (persisted s')"
      using load_saved [OF p(2) plain o'(1)] r1 by (simp add: save_ready_def)
    ultimately show ?thesis using o'(2) by (simp add: in_sync_def)
  qed
qed

lemma run_sync:
  assumes "sup_run cfg M (calm (save_paths p) G) (s0, w0) as (s, w)" and p: "p = c_StatePath cfg" "statePathOk p"
    and q: "leaves_alone (save_paths p) cfg M G (modules s0)" and "tame (save_paths p) G s0"
    and "in_sync p s0 w0" "list_all ascii (enabledList (persisted s0))" "list_all ascii (keys (modules s0))"
  shows "modules s = modules s0 \<and> tame (save_paths p) G s \<and> in_sync p s w \<and> list_all ascii (enabledList (persisted s))"
  using assms(1)
proof (induction "as" "(s, w)" arbitrary: s w rule: sup_run.induct)
  case none
  then show ?case using assms by simp
next
  case (more "as" s w a s' w')
  have IH: "modules s = modules s0" "tame (save_paths p) G s" "in_sync p s w" "list_all ascii (enabledList (persisted s))"
    using more.hyps(2) by blast+
  have st: "modules s' = modules s \<and> tame (save_paths p) G s' \<and>
      (if a = Booting then w' = w \<and> LoadState (c_StatePath cfg) (wos w) = Inr (persisted s')
       else keeps_or_saves (save_paths p) cfg s w s' w')"
    by (rule act_disk [OF _ IH(2) more.hyps(3,4)]) (simp add: IH(1) q)
  show ?case
  proof (cases "a = Booting")
    case True
    with st IH(3) p(1) have "w' = w" "persisted s' = persisted s" by (auto simp: in_sync_def)
    with st IH show ?thesis by (simp add: in_sync_def)
  next
    case False
    have "list_all ascii (enabledList (persisted s'))"
      using act_enabled [OF more.hyps(3) False] IH(1,4) assms(8) by (fastforce simp: list_all_iff)
    moreover from this have "in_sync p s' w'"
      using keeps_or_saves_sync [OF _ p IH(3)] st False by simp
    ultimately show ?thesis using st IH(1) by simp
  qed
qed

text \<open>A run that begins with the boot is in sync from then on.\<close>

lemma sup_run_front:
  assumes "sup_run cfg M E sw (a # as) sw'"
  shows "\<exists>sw1. sup_act cfg M a sw sw1 \<and> sup_run cfg M E sw1 as sw'"
  using assms
proof (induction "a # as" sw' arbitrary: "as" rule: sup_run.induct)
  case (more bs s w b s' w')
  show ?case
  proof (cases bs)
    case Nil
    with more.hyps(1,3,5) show ?thesis by (auto elim: sup_run.cases intro: sup_run.none)
  next
    case (Cons c cs)
    with more.hyps(5) have "bs = a # cs" "as = cs @ [b]" by simp_all
    with more.hyps(2-4) show ?thesis by (blast intro: sup_run.more)
  qed
qed

lemma boot_sync:
  assumes "sup_run cfg M (calm (save_paths (c_StatePath cfg)) G) (New M cfg fs, w0) (Booting # as) (s, w)"
    and "statePathOk (c_StatePath cfg)" and "save_ready (c_StatePath cfg) (wos w0)"
    and "leaves_alone (save_paths (c_StatePath cfg)) cfg M G (modules (New M cfg fs))"
    and "list_all ascii (keys (modules (New M cfg fs)))"
    and "\<forall>ps. LoadState (c_StatePath cfg) (wos w0) = Inr ps \<longrightarrow> list_all ascii (enabledList ps)"
  shows "in_sync (c_StatePath cfg) s w"
proof -
  obtain s1 w1 where b: "sup_act cfg M Booting (New M cfg fs, w0) (s1, w1)"
    and run: "sup_run cfg M (calm (save_paths (c_StatePath cfg)) G) (s1, w1) as (s, w)"
    using sup_run_front [OF assms(1)] by auto
  from b obtain ps where s1: "LoadState (c_StatePath cfg) (wos w0) = Inr ps" "s1 = (New M cfg fs)\<lparr>persisted := ps\<rparr>" "w1 = w0"
    by (cases rule: sup_act_cases) (auto simp: loadPersistedState_def split: sum.splits)
  then have "in_sync (c_StatePath cfg) s1 w1" "tame (save_paths (c_StatePath cfg)) G s1" "modules s1 = modules (New M cfg fs)"
    using assms(3) by (simp_all add: in_sync_def tame_def New_def)
  with run_sync [OF run refl assms(2)] assms(4-6) s1 show ?thesis by simp
qed

section \<open>Properties\<close>

text \<open>C6: The state file survives a crash at any moment of the daemon's life. In every run of the supervisor, with
  any interleaving and any set of file system calls that fail throughout the run, in which modules, hosts and the environment leave the file
  alone, each directory state passed through, and the last one, shows at the path of the file either what was there at
  the beginning or, with mode 0600, the complete encoding of an enabled list that the supervisor had in
  the course of the run.\<close>

theorem state_file_whole:
  assumes "sup_run cfg M (calm {c_StatePath cfg} G) (s0, w0) as (s, w)" and "statePathOk (c_StatePath cfg)"
    and "leaves_alone {c_StatePath cfg} cfg M G (modules s0)" "tame {c_StatePath cfg} G s0"
  shows "\<exists>ts. trace (wos w) = trace (wos w0) @ ts \<and>
           (\<forall>n\<in>insert (node_at (wos w) (c_StatePath cfg)) ((\<lambda>t. get t (Clean (c_StatePath cfg))) ` set ts).
              n = node_at (wos w0) (c_StatePath cfg) \<or>
              (\<exists>as1 as2 s1 w1. as = as1 @ as2 \<and> sup_run cfg M (calm {c_StatePath cfg} G) (s0, w0) as1 (s1, w1) \<and>
                 n = Some (File (encodeState (persisted s1)) mode600 (getuid (wos w0)))))"
  using run_disk [OF assms(1) refl assms(2-4)] unfolding shows_only_def a_state_of_def by force

text \<open>C3: After the boot, the state file agrees with the supervisor. Suppose that no call of the file system fails, that the
  directory of the file and those above it exist and hold no temporary file of a save, that modules, hosts and environment
  leave the file, these directories and the temporary files alone, and that the names of the modules, those registered and
  those in the file, are ASCII. Take any run of a new supervisor that starts with the step in which \<open>StartEnabled\<close> reads
  the file (\<open>Booting\<close>; the step exists only if the file can be read). After any further step of it, the loads of the boot
  among them, the file reads as exactly the supervisor's enabled list. So a daemon that dies at this point and starts again
  takes over the list it had.\<close>

theorem state_file_in_sync:
  assumes "sup_run cfg M (calm (save_paths (c_StatePath cfg)) G) (New M cfg fs, w0) (Booting # as) (s, w)"
    and "statePathOk (c_StatePath cfg)" and "save_ready (c_StatePath cfg) (wos w0)"
    and "leaves_alone (save_paths (c_StatePath cfg)) cfg M G (modules (New M cfg fs))"
    and "list_all ascii (keys (modules (New M cfg fs)))"
    and "\<forall>ps. LoadState (c_StatePath cfg) (wos w0) = Inr ps \<longrightarrow> list_all ascii (enabledList ps)"
  shows "LoadState (c_StatePath cfg) (wos w) = Inr (persisted s) \<and>
         StartEnabled cfg M (New M cfg fs') w =
           (None, loadAll cfg M (enabledList (persisted s)) ((New M cfg fs')\<lparr>persisted := persisted s\<rparr>) w)"
  using boot_sync [OF assms] by (simp add: in_sync_def StartEnabled_def loadPersistedState_def)

section \<open>Witnesses\<close>

lemma hello_leaves_alone: "leaves_alone P cfg0 helloModule (\<lambda>_. True) reg"
  by (auto simp: leaves_alone_def quiet_hosts_def quiet_modules_def quiet_host_def cfg0_def quietHost_def hello_defs)

lemma cfg0_path: "c_StatePath cfg0 = ''/v/state.json''" "statePathOk (c_StatePath cfg0)"
  by (simp_all add: cfg0_def statePathOk_def cleanComps_def cleanStep_def Dir_def ancestors_def Clean_def upt_rec)

lemma sup0_tame: "tame P G sup0"
  by (simp add: tame_def)

lemma sup0_ready: "save_ready ''/v/state.json'' dirOs"
proof -
  note ev = emptyOs_def cleanComps_def cleanStep_def Dir_def ancestors_def Clean_def upt_rec isDirectory_def isFile_def
    node_at_def dirOs_def
  have "cleanComps (temp_path ''/v/state.json'' n) = cleanComps (Dir ''/v/state.json'') @ [''.state-tmp-'' @ natDigits n]" for n
    unfolding temp_path_def tempName_def by (rule cleanComps_child) (auto simp: natDigits_plain)
  then have "cleanComps (temp_path ''/v/state.json'' n) = [''v'', ''.state-tmp-'' @ natDigits n]" for n by (simp add: ev)
  then have "Clean (temp_path ''/v/state.json'' n) \<noteq> ''/v''" for n
    using cleanComps_eqI [of "temp_path ''/v/state.json'' n" "''/v''"] by (auto simp: ev)
  then show ?thesis by (simp add: save_ready_def) (simp add: ev)
qed

lemma hello_load_run: "\<exists>w. sup_run cfg0 helloModule E (sup0, world0) [Loading ''hello''] (sup1, w)"
proof -
  obtain w1 where 1: "Load cfg0 helloModule ''hello'' sup0 world0 = (None, sup1, w1)" using sup1_Load by blast
  from sup_run.more [OF sup_run.none sup_act.load [OF 1]] show ?thesis by auto
qed

lemma boot_load_run: "\<exists>w. sup_run cfg0 helloModule E (New helloModule cfg0 [fresh0], world0) [Booting, Loading ''hello''] (sup1, w)"
proof -
  have e: "LoadState ''/v/state.json'' (wos world0) = Inr \<lparr>Enabled = Some []\<rparr>"
    by (simp add: world0_def LoadState_def ReadFile_def)
      (simp add: node_at_def dirOs_def emptyOs_def Clean_def cleanComps_def cleanStep_def)
  have "loadPersistedState cfg0 sup0 world0 = Inr sup0"
    using e by (simp add: loadPersistedState_def cfg0_path(1))
  then have "sup_act cfg0 helloModule Booting (sup0, world0) (sup0, world0)" by (intro sup_act.boot) simp_all
  from sup_run.more [OF sup_run.none this]
  have "sup_run cfg0 helloModule E (sup0, world0) [Booting] (sup0, world0)" by simp
  moreover obtain w1 where 1: "Load cfg0 helloModule ''hello'' sup0 world0 = (None, sup1, w1)" using sup1_Load by blast
  ultimately show ?thesis unfolding sup0_def [symmetric] using sup_run.more [OF _ sup_act.load [OF 1]] by fastforce
qed

theorem state_file_in_sync_witness:
  "\<exists>w. sup_run cfg0 helloModule (calm (save_paths ''/v/state.json'') (\<lambda>_. True)) (New helloModule cfg0 [fresh0], world0)
       [Booting, Loading ''hello''] (sup1, w) \<and>
     LoadState ''/v/state.json'' (wos w) = Inr \<lparr>Enabled = Some [''hello'']\<rparr>"
proof -
  have e: "LoadState (c_StatePath cfg0) (wos world0) = Inr \<lparr>Enabled = Some []\<rparr>" "save_ready (c_StatePath cfg0) (wos world0)"
    using sup0_ready by (simp_all add: cfg0_path(1) world0_def LoadState_def ReadFile_def)
      (simp add: node_at_def dirOs_def emptyOs_def Clean_def cleanComps_def cleanStep_def)
  have a: "list_all ascii (keys (modules (New helloModule cfg0 [fresh0])))"
    by (simp add: New_def hello_defs ascii_def)
  obtain w where r: "sup_run cfg0 helloModule (calm (save_paths (c_StatePath cfg0)) (\<lambda>_. True)) (New helloModule cfg0 [fresh0], world0)
      [Booting, Loading ''hello''] (sup1, w)"
    using boot_load_run by blast
  have "LoadState (c_StatePath cfg0) (wos w) = Inr (persisted sup1)"
    using state_file_in_sync [OF r cfg0_path(2) e(2) hello_leaves_alone a] e(1) by (simp add: enabledList_def)
  with r show ?thesis by (auto simp: cfg0_path(1))
qed

theorem state_file_whole_witness:
  "\<exists>w ts. sup_run cfg0 helloModule (calm {''/v/state.json''} (\<lambda>_. True)) (sup0, world0) [Loading ''hello''] (sup1, w) \<and>
     trace (wos w) = trace (wos world0) @ ts \<and>
     (\<forall>t\<in>set ts. get t (Clean ''/v/state.json'') = None \<or> (\<exists>d. get t (Clean ''/v/state.json'') = Some (File d mode600 0)))"
proof -
  obtain w where r: "sup_run cfg0 helloModule (calm {c_StatePath cfg0} (\<lambda>_. True)) (sup0, world0) [Loading ''hello''] (sup1, w)"
    using hello_load_run by blast
  have n: "node_at (wos world0) (c_StatePath cfg0) = None" "getuid (wos world0) = 0"
    by (simp_all add: cfg0_path(1) world0_def node_at_def dirOs_def emptyOs_def Clean_def cleanComps_def cleanStep_def)
  from state_file_whole [OF r cfg0_path(2) hello_leaves_alone sup0_tame] r n show ?thesis
    unfolding cfg0_path(1) by fastforce
qed

end
