(* ===== verification/Penguind.thy ===== *)
theory Penguind
  imports Penguin
begin

text \<open>
  The daemon's entry point (\<open>cmd/penguind/main.go\<close>, \<open>Start\<close> and \<open>serve\<close> of \<open>service.go\<close>) and the set-up of
  logging and metrics (\<open>internal/telemetry\<close>). Starting is one function up to the point where the program serves; how the program ends
  is another, and between the two the daemon runs (\<open>daemon_step\<close>). The logging and metrics libraries, the service library, and
  what \<open>grpc.Server.Serve\<close> returns are parameters.
\<close>

section \<open>Telemetry\<close>

record ('lv, 'l, 'g) telemetryLib =
  tl_ParseLevel :: "string \<Rightarrow> goerr + 'lv"
  tl_Build :: "'lv \<Rightarrow> goerr + 'l"
  tl_Named :: "'l \<Rightarrow> string \<Rightarrow> 'l"
  tl_NewRegistry :: 'g
  tl_Register :: "string \<Rightarrow> 'g \<Rightarrow> goerr option \<times> 'g"

record ('l, 'g) Telemetry =
  te_Logger :: 'l
  te_Registry :: 'g

text \<open>A collector that cannot be registered is only logged.\<close>

definition telemetry_New :: "('lv, 'l, 'g) telemetryLib \<Rightarrow> string \<Rightarrow> goerr + ('l, 'g) Telemetry" where
  "telemetry_New T level =
     (case tl_ParseLevel T level of Inl e \<Rightarrow> Inl (Wrapf (''invalid log level '' @ Quote level @ '': '') e [])
      | Inr lv \<Rightarrow>
          (case tl_Build T lv of Inl e \<Rightarrow> Inl (Wrapf ''build logger: '' e [])
           | Inr l \<Rightarrow>
               Inr \<lparr>te_Logger = l,
                    te_Registry = snd (tl_Register T ''go'' (snd (tl_Register T ''process'' (tl_NewRegistry T))))\<rparr>))"

definition ModuleLogger :: "('lv, 'l, 'g) telemetryLib \<Rightarrow> ('l, 'g) Telemetry \<Rightarrow> string \<Rightarrow> 'l" where
  "ModuleLogger T t name = tl_Named T (te_Logger t) name"

text \<open>A registerer is the registry with labels that it adds to everything registered.\<close>

definition ModuleRegisterer :: "('l, 'g) Telemetry \<Rightarrow> string \<Rightarrow> 'g \<times> (string, string) gomap" where
  "ModuleRegisterer t name = (te_Registry t, [(''module'', name)])"

section \<open>Starting\<close>

datatype ('m, 'w) started =
    Finished string "goerr option"
  | InitFailed initErr
  | NoService "('m, 'w) daemonProgram" goerr
  | Running "('m, 'w) daemonProgram"

definition daemonFlags :: "string list" where
  "daemonFlags = [''config-dir'', ''state-dir'', ''socket'']"

definition bootDaemon ::
  "('y, 'j, 'sch, 'r, ('r, 'z) dworld_scheme) daemonDeps \<Rightarrow> serviceLib \<Rightarrow> ('m, ('r, 'z) dworld_scheme) Module \<Rightarrow> 'm list \<Rightarrow>
   path \<Rightarrow> path \<Rightarrow> path \<Rightarrow> ('r, 'z) dworld_scheme \<Rightarrow>
   ('m, ('r, 'z) dworld_scheme) started \<times> ('r, 'z) dworld_scheme" where
  "bootDaemon D S M factories configDir stateDir socketPath w =
     (case initDaemon D M factories configDir stateDir socketPath w of
        (Inl e, w1) \<Rightarrow> (InitFailed e, w1)
      | (Inr p, w1) \<Rightarrow>
          (case sl_New S of Some e \<Rightarrow> (NoService p (Wrapf ''create service: '' e []), w1)
           | None \<Rightarrow> (Running p, w1)))"

definition penguind_run ::
  "('y, 'j, 'sch, 'r, ('r, 'z) dworld_scheme) daemonDeps \<Rightarrow> ('lv, 'l, 'g) telemetryLib \<Rightarrow> serviceLib \<Rightarrow>
   ('m, ('r, 'z) dworld_scheme) Module \<Rightarrow> 'm list \<Rightarrow> string list \<Rightarrow> ('r, 'z) dworld_scheme \<Rightarrow>
   ('m, ('r, 'z) dworld_scheme) started \<times> ('r, 'z) dworld_scheme" where
  "penguind_run D T S M factories args w =
     (if length args = 1 \<and> (args ! 0 = ''version'' \<or> args ! 0 = ''--version'') then (Finished (dd_Version D @ nl) None, w)
      else case handleServiceCommand S args of
        (True, out, e) \<Rightarrow> (Finished out e, w)
      | (False, _, _) \<Rightarrow>
          (case parseStringFlags daemonFlags args [] of
             Inl e \<Rightarrow> (Finished [] (Some e), w)
           | Inr vals \<Rightarrow>
               (case telemetry_New T ''info'' of
                  Inl e \<Rightarrow> (Finished [] (Some (Wrapf ''init telemetry: '' e [])), w)
                | Inr tel \<Rightarrow>
                    bootDaemon D S M factories (flagValueOf vals ''config-dir'' ''/etc/penguin'')
                      (flagValueOf vals ''state-dir'' ''/var/lib/penguind'') (flagValueOf vals ''socket'' []) w)))"

section \<open>Ending\<close>

definition ErrServerStopped :: goerr where
  "ErrServerStopped = Sentinel ''grpc: the server has been stopped''"

text \<open>\<open>serve\<close>, given what \<open>grpc.Server.Serve\<close> returns.\<close>

definition daemon_serve :: "goerr option \<Rightarrow> goerr option" where
  "daemon_serve r =
     (case r of None \<Rightarrow> None
      | Some e \<Rightarrow> if errorsIs e ''grpc: the server has been stopped'' then None else Some (Wrapf ''serve: '' e []))"

text \<open>\<open>Start\<close> hands the program to a goroutine that serves, and only logs its error.\<close>

definition daemon_Start :: "('m, 'w) daemonProgram \<Rightarrow> goerr option \<times> ('m, 'w) daemonProgram" where
  "daemon_Start p = (None, p\<lparr>dp_serving := True\<rparr>)"

text \<open>How a running program ends: by a signal or with what serving returned, in the foreground; by the service
  manager, whose \<open>Run\<close> calls \<open>Stop\<close> and then returns.\<close>

datatype ending = Signal | ServeEnded "goerr option" | ManagerStop "goerr option"

definition penguind_end ::
  "('y, 'j, 'sch, 'r, ('r, 'z) dworld_scheme) daemonDeps \<Rightarrow> ('m, ('r, 'z) dworld_scheme) Module \<Rightarrow> ending \<Rightarrow>
   ('m, ('r, 'z) dworld_scheme) daemonProgram \<Rightarrow> ('r, 'z) dworld_scheme \<Rightarrow>
   goerr option \<times> ('m, ('r, 'z) dworld_scheme) daemonProgram \<times> ('r, 'z) dworld_scheme" where
  "penguind_end D M en p w =
     (case en of Signal \<Rightarrow> (None, daemon_Stop D M p w)
      | ServeEnded r \<Rightarrow> (daemon_serve r, p, w)
      | ManagerStop r \<Rightarrow> (r, daemon_Stop D M p w))"

text \<open>\<open>main\<close>: the text on standard error and the exit status.\<close>

definition penguind_main :: "goerr option \<Rightarrow> string \<times> int" where
  "penguind_main err = (case err of None \<Rightarrow> ([], 0) | Some e \<Rightarrow> (''penguind: '' @ Error e @ nl, 1))"

section \<open>Properties\<close>

lemma daemonFlags_plain: "n \<in> set daemonFlags \<Longrightarrow> plainFlag n"
  by (auto simp: daemonFlags_def plainFlag_def)

lemma render_not_special:
  assumes "\<forall>f\<in>set fs. foptName f \<in> set daemonFlags" and "args = concat (map renderFopt fs)"
  shows "\<not> (length args = 1 \<and> (args ! 0 = ''version'' \<or> args ! 0 = ''--version''))"
    and "handleServiceCommand S args = (False, [], None)"
proof -
  have "\<exists>two n v. f = Sep two n v \<or> f = Eq two n v" for f by (cases f) auto
  then show "\<not> (length args = 1 \<and> (args ! 0 = ''version'' \<or> args ! 0 = ''--version''))"
    using assms by (cases fs; cases "hd fs") (auto simp: daemonFlags_def dashes_def)
  show "handleServiceCommand S args = (False, [], None)"
    using assms by (cases fs; cases "hd fs") (auto simp: handleServiceCommand_def dashes_def)
qed

text \<open>C37: The daemon's command line. For every sequence of its options, in any of their spellings and whatever the
  values, the daemon starts with the directories and the socket that the last occurrence of each option gives, or with the
  built-in defaults; while \<open>version\<close> and the service subcommands answer without touching anything, before any option is
  read, a lock taken or a module started.\<close>

theorem penguind_command_line:
  assumes "\<forall>f\<in>set fs. foptName f \<in> set daemonFlags" and "telemetry_New T ''info'' = Inr tel"
  shows "penguind_run D T S M factories (concat (map renderFopt fs)) w =
           bootDaemon D S M factories
             (case List.find (\<lambda>f. foptName f = ''config-dir'') (rev fs) of Some f \<Rightarrow> foptValue f | None \<Rightarrow> ''/etc/penguin'')
             (case List.find (\<lambda>f. foptName f = ''state-dir'') (rev fs) of Some f \<Rightarrow> foptValue f | None \<Rightarrow> ''/var/lib/penguind'')
             (case List.find (\<lambda>f. foptName f = ''socket'') (rev fs) of Some f \<Rightarrow> foptValue f | None \<Rightarrow> []) w \<and>
         (\<forall>args. args \<in> {[''version''], [''--version'']} \<or> args \<noteq> [] \<and> hd args = ''service'' \<longrightarrow>
            (\<exists>out e. penguind_run D T S M factories args w = (Finished out e, w)))"
proof
  have "parseStringFlags daemonFlags (concat (map renderFopt fs)) [] =
      Inr (fold (\<lambda>f. put (foptName f) (foptValue f)) fs [])"
    by (rule parseStringFlags_render) (use assms(1) daemonFlags_plain in auto)
  with assms(2) render_not_special(2) [OF assms(1) refl]
  show "penguind_run D T S M factories (concat (map renderFopt fs)) w =
           bootDaemon D S M factories
             (case List.find (\<lambda>f. foptName f = ''config-dir'') (rev fs) of Some f \<Rightarrow> foptValue f | None \<Rightarrow> ''/etc/penguin'')
             (case List.find (\<lambda>f. foptName f = ''state-dir'') (rev fs) of Some f \<Rightarrow> foptValue f | None \<Rightarrow> ''/var/lib/penguind'')
             (case List.find (\<lambda>f. foptName f = ''socket'') (rev fs) of Some f \<Rightarrow> foptValue f | None \<Rightarrow> []) w"
    unfolding penguind_run_def if_not_P [OF render_not_special(1) [OF assms(1) refl]] by (simp add: flagValueOf_render)
  show "\<forall>args. args \<in> {[''version''], [''--version'']} \<or> args \<noteq> [] \<and> hd args = ''service'' \<longrightarrow>
            (\<exists>out e. penguind_run D T S M factories args w = (Finished out e, w))"
  proof (intro allI impI)
    fix args assume "args \<in> {[''version''], [''--version'']} \<or> args \<noteq> [] \<and> hd args = ''service''"
    then show "\<exists>out e. penguind_run D T S M factories args w = (Finished out e, w)"
      using service_handled [of S args] by (auto simp: penguind_run_def split: prod.split bool.split)
  qed
qed

text \<open>\<open>Stop\<close>: the listener is closed if it is being served, the modules are stopped, sockets are removed.\<close>

lemma daemon_Stop_worlds:
  assumes "daemon_Stop D M p w = (p', w')" and "sup_inv (dp_supervisor p)"
  shows "\<exists>o1 v o2. o1 \<in> {wos w, snd (Remove (dp_socketPath p) (wos w))} \<and>
           v = fold (stopped_world M (dp_supervisor p)) (rev (sort (keys (loaded (dp_supervisor p)))))
             (w\<lparr>wos := o1, dw_licenseDone := True\<rparr>) \<and> w' = v\<lparr>wos := o2\<rparr> \<and>
           (\<forall>q. Clean q \<noteq> Clean (dp_socketPath p) \<longrightarrow>
              (\<forall>c. cs_Daemon (dd_yaml D) (dp_configDir p) (wos v) = Inr c \<longrightarrow> Clean q \<noteq> Clean (dc_SocketPath c)) \<longrightarrow>
              untouched q (wos v) o2) \<and>
           (\<forall>c<nextCtx (dp_supervisor p). c \<in> set (cancelled (dp_supervisor p')))"
proof -
  obtain p1 w1 where g: "gracefulStop p w = (p1, w1)" by fastforce
  note g' = gracefulStop_simps [OF g]
  obtain s' w2 where d: "Shutdown (dp_config p1) M (dp_supervisor p1) (w1\<lparr>dw_licenseDone := True\<rparr>) = (s', w2)" by fastforce
  have c: "closeListener (p1\<lparr>dp_supervisor := s'\<rparr>) (removeSocket D p1 w2) = (p', w')" using assms(1) g d by (simp add: daemon_Stop_def)
  have inv: "wf_map (loaded (dp_supervisor p))" "ctx_inv (dp_supervisor p)"
    using assms(2) by (simp_all add: sup_inv_def registry_inv_def)
  have "\<exists>o1. w1 = w\<lparr>wos := o1\<rparr> \<and> o1 \<in> {wos w, snd (Remove (dp_socketPath p) (wos w))}"
    using g by (auto simp: gracefulStop_def closeListener_def on_os_def split: if_splits prod.splits intro: exI [of _ "wos w"])
  then obtain o1 where o1: "w1 = w\<lparr>wos := o1\<rparr>" "o1 \<in> {wos w, snd (Remove (dp_socketPath p) (wos w))}" by blast
  note eff = Shutdown_effect [OF inv(1), of "dp_config p" M "w1\<lparr>dw_licenseDone := True\<rparr>" s' w2]
  have e: "Shutdown (dp_config p) M (dp_supervisor p) (w1\<lparr>dw_licenseDone := True\<rparr>) = (s', w2)" using d g' by simp
  have "\<exists>o2. w' = w2\<lparr>wos := o2\<rparr>"
    using c by (auto simp: removeSocket_def closeListener_def Let_def on_os_def split: prod.splits if_splits intro: exI [of _ "wos w2"])
  then obtain o2 where o2: "w' = w2\<lparr>wos := o2\<rparr>" by blast
  have f: "dp_socketPath p1 = dp_socketPath p" "dp_configDir p1 = dp_configDir p"
    using g by (auto simp: gracefulStop_def closeListener_def split: if_splits)
  have "untouched q (wos w2) o2" if "Clean q \<noteq> Clean (dp_socketPath p)"
      "\<forall>c. cs_Daemon (dd_yaml D) (dp_configDir p) (wos w2) = Inr c \<longrightarrow> Clean q \<noteq> Clean (dc_SocketPath c)" for q
  proof -
    have "untouched q (wos w2) (wos (removeSocket D p1 w2))"
      using that f by (auto simp: removeSocket_def Let_def intro!: untouched_Remove split: sum.split)
    moreover have "untouched q (wos (removeSocket D p1 w2)) (wos w')"
      using c that(1) f by (auto simp: closeListener_def untouched_Remove split: if_splits)
    ultimately show ?thesis using o2 untouched_trans by auto
  qed
  moreover have "c \<in> set (cancelled (dp_supervisor p'))" if "c < nextCtx (dp_supervisor p)" for c
    using Shutdown_cancels [OF inv e that] closeListener_simps(2) [OF c] by simp
  moreover have "w2 = fold (stopped_world M (dp_supervisor p)) (rev (sort (keys (loaded (dp_supervisor p)))))
      (w\<lparr>wos := o1, dw_licenseDone := True\<rparr>)" using eff [OF e] o1(1) by simp
  ultimately show ?thesis using o1(2) o2 by blast
qed


definition quietTelemetry :: "(unit, unit, unit) telemetryLib" where
  "quietTelemetry = \<lparr>tl_ParseLevel = \<lambda>_. Inr (), tl_Build = \<lambda>_. Inr (), tl_Named = \<lambda>l _. l, tl_NewRegistry = (),
                     tl_Register = \<lambda>_ g. (None, g)\<rparr>"

definition okService :: serviceLib where
  "okService = \<lparr>sl_New = None, sl_Status = Inr ''running'', sl_Control = \<lambda>_. None\<rparr>"

theorem penguind_command_line_witness:
  "penguind_run demoDaemon quietTelemetry okService (builtinModule offSquawk offTob) Builtins
     [''--state-dir'', ''/x'', ''-socket=/v/s'', ''--state-dir=/v'', ''-config-dir'', ''/v''] dworld0 =
   bootDaemon demoDaemon okService (builtinModule offSquawk offTob) Builtins ''/v'' ''/v'' ''/v/s'' dworld0"
  using penguind_command_line [of "[Sep True ''state-dir'' ''/x'', Eq False ''socket'' ''/v/s'', Eq True ''state-dir'' ''/v'',
      Sep False ''config-dir'' ''/v'']" quietTelemetry "\<lparr>te_Logger = (), te_Registry = ()\<rparr>" demoDaemon okService
      "builtinModule offSquawk offTob" Builtins dworld0]
  by (simp add: daemonFlags_def dashes_def telemetry_New_def quietTelemetry_def)


end
