(* ===== verification/Tray.thy ===== *)
theory Tray
  imports Penguind Cli Supervisor_Runs
begin

text \<open>
  The tray program (\<open>cmd/penguin-tray/main.go\<close>): a state machine driven by clicks, by the stream of events, by its poll timer
  and by the tray library, which calls \<open>onReady\<close> and, on quitting, \<open>onExit\<close>. A channel that can only be closed is a flag. What the three
  calls behind a snapshot answer is an argument of the step that renders. At the end the program is put together with the
  daemon it watches.
\<close>

section \<open>Rendering\<close>

datatype watcher = Unstarted | Streaming | Polling | WatchEnded

record trayApp =
  tr_tooltip :: string
  tr_quit :: "bool option"
  tr_conn :: bool
  tr_loop :: bool
  tr_watcher :: watcher

definition renderText :: "goerr + Model \<Rightarrow> string" where
  "renderText r =
     (case r of Inl _ \<Rightarrow> ''Penguin: daemon unreachable''
      | Inr m \<Rightarrow> ''Penguin: '' @ Itoa (int (length (mo_Modules m))) @ '' module(s), '' @ mo_Overall m)"

definition render :: "goerr + Model \<Rightarrow> trayApp \<Rightarrow> trayApp" where
  "render r a = a\<lparr>tr_tooltip := renderText r\<rparr>"

section \<open>The program\<close>

datatype trayMain = PrintVersion | UsageExit | Unreachable string | Run trayApp

definition newApp :: trayApp where
  "newApp = \<lparr>tr_tooltip = [], tr_quit = None, tr_conn = True, tr_loop = False, tr_watcher = Unstarted\<rparr>"

text \<open>\<open>main\<close>: \<open>dial\<close> and \<open>version\<close> are the errors of connecting and of the probing call.\<close>

definition tray_main :: "(string \<Rightarrow> goerr option) \<Rightarrow> (string \<Rightarrow> goerr option) \<Rightarrow> string list \<Rightarrow> trayMain" where
  "tray_main dial version args =
     (if length args = 1 \<and> (args ! 0 = ''version'' \<or> args ! 0 = ''--version'') then PrintVersion
      else case parseStringFlags [''socket''] args [] of
        Inl e \<Rightarrow> UsageExit
      | Inr vals \<Rightarrow>
          let socket = flagValueOf vals ''socket'' defaultSocket
          in if dial socket \<noteq> None \<or> version socket \<noteq> None
             then Unreachable (''penguin-tray: cannot reach penguind at '' @ socket @ '' '' @ [CHR 0xE2, CHR 0x80, CHR 0x94] @
                               '' is the daemon running?'' @ nl)
             else Run newApp)"

text \<open>\<open>onReady\<close> up to its loop; the watcher is started as a goroutine.\<close>

definition onReady :: "trayApp \<Rightarrow> trayApp" where
  "onReady a = a\<lparr>tr_tooltip := ''Penguin endpoint agent'', tr_quit := Some False, tr_loop := True\<rparr>"

definition onExit :: "trayApp \<Rightarrow> trayApp" where
  "onExit a = a\<lparr>tr_quit := map_option (\<lambda>_. True) (tr_quit a), tr_conn := False\<rparr>"

text \<open>What can happen to a running tray: a click on an item (\<open>Quit\<close> makes the library call \<open>onExit\<close>), the loop seeing the closed
  channel, the watcher starting with the first snapshot and the error of opening the stream, receiving an event or an error, and
  polling.\<close>

datatype trayEvent =
    ClickRefresh "goerr + Model" | ClickQuit | LoopQuit
  | WatchStart "goerr + Model" "goerr option" | Recv "goerr + Model" | RecvErr | Tick "goerr + Model" | PollQuit

definition quitting :: "trayApp \<Rightarrow> bool" where
  "quitting a \<longleftrightarrow> tr_quit a = Some True"

fun enabled :: "trayEvent \<Rightarrow> trayApp \<Rightarrow> bool" where
  "enabled (ClickRefresh r) a \<longleftrightarrow> tr_loop a"
| "enabled ClickQuit a \<longleftrightarrow> tr_loop a"
| "enabled LoopQuit a \<longleftrightarrow> tr_loop a \<and> quitting a"
| "enabled (WatchStart r e) a \<longleftrightarrow> tr_watcher a = Unstarted \<and> tr_quit a \<noteq> None"
| "enabled (Recv r) a \<longleftrightarrow> tr_watcher a = Streaming \<and> tr_conn a"
| "enabled RecvErr a \<longleftrightarrow> tr_watcher a = Streaming"
| "enabled (Tick r) a \<longleftrightarrow> tr_watcher a = Polling"
| "enabled PollQuit a \<longleftrightarrow> tr_watcher a = Polling \<and> quitting a"

fun trayStep :: "trayEvent \<Rightarrow> trayApp \<Rightarrow> trayApp" where
  "trayStep (ClickRefresh r) a = render r a"
| "trayStep ClickQuit a = onExit (a\<lparr>tr_loop := False\<rparr>)"
| "trayStep LoopQuit a = a\<lparr>tr_loop := False\<rparr>"
| "trayStep (WatchStart r e) a = (render r a)\<lparr>tr_watcher := (if e = None then Streaming else Polling)\<rparr>"
| "trayStep (Recv r) a = render r a"
| "trayStep RecvErr a = a\<lparr>tr_watcher := Polling\<rparr>"
| "trayStep (Tick r) a = render r a"
| "trayStep PollQuit a = a\<lparr>tr_watcher := WatchEnded\<rparr>"

inductive trayRun :: "trayApp \<Rightarrow> trayEvent list \<Rightarrow> trayApp \<Rightarrow> bool" where
  start: "trayRun a [] a"
| event: "trayRun a es b \<Longrightarrow> enabled e b \<Longrightarrow> trayRun a (es @ [e]) (trayStep e b)"

fun rendered :: "trayEvent \<Rightarrow> (goerr + Model) option" where
  "rendered (ClickRefresh r) = Some r"
| "rendered (WatchStart r e) = Some r"
| "rendered (Recv r) = Some r"
| "rendered (Tick r) = Some r"
| "rendered _ = None"

section \<open>The tooltip\<close>

lemma trayStep_tooltip:
  "tr_tooltip (trayStep e a) = (case rendered e of None \<Rightarrow> tr_tooltip a | Some r \<Rightarrow> renderText r)"
  by (cases e) (simp_all add: render_def onExit_def)

lemma trayRun_tooltip:
  "trayRun a es b \<Longrightarrow>
   tr_tooltip b = (case rev (List.map_filter rendered es) of [] \<Rightarrow> tr_tooltip a | r # _ \<Rightarrow> renderText r)"
proof (induction rule: trayRun.induct)
  case (start a)
  then show ?case by (simp add: map_filter_simps)
next
  case (event a es b e)
  then show ?case
    by (cases "rendered e") (simp_all add: trayStep_tooltip map_filter_def)
qed

text \<open>Quitting ends the watcher: once the channel is closed, at most a failing receive and a look at the
  channel are left, and nothing the daemon sends can come in between.\<close>

lemma tray_can_quit:
  assumes "quitting a" "\<not> tr_conn a" "tr_watcher a \<noteq> Unstarted"
  shows "\<exists>es b. trayRun a es b \<and> length es \<le> 2 \<and> tr_watcher b = WatchEnded \<and> tr_tooltip b = tr_tooltip a"
proof (cases "tr_watcher a")
  case Streaming
  let ?b = "trayStep PollQuit (trayStep RecvErr a)"
  have "trayRun a ([] @ [RecvErr]) (trayStep RecvErr a)" by (rule trayRun.event [OF trayRun.start]) (simp add: Streaming)
  then have "trayRun a (([] @ [RecvErr]) @ [PollQuit]) ?b" by (rule trayRun.event) (use assms(1) in \<open>simp add: quitting_def\<close>)
  moreover have "length (([] @ [RecvErr]) @ [PollQuit]) \<le> 2 \<and> tr_watcher ?b = WatchEnded \<and> tr_tooltip ?b = tr_tooltip a" by simp
  ultimately show ?thesis by blast
next
  case Polling
  have "trayRun a ([] @ [PollQuit]) (trayStep PollQuit a)" by (rule trayRun.event [OF trayRun.start]) (use Polling assms(1) in simp)
  moreover have "length ([] @ [PollQuit]) \<le> 2 \<and> tr_watcher (trayStep PollQuit a) = WatchEnded \<and>
      tr_tooltip (trayStep PollQuit a) = tr_tooltip a" by simp
  ultimately show ?thesis by blast
next
  case WatchEnded
  then show ?thesis using trayRun.start [of a] by fastforce
qed (use assms(3) in simp)

section \<open>The tray and the daemon together\<close>

text \<open>The daemon runs, a subscriber \<open>i\<close> of its event stream is the tray's watcher, and the tray lives through
  its events; the list collects those.\<close>

inductive session ::
  "('y, 'j, 'sch, 'r, ('r, 'z) dworld_scheme) daemonDeps \<Rightarrow> ('m, ('r, 'z) dworld_scheme) Module \<Rightarrow> 64 word \<Rightarrow>
   ('m, ('r, 'z) dworld_scheme) daemonProgram \<times> ('r, 'z) dworld_scheme \<Rightarrow> trayApp \<Rightarrow> trayEvent list \<Rightarrow>
   ('m, ('r, 'z) dworld_scheme) daemonProgram \<times> ('r, 'z) dworld_scheme \<Rightarrow> trayApp \<Rightarrow> bool"
  for D M i pw0 a0 where
  start: "session D M i pw0 a0 [] pw0 a0"
| daemon: "session D M i pw0 a0 es pw a \<Longrightarrow> daemon_step D M pw pw' \<Longrightarrow> session D M i pw0 a0 es pw' a"
| push: "session D M i pw0 a0 es (p, w) a \<Longrightarrow> recv i (watchBroker p) = Some (ev, eb) \<Longrightarrow> enabled (Recv r) a \<Longrightarrow>
         session D M i pw0 a0 (es @ [Recv r]) (setBroker eb p, w) (trayStep (Recv r) a)"
| tray: "session D M i pw0 a0 es pw a \<Longrightarrow> (\<And>r. e \<noteq> Recv r) \<Longrightarrow> enabled e a \<Longrightarrow>
         session D M i pw0 a0 (es @ [e]) pw (trayStep e a)"

lemma watcher_streams_on:
  "tr_watcher a = Streaming \<Longrightarrow> enabled e a \<Longrightarrow> e \<noteq> RecvErr \<Longrightarrow> tr_watcher (trayStep e a) = Streaming"
  by (cases e) (simp_all add: render_def onExit_def)

lemma session_stale:
  assumes "session D M i (p0, w0) a0 es (p, w) a" and "silent (watchBroker p0)" and "tr_watcher a0 = Streaming"
    and "\<forall>e\<in>set es. e \<noteq> RecvErr \<and> (\<forall>r. e \<noteq> ClickRefresh r)"
  shows "silent (watchBroker p) \<and> tr_watcher a = Streaming \<and> tr_tooltip a = tr_tooltip a0"
  using assms(1,4)
proof (induction es "(p, w)" a arbitrary: p w rule: session.induct)
  case start
  then show ?case using assms(2,3) by simp
next
  case (daemon es pw a)
  obtain p1 w1 where pw: "pw = (p1, w1)" by fastforce
  with daemon have "silent (watchBroker p1) \<and> tr_watcher a = Streaming \<and> tr_tooltip a = tr_tooltip a0" by simp
  with daemon_step_silent daemon.hyps(3) pw show ?case by blast
next
  case (push es p w a ev eb r)
  then have "silent (watchBroker p)" by simp
  then have "recv i (watchBroker p) = None" by (rule silent_keep)
  with push.hyps(3) show ?case by simp
next
  case (tray es a e)
  have IH: "silent (watchBroker p) \<and> tr_watcher a = Streaming \<and> tr_tooltip a = tr_tooltip a0" using tray by simp
  have e: "e \<noteq> RecvErr" "\<And>r. e \<noteq> ClickRefresh r" using tray.prems by auto
  have "rendered e = None" using tray.hyps(3,4) e(2) IH by (cases e) auto
  then show ?case using IH watcher_streams_on [OF _ tray.hyps(4) e(1)] by (simp add: trayStep_tooltip)
qed

section \<open>Properties\<close>

text \<open>C26: The tray does not follow the daemon. Once its watcher has an open stream, the tooltip keeps the text of the first
  snapshot whatever happens in the daemon, modules being loaded, failing or being unloaded, for as long as the user does not
  click and the stream does not break: no event ever reaches it, and with a stream it does not poll.\<close>

theorem tray_goes_stale:
  assumes "daemon_run D M factories configDir stateDir socketPath p0 w0"
    and "session D M i (p0, w0) (trayStep (WatchStart r None) a0) es (p, w) a"
    and "\<forall>e\<in>set es. e \<noteq> RecvErr \<and> (\<forall>r. e \<noteq> ClickRefresh r)"
  shows "tr_tooltip a = renderText r"
  using session_stale [OF assms(2) daemon_run_silent [OF assms(1)] _ assms(3)] by (simp add: render_def)

text \<open>What the daemon answers, as the tray reads it.\<close>

definition trayModules :: "ModuleSummary list \<Rightarrow> TrayModule list" where
  "trayModules ms = map (\<lambda>m. \<lparr>tm_Name = su_Name m, tm_State = su_State m\<rparr>) ms"

definition trayStatuses :: "ModuleStatus list \<Rightarrow> TrayStatus list" where
  "trayStatuses ss = map (\<lambda>s. \<lparr>ts_Name = mo_Name s, ts_Health = mo_Health s, ts_HealthMessage = mo_HealthMessage s\<rparr>) ss"


lemma parseHealth_String: "parseHealth (HealthLevel_String h) = HealthLevel_String h"
  by (simp add: parseHealth_def HealthLevel_String_def)

lemma moduleStatus_health:
  "moduleStatus M n s w = (Some x, s', w') \<Longrightarrow> mo_Name x = n \<and> (\<exists>h. mo_Health x = HealthLevel_String h)"
proof -
  assume a: "moduleStatus M n s w = (Some x, s', w')"
  obtain st e where 1: "Sup_Status M n s w = (st, e)" by fastforce
  have "e = None \<and> Sup_Module n s \<noteq> None" using a 1 by (auto simp: moduleStatus_def split: option.splits)
  then obtain m where e: "e = None" and m: "Sup_Module n s = Some m" by blast
  obtain h m' v where h: "m_Health M m w = (h, m', v)" by (cases "m_Health M m w")
  have "x = \<lparr>mo_Name = n, mo_State = st_State st, mo_Detail = st_Detail st, mo_Health = HealthLevel_String (hr_Level h),
             mo_HealthMessage = hr_Message h, mo_CheckedAtUnixNano = UnixNano (hr_CheckedAt h)\<rparr>"
    using a by (simp add: moduleStatus_def 1 e m h)
  then have "mo_Name x = n" "mo_Health x = HealthLevel_String (hr_Level h)" by simp_all
  then show ?thesis by blast
qed

lemma statusAll_health:
  "statusAll M ns s w = (rs, s', w') \<Longrightarrow> x \<in> set rs \<Longrightarrow> \<exists>h. mo_Health x = HealthLevel_String h"
proof (induction ns arbitrary: s w rs s' w')
  case (Cons n ns)
  obtain r s1 w1 where 1: "moduleStatus M n s w = (r, s1, w1)" by (cases "moduleStatus M n s w")
  obtain rs2 s2 w2 where 2: "statusAll M ns s1 w1 = (rs2, s2, w2)" by (cases "statusAll M ns s1 w1")
  from Cons.prems 1 2 have "x \<in> set rs2 \<or> r = Some x" by (auto split: option.splits)
  then show ?case
  proof
    assume "r = Some x"
    with 1 show ?thesis using moduleStatus_health by metis
  qed (rule Cons.IH [OF 2])
qed simp

lemma GetStatus_health:
  assumes "GetStatus sv M apiv n s w = (Inr g, s', w')" and "x \<in> set (gs_Modules g)"
  shows "\<exists>h. mo_Health x = HealthLevel_String h"
proof (cases "n = []")
  case True
  with assms show ?thesis by (auto simp: GetStatus_def split: option.splits prod.splits dest: statusAll_health)
next
  case False
  with assms show ?thesis by (auto simp: GetStatus_def split: option.splits prod.splits dest: moduleStatus_health)
qed

lemma ListModules_states:
  assumes "sup_inv s" and "ListModules M ''v1'' s = Inr ms" and "m \<in> set ms"
  shows "su_State m = (case get (loaded s) (su_Name m) of None \<Rightarrow> StateDisabled | Some x \<Rightarrow> ms_state x)"
    and "su_State m \<in> {StateDisabled, StateRunning, StateDegraded, StateFailed}"
proof -
  from assms(2,3) obtain sn where "sn \<in> set (Sup_List s)" "su_Name m = sn_Name sn" "su_State m = sn_State sn"
    by (auto simp: ListModules_def checkAPIVersion_def split: option.splits)
  then show st: "su_State m = (case get (loaded s) (su_Name m) of None \<Rightarrow> StateDisabled | Some x \<Rightarrow> ms_state x)"
    by (auto simp: Sup_List_def snapshot_def split: option.splits)
  then show "su_State m \<in> {StateDisabled, StateRunning, StateDegraded, StateFailed}"
    using assms(1) unfolding sup_inv_def mstate_inv_def by (auto split: option.splits)
qed

text \<open>What the daemon's answer says of a module: its last entry, or nothing known.\<close>

definition reported :: "ModuleStatus list \<Rightarrow> string \<Rightarrow> Health \<times> string" where
  "reported ss n =
     (case List.find (\<lambda>x. mo_Name x = n) (rev ss) of None \<Rightarrow> (HealthUnknown, []) | Some x \<Rightarrow> (mo_Health x, mo_HealthMessage x))"

lemma find_map: "List.find P (map f xs) = map_option f (List.find (P \<circ> f) xs)"
  by (induction xs) auto

text \<open>C27: What a user sees is well typed and is what the daemon says. In every reachable state of the supervisor, whatever
  the status and command calls that follow find, the tray's model shows each module in one of the states \<open>disabled\<close>,
  \<open>running\<close>, \<open>degraded\<close> and \<open>failed\<close>, counts it as loaded exactly when the supervisor has it loaded, and gives it, and the
  whole, one of the four healths: a module that the status reply names is shown with exactly the health and the message given there, so
  no word of the daemon is misread, and one that it does not name is shown as unknown, without a message.\<close>

theorem tray_view_typed:
  assumes "reachable cfg M factories (s, w)" and "ListModules M ''v1'' s = Inr ms"
    and "GetStatus sv M ''v1'' [] s2 w2 = (Inr g, s3, w3)"
    and "Snapshot (Inr (trayModules ms)) (Inr (trayStatuses (gs_Modules g))) (Inr cs) now = Inr mo"
  shows "(\<forall>it\<in>set (mo_Modules mo).
            it_State it \<in> {StateDisabled, StateRunning, StateDegraded, StateFailed} \<and>
            it_Loaded it = (get (loaded s) (it_Name it) \<noteq> None) \<and>
            it_Health it \<in> {HealthUnknown, HealthOK, HealthWarn, HealthBad} \<and>
            (it_Health it, it_Detail it) = reported (gs_Modules g) (it_Name it)) \<and>
         mo_Overall mo \<in> {HealthUnknown, HealthOK, HealthWarn, HealthBad}"
proof -
  let ?sb = "fold (\<lambda>s m. put (ts_Name s) s m) (trayStatuses (gs_Modules g)) []"
  let ?it = "trayItem ?sb (trayActions cs)"
  have inv: "sup_inv s" by (rule sup_inv_reachable [OF assms(1)])
  have mods: "set (mo_Modules mo) = ?it ` set (trayModules ms)" and over: "mo_Overall mo = worstHealth (mo_Modules mo)"
    using assms(4) by (auto simp: Snapshot_def Let_def)
  have sb: "get ?sb n = map_option (\<lambda>s. \<lparr>ts_Name = mo_Name s, ts_Health = mo_Health s, ts_HealthMessage = mo_HealthMessage s\<rparr>)
      (List.find (\<lambda>x. mo_Name x = n) (rev (gs_Modules g)))" for n
    by (simp add: get_fold_put trayStatuses_def rev_map find_map comp_def split: option.split)
  have h: "parseHealth (mo_Health x) = mo_Health x \<and> mo_Health x \<in> {HealthUnknown, HealthOK, HealthWarn, HealthBad}"
    if "List.find (\<lambda>x. mo_Name x = n) (rev (gs_Modules g)) = Some x" for n x
  proof -
    from that have "x \<in> set (gs_Modules g)" by (auto dest: find_Some_mem)
    with GetStatus_health [OF assms(3)] obtain h where "mo_Health x = HealthLevel_String h" by blast
    then show ?thesis by (simp add: parseHealth_String) (simp add: HealthLevel_String_def)
  qed
  have item: "it_State it \<in> {StateDisabled, StateRunning, StateDegraded, StateFailed} \<and>
      it_Loaded it = (get (loaded s) (it_Name it) \<noteq> None) \<and>
      it_Health it \<in> {HealthUnknown, HealthOK, HealthWarn, HealthBad} \<and>
      (it_Health it, it_Detail it) = reported (gs_Modules g) (it_Name it)"
    if it: "it \<in> set (mo_Modules mo)" for it
  proof -
    from it mods obtain m where m: "m \<in> set ms" "it = ?it \<lparr>tm_Name = su_Name m, tm_State = su_State m\<rparr>"
      by (auto simp: trayModules_def)
    note st = ListModules_states [OF inv assms(2) m(1)]
    have "su_State m \<noteq> StateDisabled \<longleftrightarrow> get (loaded s) (su_Name m) \<noteq> None"
      using st inv unfolding sup_inv_def mstate_inv_def by (fastforce split: option.splits)
    then show ?thesis
      using m(2) st(2) h [of "su_Name m"] by (auto simp: trayItem_def Let_def sb reported_def split: option.splits)
  qed
  have "mo_Overall mo \<in> insert HealthOK (it_Health ` set (mo_Modules mo))"
    using foldl_worse [of HealthOK "mo_Modules mo"] unfolding over worstHealth_fold by blast
  then have "mo_Overall mo \<in> {HealthUnknown, HealthOK, HealthWarn, HealthBad}"
  proof
    assume "mo_Overall mo \<in> it_Health ` set (mo_Modules mo)"
    then obtain it where "it \<in> set (mo_Modules mo)" "mo_Overall mo = it_Health it" by (rule imageE)
    with item [of it] show ?thesis by simp
  qed simp
  then show ?thesis by (intro conjI ballI item)
qed

section \<open>Witnesses\<close>

theorem tray_goes_stale_witness:
  "\<exists>p w p' w' a. daemon_run demoDaemon (builtinModule offSquawk offTob) Builtins ''/v'' ''/v'' ''/v/s'' p w \<and>
     session demoDaemon (builtinModule offSquawk offTob) 1 (p, w) (trayStep (WatchStart (Inl (Errorf ''down'')) None) (onReady newApp))
       [ClickQuit] (p', w') a \<and>
     get (subscribers (watchBroker p')) (fst (Subscribe (watchBroker p))) = Some [] \<and>
     tr_tooltip a = ''Penguin: daemon unreachable''"
proof -
  let ?M = "builtinModule offSquawk offTob"
  let ?a0 = "trayStep (WatchStart (Inl (Errorf ''down'')) None) (onReady newApp)"
  obtain p w where r: "daemon_run demoDaemon ?M Builtins ''/v'' ''/v'' ''/v/s'' p w" using demo_run by blast
  obtain i eb where sb: "Subscribe (watchBroker p) = (i, eb)" by fastforce
  have "daemon_step demoDaemon ?M (p, w) (setBroker eb p, w)" by (rule daemon_step.watch [OF sb])
  from session.daemon [OF session.start this]
  have "session demoDaemon ?M 1 (p, w) ?a0 [] (setBroker eb p, w) ?a0" .
  from session.tray [OF this, of ClickQuit]
  have s: "session demoDaemon ?M 1 (p, w) ?a0 [ClickQuit] (setBroker eb p, w) (trayStep ClickQuit ?a0)"
    by (simp add: onReady_def render_def)
  from tray_goes_stale [OF r s] have "tr_tooltip (trayStep ClickQuit ?a0) = ''Penguin: daemon unreachable''"
    by (simp add: renderText_def)
  moreover have "get (subscribers (watchBroker (setBroker eb p))) (fst (Subscribe (watchBroker p))) = Some []"
    using sb by (auto simp: Subscribe_def)
  ultimately show ?thesis using r s by blast
qed

theorem tray_view_typed_witness:
  "\<exists>ms g s w mo. ListModules helloModule ''v1'' sup1 = Inr ms \<and>
     GetStatus (NewServer [] None) helloModule ''v1'' [] sup1 world0 = (Inr g, s, w) \<and>
     Snapshot (Inr (trayModules ms)) (Inr (trayStatuses (gs_Modules g))) (Inr []) 0 = Inr mo \<and>
     (\<forall>it\<in>set (mo_Modules mo). it_State it \<in> {StateDisabled, StateRunning, StateDegraded, StateFailed} \<and>
        (it_Health it, it_Detail it) = reported (gs_Modules g) (it_Name it))"
proof -
  obtain w1 where "Load cfg0 helloModule ''hello'' sup0 world0 = (None, sup1, w1)" using sup1_Load by blast
  then have "sup_step cfg0 helloModule (sup0, world0) (sup1, w1)" by (rule sup_stepI [OF sup_act.load])
  then have re: "reachable cfg0 helloModule [fresh0] (sup1, w1)" unfolding reachable_def sup0_def by blast
  obtain ms where 1: "ListModules helloModule ''v1'' sup1 = Inr ms" by (simp add: ListModules_def checkAPIVersion_def)
  obtain rs s w where "statusAll helloModule (map sn_Name (Sup_List sup1)) sup1 world0 = (rs, s, w)"
    by (cases "statusAll helloModule (map sn_Name (Sup_List sup1)) sup1 world0")
  then obtain g where 2: "GetStatus (NewServer [] None) helloModule ''v1'' [] sup1 world0 = (Inr g, s, w)"
    by (simp add: GetStatus_def checkAPIVersion_def)
  obtain mo where 3: "Snapshot (Inr (trayModules ms)) (Inr (trayStatuses (gs_Modules g))) (Inr []) 0 = Inr mo"
    by (simp add: Snapshot_def Let_def)
  from tray_view_typed [OF re 1 2 3] 1 2 3 show ?thesis by blast
qed

end
