(* ===== verification/Wireguard.thy ===== *)
theory Wireguard
  imports Tobogganing Secrets
begin

text \<open>
  The two implementations of the interface \<open>WGController\<close> between which \<open>NewVPNManager\<close> chooses: the binding to the
  kernel (\<open>vpn_wgctrl.go\<close>) and the fake (\<open>fake.go\<close>), which the code also uses when the binding cannot be opened; and the
  other fakes of that file, a whole host for tests. The library \<open>wgctrl\<close> is a parameter. The locale \<open>wg_controller\<close> is what the
  interface is documented to do, configuring a device; only the fake provides it.
\<close>

section \<open>The interface\<close>

record wgDevice =
  wd_Name :: string

record ('c, 's) WGController =
  wc_Devices :: "'s \<Rightarrow> goerr + string list"
  wc_Close :: "'s \<Rightarrow> goerr option \<times> 's"
  wc_Device :: "string \<Rightarrow> 's \<Rightarrow> goerr + wgDevice option"
  wc_Configure :: "string \<Rightarrow> 'c \<Rightarrow> 's \<Rightarrow> goerr option \<times> 's"

fun configureAll :: "(string \<Rightarrow> 'c \<Rightarrow> 's \<Rightarrow> goerr option \<times> 's) \<Rightarrow> (string \<times> 'c) list \<Rightarrow> 's \<Rightarrow> goerr option \<times> 's" where
  "configureAll configure [] s = (None, s)"
| "configureAll configure ((n, c) # cs) s =
     (case configure n c s of (Some e, s1) \<Rightarrow> (Some e, s1) | (None, s1) \<Rightarrow> configureAll configure cs s1)"

locale wg_controller =
  fixes devices :: "'s \<Rightarrow> goerr + string list"
    and device :: "string \<Rightarrow> 's \<Rightarrow> goerr + wgDevice option"
    and configure :: "string \<Rightarrow> 'c \<Rightarrow> 's \<Rightarrow> goerr option \<times> 's"
    and in_force :: "string \<Rightarrow> 's \<Rightarrow> 'c option"
    and ok :: "'s \<Rightarrow> bool"
  assumes configure_ok: "ok s \<Longrightarrow> configure n c s = (r, s') \<Longrightarrow> ok s'"
    and configure_applies: "ok s \<Longrightarrow> configure n c s = (None, s') \<Longrightarrow> in_force n s' = Some c"
    and configure_frame: "ok s \<Longrightarrow> configure n c s = (r, s') \<Longrightarrow> n' \<noteq> n \<Longrightarrow> in_force n' s' = in_force n' s"
    and in_force_device: "ok s \<Longrightarrow> in_force n s \<noteq> None \<Longrightarrow> \<exists>d. device n s = Inr (Some d) \<and> wd_Name d = n"
    and device_listed: "ok s \<Longrightarrow> device n s = Inr (Some d) \<Longrightarrow> devices s = Inr ns \<Longrightarrow> n \<in> set ns"
begin

text \<open>After a series of configurations each device has the last one it was given, and is listed.\<close>

lemma configureAll_effect:
  "ok s \<Longrightarrow> configureAll configure cs s = (None, s') \<Longrightarrow>
   ok s' \<and> in_force n s' = (case get (rev cs) n of None \<Rightarrow> in_force n s | Some c \<Rightarrow> Some c)"
proof (induction cs arbitrary: s)
  case (Cons x cs)
  obtain m c where x: "x = (m, c)" by fastforce
  obtain r s1 where 1: "configure m c s = (r, s1)" by fastforce
  with Cons.prems x have r: "r = None" and rest: "configureAll configure cs s1 = (None, s')"
    by (auto split: option.splits)
  note IH = Cons.IH [OF configure_ok [OF Cons.prems(1) 1] rest]
  have "in_force n s1 = (if n = m then Some c else in_force n s)"
    using configure_applies [OF Cons.prems(1) 1 [unfolded r]] configure_frame [OF Cons.prems(1) 1] by simp
  with IH x show ?case by (auto simp: map_add_def split: option.splits)
qed simp

lemma configured_listed:
  "ok s \<Longrightarrow> configureAll configure cs s = (None, s') \<Longrightarrow> devices s' = Inr ns \<Longrightarrow> n \<in> fst ` set cs \<Longrightarrow> n \<in> set ns"
proof -
  assume a: "ok s" "configureAll configure cs s = (None, s')" "devices s' = Inr ns" "n \<in> fst ` set cs"
  from key_get [of n "rev cs"] a(4) obtain c where "get (rev cs) n = Some c" by auto
  with configureAll_effect [OF a(1,2), of n] have "ok s'" "in_force n s' \<noteq> None" by auto
  with in_force_device device_listed a(3) show ?thesis by blast
qed

end

section \<open>The binding to the kernel\<close>

record 's wgctrlLib =
  wl_Devices :: "'s \<Rightarrow> goerr + wgDevice list"
  wl_Close :: "'s \<Rightarrow> goerr option \<times> 's"
  wl_Device :: "string \<Rightarrow> 's \<Rightarrow> goerr + wgDevice option"

definition realWG_Devices :: "'s wgctrlLib \<Rightarrow> 's \<Rightarrow> goerr + string list" where
  "realWG_Devices L s = (case wl_Devices L s of Inl e \<Rightarrow> Inl e | Inr ds \<Rightarrow> Inr (map wd_Name ds))"

definition realWG_Configure :: "string \<Rightarrow> 'c \<Rightarrow> 's \<Rightarrow> goerr option \<times> 's" where
  "realWG_Configure name cfg s = (None, s)"

definition realWG :: "'s wgctrlLib \<Rightarrow> ('c, 's) WGController" where
  "realWG L =
     \<lparr>wc_Devices = realWG_Devices L, wc_Close = wl_Close L, wc_Device = wl_Device L, wc_Configure = realWG_Configure\<rparr>"

section \<open>The fake controller\<close>

record 'c FakeWGController =
  fw_devices :: "(string, wgDevice) gomap"
  fw_configs :: "(string, 'c) gomap"

definition NewFakeWGController :: "'c FakeWGController" where
  "NewFakeWGController = \<lparr>fw_devices = [], fw_configs = []\<rparr>"

definition fakeWG_Devices :: "'c FakeWGController \<Rightarrow> goerr + string list" where
  "fakeWG_Devices f = Inr (keys (fw_devices f))"

definition fakeWG_Close :: "'c FakeWGController \<Rightarrow> goerr option \<times> 'c FakeWGController" where
  "fakeWG_Close f = (None, f)"

definition fakeWG_Device :: "string \<Rightarrow> 'c FakeWGController \<Rightarrow> goerr + wgDevice option" where
  "fakeWG_Device name f = Inr (get (fw_devices f) name)"

definition fakeWG_Configure :: "string \<Rightarrow> 'c \<Rightarrow> 'c FakeWGController \<Rightarrow> goerr option \<times> 'c FakeWGController" where
  "fakeWG_Configure name cfg f =
     (let f1 = f\<lparr>fw_configs := put name cfg (fw_configs f)\<rparr>
      in (None, if get (fw_devices f1) name = None then f1\<lparr>fw_devices := put name \<lparr>wd_Name = name\<rparr> (fw_devices f1)\<rparr> else f1))"

definition GetLastConfig :: "string \<Rightarrow> 'c FakeWGController \<Rightarrow> 'c option" where
  "GetLastConfig name f = get (fw_configs f) name"

text \<open>A device of the fake carries its own name, and whatever was configured is a device.\<close>

definition fake_ok :: "'c FakeWGController \<Rightarrow> bool" where
  "fake_ok f \<longleftrightarrow>
     (\<forall>n d. get (fw_devices f) n = Some d \<longrightarrow> wd_Name d = n) \<and>
     (\<forall>n. get (fw_configs f) n \<noteq> None \<longrightarrow> get (fw_devices f) n \<noteq> None)"

lemma fake_ok_keep [inv_keep]:
  "fake_ok NewFakeWGController" "fake_ok f \<Longrightarrow> fake_ok (snd (fakeWG_Configure n c f))"
  by (auto simp: fake_ok_def NewFakeWGController_def fakeWG_Configure_def Let_def)

lemma fake_in_force: "fake_ok f \<Longrightarrow> get (fw_configs f) n \<noteq> None \<Longrightarrow> get (fw_devices f) n \<noteq> None"
  unfolding fake_ok_def by blast

interpretation fakewg: wg_controller fakeWG_Devices fakeWG_Device fakeWG_Configure GetLastConfig fake_ok
proof
  fix n c and s s' :: "'c FakeWGController" and r :: "goerr option"
  assume ok: "fake_ok s"
  show "fakeWG_Configure n c s = (r, s') \<Longrightarrow> fake_ok s'" using fake_ok_keep(2) [OF ok, of n c] by simp
  show "fakeWG_Configure n c s = (None, s') \<Longrightarrow> GetLastConfig n s' = Some c"
    by (auto simp: GetLastConfig_def fakeWG_Configure_def Let_def)
  show "fakeWG_Configure n c s = (r, s') \<Longrightarrow> n' \<noteq> n \<Longrightarrow> GetLastConfig n' s' = GetLastConfig n' s" for n'
    by (auto simp: GetLastConfig_def fakeWG_Configure_def Let_def)
  show "GetLastConfig n s \<noteq> None \<Longrightarrow> \<exists>d. fakeWG_Device n s = Inr (Some d) \<and> wd_Name d = n"
    using ok by (fastforce simp: fakeWG_Device_def GetLastConfig_def fake_ok_def)
  show "fakeWG_Device n s = Inr (Some d) \<Longrightarrow> fakeWG_Devices s = Inr ns \<Longrightarrow> n \<in> set ns" for d ns
    by (auto simp: fakeWG_Device_def fakeWG_Devices_def dest: get_Some_key)
qed

section \<open>The choice\<close>

text \<open>The world in which a tunnel is made also holds the fake controller, which is empty at first.\<close>

record 'c wgworld = world +
  gw_fake :: "'c FakeWGController"

definition fakeController :: "('c, ('c, 'z) wgworld_scheme) WGController" where
  "fakeController =
     \<lparr>wc_Devices = \<lambda>w. fakeWG_Devices (gw_fake w),
      wc_Close = \<lambda>w. (case fakeWG_Close (gw_fake w) of (e, f) \<Rightarrow> (e, w\<lparr>gw_fake := f\<rparr>)),
      wc_Device = \<lambda>n w. fakeWG_Device n (gw_fake w),
      wc_Configure = \<lambda>n c w. (case fakeWG_Configure n c (gw_fake w) of (e, f) \<Rightarrow> (e, w\<lparr>gw_fake := f\<rparr>))\<rparr>"

text \<open>The controller that \<open>NewVPNManager\<close> takes, given what \<open>wgctrl.New\<close> returns.\<close>

definition newController ::
  "goerr + ('c, 'z) wgworld_scheme wgctrlLib \<Rightarrow> ('c, ('c, 'z) wgworld_scheme) WGController" where
  "newController r = (case r of Inl e \<Rightarrow> fakeController | Inr L \<Rightarrow> realWG L)"

text \<open>\<open>IsConnected\<close>, \<open>GetConfig\<close> and \<open>LastHandshake\<close>.\<close>

definition IsConnected :: "VPNManager \<Rightarrow> bool" where
  "IsConnected v = vp_connected v"

definition GetConfig :: "VPNManager \<Rightarrow> ModuleConfig" where
  "GetConfig v = vp_config v"

definition LastHandshake :: "VPNManager \<Rightarrow> time" where
  "LastHandshake v = vp_lastHandshake v"

lemma newController_Configure:
  "wc_Configure (newController r) n c w = (e, w') \<Longrightarrow>
   e = None \<and> (\<exists>f. w' = w\<lparr>gw_fake := f\<rparr>) \<and> (\<forall>L. r = Inr L \<longrightarrow> w' = w)"
  by (auto simp: newController_def fakeController_def realWG_def realWG_Configure_def fakeWG_Configure_def Let_def
      split: sum.splits if_splits intro: exI [of _ "gw_fake w"])

text \<open>A failure before the device is configured is the same whatever configuring would do.\<close>

lemma Connect_fails_early:
  assumes "Connect D a v w = (Some e, v', w')" and "\<And>n c u. fst (td_Configure D n c u) = None"
  shows "Connect (D\<lparr>td_Configure := f\<rparr>) a v w = (Some e, v', w')"
proof -
  have fetch: "fetchTunnelConfig (D\<lparr>td_Configure := f\<rparr>) = fetchTunnelConfig D" by (intro ext) (simp add: fetchTunnelConfig_def)
  have conf: "td_Configure D n c u \<noteq> (Some y, z)" for n c u y z using assms(2) [of n c u] by auto
  show ?thesis
  proof (cases "vp_connected v")
    case True
    with assms(1) show ?thesis by (simp add: Connect_def)
  next
    case False
    obtain rt w1 where 1: "fetchTunnelConfig D a v w = (rt, w1)" by fastforce
    show ?thesis
    proof (cases rt)
      case (Inl x)
      with assms(1) 1 False fetch show ?thesis by (simp add: Connect_def)
    next
      case (Inr t)
      obtain rk w2 where 2: "td_GenerateKey D w1 = (rk, w2)" by fastforce
      obtain ru w3 where 3: "td_ResolveUDP D (tc_ServerEndpoint t) w2 = (ru, w3)" by fastforce
      from assms(1) conf 1 2 3 Inr False fetch show ?thesis
        by (auto simp: Connect_def Let_def split: sum.splits option.splits prod.splits)
    qed
  qed
qed

text \<open>C28: The tunnel is imaginary. With the controller the code chooses, configuring the device never fails and, with the kernel
  at hand, does nothing. So connecting can only fail before the device is configured: whatever another controller would do at
  that point, the same call would fail in the same way. When it succeeds the manager reports a connection and a fresh handshake,
  although all that was done is fetching the configuration, generating a key and resolving the endpoint: the kernel was not told anything, and
  the only trace of the configuration, if there is one, is in the memory of the fake.\<close>

theorem tunnel_is_imaginary:
  assumes "td_Configure D = wc_Configure (newController r)"
  shows "(\<forall>n c u. fst (td_Configure D n c u) = None) \<and>
    (\<forall>e v' w' f. Connect D a v w = (Some e, v', w') \<longrightarrow> Connect (D\<lparr>td_Configure := f\<rparr>) a v w = (Some e, v', w')) \<and>
    (\<forall>v' w'. Connect D a v w = (None, v', w') \<longrightarrow>
       IsConnected v' \<and> LastHandshake v' = wnow w' \<and>
       (\<exists>t w1 k w2 addr w3 f. fetchTunnelConfig D a v w = (Inr t, w1) \<and> td_GenerateKey D w1 = (Inr k, w2) \<and>
          td_ResolveUDP D (tc_ServerEndpoint t) w2 = (Inr addr, w3) \<and> w' = w3\<lparr>gw_fake := f\<rparr> \<and>
          (\<forall>L. r = Inr L \<longrightarrow> w' = w3)))"
proof (intro conjI allI impI)
  show never: "fst (td_Configure D n c u) = None" for n c u
    using newController_Configure [of r n c u] by (cases "wc_Configure (newController r) n c u") (simp add: assms)
  show "Connect (D\<lparr>td_Configure := f\<rparr>) a v w = (Some e, v', w')" if "Connect D a v w = (Some e, v', w')" for e v' w' f
    by (rule Connect_fails_early [OF that never])
  fix v' w' assume c: "Connect D a v w = (None, v', w')"
  then show "IsConnected v'" "LastHandshake v' = wnow w'"
    using Connect_chain [OF c] unfolding IsConnected_def LastHandshake_def by blast+
  from Connect_chain [OF c] obtain t w1 key w2 addr w3 cfg where
    ch: "fetchTunnelConfig D a v w = (Inr t, w1)" "td_GenerateKey D w1 = (Inr key, w2)"
      "td_ResolveUDP D (tc_ServerEndpoint t) w2 = (Inr addr, w3)"
    and conf: "td_Configure D (mc_InterfaceName (vp_config v)) cfg w3 = (None, w')" by blast
  from newController_Configure [OF conf [unfolded assms]] ch
  show "\<exists>t w1 k w2 addr w3 f. fetchTunnelConfig D a v w = (Inr t, w1) \<and> td_GenerateKey D w1 = (Inr k, w2) \<and>
      td_ResolveUDP D (tc_ServerEndpoint t) w2 = (Inr addr, w3) \<and> w' = w3\<lparr>gw_fake := f\<rparr> \<and> (\<forall>L. r = Inr L \<longrightarrow> w' = w3)"
    by blast
qed

definition wgworld0 :: "(unit, unit, unit) wgConfig wgworld" where
  "wgworld0 = \<lparr>wos = emptyOs, wnow = 7, wrand = \<lambda>_. 0, wdraws = 0, gw_fake = NewFakeWGController\<rparr>"

definition kernel0 :: "(unit, unit, unit) wgConfig wgworld wgctrlLib" where
  "kernel0 = \<lparr>wl_Devices = \<lambda>_. Inr [], wl_Close = \<lambda>w. (None, w), wl_Device = \<lambda>_ _. Inr None\<rparr>"

text \<open>With the kernel at hand, which has no device at all.\<close>

theorem tunnel_is_imaginary_witness:
  "\<exists>v' w'. Connect (grantDeps\<lparr>td_Configure := wc_Configure (newController (Inr kernel0))\<rparr>)
       \<lparr>am_managerURL = [], am_token = ''t'', am_refreshToken = [], am_expiresAt = 0\<rparr> (NewVPNManager tobDefaults ''/v'') wgworld0 =
       (None, v', w') \<and> IsConnected v' \<and> wc_Devices (realWG kernel0 :: ((unit, unit, unit) wgConfig, _) WGController) w' = Inr []"
proof -
  let ?a = "\<lparr>am_managerURL = [], am_token = ''t'', am_refreshToken = [], am_expiresAt = 0\<rparr>"
  let ?c = "wc_Configure (newController (Inr kernel0)) :: string \<Rightarrow> (unit, unit, unit) wgConfig \<Rightarrow> _"
  have "fst (?c n c w) = None" for n c w by (simp add: newController_def realWG_def realWG_Configure_def)
  then obtain v' w' where c: "Connect (grantDeps\<lparr>td_Configure := ?c\<rparr>) ?a (NewVPNManager tobDefaults ''/v'') wgworld0 = (None, v', w')"
    using grant_connect_with [of ?a "NewVPNManager tobDefaults ''/v''" ?c wgworld0] by (auto simp: GetToken_def NewVPNManager_def)
  have "td_Configure (grantDeps\<lparr>td_Configure := ?c\<rparr>) = wc_Configure (newController (Inr kernel0))" by simp
  from tunnel_is_imaginary [OF this] c have "IsConnected v'" by blast
  with c show ?thesis by (auto simp: realWG_def realWG_Devices_def kernel0_def)
qed

section \<open>The other fakes\<close>

record FakeHost =
  fh_store :: "(string, bytes) gomap"
  fh_featureEnabled :: bool
  fh_tier :: string
  fh_dataDir :: string
  fh_events :: "Event list"
  fh_config :: bytes

definition NewFakeHost :: "string \<Rightarrow> FakeHost" where
  "NewFakeHost dataDir =
     \<lparr>fh_store = [], fh_featureEnabled = True, fh_tier = ''professional'', fh_dataDir = dataDir, fh_events = [], fh_config = []\<rparr>"

definition fakeSecret_Get :: "string \<Rightarrow> FakeHost \<Rightarrow> goerr + bytes" where
  "fakeSecret_Get key h = (case get (fh_store h) key of Some v \<Rightarrow> Inr v | None \<Rightarrow> Inl ErrSecretNotFound)"

definition fakeSecret_Set :: "string \<Rightarrow> bytes \<Rightarrow> FakeHost \<Rightarrow> goerr option \<times> FakeHost" where
  "fakeSecret_Set key v h = (None, h\<lparr>fh_store := put key v (fh_store h)\<rparr>)"

definition fakeSecret_Delete :: "string \<Rightarrow> FakeHost \<Rightarrow> goerr option \<times> FakeHost" where
  "fakeSecret_Delete key h = (None, h\<lparr>fh_store := del key (fh_store h)\<rparr>)"

definition fakeLicense_FeatureEnabled :: "string \<Rightarrow> FakeHost \<Rightarrow> bool" where
  "fakeLicense_FeatureEnabled key h = fh_featureEnabled h"

definition fakeLicense_Tier :: "FakeHost \<Rightarrow> string" where
  "fakeLicense_Tier h = fh_tier h"

definition fakeEvents_Publish :: "Event \<Rightarrow> FakeHost \<Rightarrow> FakeHost" where
  "fakeEvents_Publish ev h = h\<lparr>fh_events := fh_events h @ [ev]\<rparr>"

text \<open>The fake as the host of a module, in a world that holds it.\<close>

record fhworld = world +
  fk_host :: FakeHost

definition FakeHostServices :: "FakeHost \<Rightarrow> ('z fhworld_scheme) HostServices" where
  "FakeHostServices f =
     \<lparr>h_Config = fh_config f, h_DataDir = fh_dataDir f,
      h_SecretsGet = \<lambda>k w. (fakeSecret_Get k (fk_host w), w),
      h_SecretsSet = \<lambda>k v w. (case fakeSecret_Set k v (fk_host w) of (e, h) \<Rightarrow> (e, w\<lparr>fk_host := h\<rparr>)),
      h_SecretsDelete = \<lambda>k w. (case fakeSecret_Delete k (fk_host w) of (e, h) \<Rightarrow> (e, w\<lparr>fk_host := h\<rparr>)),
      h_FeatureEnabled = \<lambda>k w. (fakeLicense_FeatureEnabled k (fk_host w), w),
      h_Tier = \<lambda>w. fakeLicense_Tier (fk_host w),
      h_Publish = \<lambda>ev w. w\<lparr>fk_host := fakeEvents_Publish ev (fk_host w)\<rparr>\<rparr>"

text \<open>The fake HTTP client: \<open>fill\<close> is what unmarshalling a response does to the body it is given, whether it succeeds or not.\<close>

record 'j FakeHTTPClient =
  fc_responses :: "(string, 'j) gomap"
  fc_errors :: "(string, goerr option) gomap"

definition fakeHTTP_DoJSON :: "'j FakeHTTPClient \<Rightarrow> string \<Rightarrow> ('j \<Rightarrow> 'v \<Rightarrow> 'v) \<Rightarrow> 'v \<Rightarrow> goerr option \<times> 'v" where
  "fakeHTTP_DoJSON f url fill respBody =
     (case get (fc_errors f) url of
        Some (Some e) \<Rightarrow> (Some e, respBody)
      | _ \<Rightarrow> (case get (fc_responses f) url of Some r \<Rightarrow> (None, fill r respBody) | None \<Rightarrow> (None, respBody)))"

text \<open>The fake store keeps the promises of the daemon's store, for the one module it belongs to.\<close>

interpretation fakesecret: secret_store "\<lambda>n. fakeSecret_Get" "\<lambda>n. fakeSecret_Set" "\<lambda>n. fakeSecret_Delete" "\<lambda>n. n = ''tobogganing''"
  by unfold_locales (auto simp: fakeSecret_Get_def fakeSecret_Set_def fakeSecret_Delete_def ErrSecretNotFound_def)

end
