(* ===== verification/Resolver_Platforms.thy ===== *)
theory Resolver_Platforms
  imports Resolver
begin

text \<open>
  The system resolver on macOS and Windows (\<open>sysresolver_darwin.go\<close>, \<open>sysresolver_windows.go\<close>), which both call
  a command line tool, under the operations of \<open>sysresolver.go\<close>, which \<open>Resolver\<close> defines over any platform. The commands are a parameter, a function from a
  command line and a machine to its answer; the locales \<open>mac_tool\<close> and \<open>win_tool\<close> state what the
  documentation of \<open>networksetup\<close> and \<open>netsh\<close> says of the commands in use, and give both platforms one contract, \<open>managed_platform\<close>.
\<close>

section \<open>Running commands\<close>

type_synonym 'm runner = "string list \<Rightarrow> 'm \<Rightarrow> (goerr + string) \<times> 'm"

text \<open>One command per name; a failure is only logged.\<close>

fun setEach :: "'m runner \<Rightarrow> (string \<Rightarrow> string list) \<Rightarrow> string list \<Rightarrow> 'm \<Rightarrow> 'm" where
  "setEach run cmd [] m = m"
| "setEach run cmd (n # ns) m = setEach run cmd ns (snd (run (cmd n) m))"

section \<open>macOS\<close>

definition isPPP :: "string \<Rightarrow> bool" where
  "isPPP service = Contains (ToLower service) ''ppp''"

definition getNetworkServices :: "'m runner \<Rightarrow> 'm \<Rightarrow> (goerr + string list) \<times> 'm" where
  "getNetworkServices run m =
     (case run [''networksetup'', ''-listallnetworkservices''] m of
        (Inl e, m1) \<Rightarrow> (Inl (Wrapf ''networksetup: '' e []), m1)
      | (Inr output, m1) \<Rightarrow>
          (Inr (filter (\<lambda>line. line \<noteq> [] \<and> \<not> HasPrefix line ''('') (map TrimSpace (Split (CHR 0x0A) output))), m1))"

definition macSetCmd :: "'a netip \<Rightarrow> 'a list \<Rightarrow> string \<Rightarrow> string list" where
  "macSetCmd lib servers service = [''networksetup'', ''-setdnsservers'', service] @ map (addrString lib) servers"

definition macResetCmd :: "string \<Rightarrow> string list" where
  "macResetCmd service = [''networksetup'', ''-setdnsservers'', service, ''Empty'']"

definition darwin_apply :: "'m runner \<Rightarrow> 'a netip \<Rightarrow> 'a list \<Rightarrow> 'm \<Rightarrow> goerr option \<times> 'm" where
  "darwin_apply run lib servers m =
     (if servers = [] then (Some (Errorf ''no DNS servers provided''), m)
      else case getNetworkServices run m of
        (Inl e, m1) \<Rightarrow> (Some (Wrapf ''get network services: '' e []), m1)
      | (Inr services, m1) \<Rightarrow>
          if services = [] then (Some (Errorf ''no network services found''), m1)
          else (None, setEach run (macSetCmd lib servers) (filter (\<lambda>service. \<not> isPPP service) services) m1))"

definition darwin_restore :: "'m runner \<Rightarrow> 'a list \<Rightarrow> 'm \<Rightarrow> goerr option \<times> 'm" where
  "darwin_restore run servers m =
     (case getNetworkServices run m of
        (Inl e, m1) \<Rightarrow> (Some (Wrapf ''get network services: '' e []), m1)
      | (Inr services, m1) \<Rightarrow> (None, setEach run macResetCmd (filter (\<lambda>service. \<not> isPPP service) services) m1))"

definition dnsLine :: "'a netip \<Rightarrow> string \<Rightarrow> 'a option" where
  "dnsLine lib line0 =
     (let line = TrimSpace line0
      in if line \<noteq> [] \<and> \<not> HasPrefix line ''DNS'' \<and> line \<noteq> ''There aren't any DNS Servers set on'' then ParseAddr lib line else None)"

definition darwin_current :: "'m runner \<Rightarrow> 'a netip \<Rightarrow> 'm \<Rightarrow> (goerr + 'a list) \<times> 'm" where
  "darwin_current run lib m =
     (case getNetworkServices run m of
        (Inl e, m1) \<Rightarrow> (Inl (Wrapf ''get network services: '' e []), m1)
      | (Inr [], m1) \<Rightarrow> (Inl (Errorf ''no network services found''), m1)
      | (Inr (service # _), m1) \<Rightarrow>
          (case run [''networksetup'', ''-getdnsservers'', service] m1 of
             (Inl e, m2) \<Rightarrow> (Inl (Wrapf ''get DNS servers: '' e []), m2)
           | (Inr output, m2) \<Rightarrow>
               let servers = List.map_filter (dnsLine lib) (Split (CHR 0x0A) output)
               in (if servers = [] then Inl (Errorf ''no DNS servers configured'') else Inr servers, m2)))"

definition darwin_capture :: "'m runner \<Rightarrow> 'm \<Rightarrow> string \<times> 'm" where
  "darwin_capture run m =
     (case run [''scutil'', ''-c'', ''show State:/Network/Global/DNS''] m of
        (Inl e, m1) \<Rightarrow> ([], m1) | (Inr output, m1) \<Rightarrow> (output, m1))"

section \<open>Windows\<close>

definition interfaceName :: "string \<Rightarrow> string option" where
  "interfaceName line0 =
     (let line = TrimSpace line0
      in if line = [] \<or> HasPrefix line ''Admin State'' then None
         else if 4 \<le> length (Fields line) then Some (last (Fields line)) else None)"

definition getNetworkInterfaces :: "'m runner \<Rightarrow> 'm \<Rightarrow> (goerr + string list) \<times> 'm" where
  "getNetworkInterfaces run m =
     (case run [''netsh'', ''interface'', ''show'', ''interface''] m of
        (Inl e, m1) \<Rightarrow> (Inl (Wrapf ''show interface: '' e []), m1)
      | (Inr output, m1) \<Rightarrow> (Inr (List.map_filter interfaceName (Split (CHR 0x0A) output)), m1))"

definition winSetCmd :: "'a netip \<Rightarrow> 'a list \<Rightarrow> string \<Rightarrow> string list" where
  "winSetCmd lib servers iface =
     [''netsh'', ''interface'', ''ip'', ''set'', ''dnsservers'', ''name='' @ iface, ''static'', addrString lib (servers ! 0)] @
     (if 1 < length servers then [''index=2'', addrString lib (servers ! 1)] else [])"

definition winResetCmd :: "string \<Rightarrow> string list" where
  "winResetCmd iface = [''netsh'', ''interface'', ''ip'', ''set'', ''dnsservers'', ''name='' @ iface, ''dhcp'']"

definition windows_apply :: "'m runner \<Rightarrow> 'a netip \<Rightarrow> 'a list \<Rightarrow> 'm \<Rightarrow> goerr option \<times> 'm" where
  "windows_apply run lib servers m =
     (if servers = [] then (Some (Errorf ''no DNS servers provided''), m)
      else case getNetworkInterfaces run m of
        (Inl e, m1) \<Rightarrow> (Some (Wrapf ''get network interfaces: '' e []), m1)
      | (Inr interfaces, m1) \<Rightarrow>
          if interfaces = [] then (Some (Errorf ''no network interfaces found''), m1)
          else (None, setEach run (winSetCmd lib servers) interfaces m1))"

definition windows_restore :: "'m runner \<Rightarrow> 'a list \<Rightarrow> 'm \<Rightarrow> goerr option \<times> 'm" where
  "windows_restore run servers m =
     (case getNetworkInterfaces run m of
        (Inl e, m1) \<Rightarrow> (Some (Wrapf ''get network interfaces: '' e []), m1)
      | (Inr interfaces, m1) \<Rightarrow> (None, setEach run winResetCmd interfaces m1))"

definition colonLine :: "'a netip \<Rightarrow> string \<Rightarrow> 'a option" where
  "colonLine lib line0 =
     (let line = TrimSpace line0
      in if Contains line '':'' then
           (case Split (CHR '':'') line of _ # p # _ \<Rightarrow> ParseAddr lib (TrimSpace p) | _ \<Rightarrow> None)
         else None)"

definition windows_current :: "'m runner \<Rightarrow> 'a netip \<Rightarrow> 'm \<Rightarrow> (goerr + 'a list) \<times> 'm" where
  "windows_current run lib m =
     (case getNetworkInterfaces run m of
        (Inl e, m1) \<Rightarrow> (Inl (Wrapf ''get network interfaces: '' e []), m1)
      | (Inr [], m1) \<Rightarrow> (Inl (Errorf ''no network interfaces found''), m1)
      | (Inr (iface # _), m1) \<Rightarrow>
          (case run [''netsh'', ''interface'', ''ip'', ''show'', ''dns'', iface] m1 of
             (Inl e, m2) \<Rightarrow> (Inl (Wrapf ''show DNS: '' e []), m2)
           | (Inr output, m2) \<Rightarrow>
               let servers = List.map_filter (colonLine lib) (Split (CHR 0x0A) output)
               in (if servers = [] then Inl (Errorf ''no DNS servers configured'') else Inr servers, m2)))"

definition windows_capture :: "'m runner \<Rightarrow> 'm \<Rightarrow> string \<times> 'm" where
  "windows_capture run m =
     (case run [''netsh'', ''interface'', ''ip'', ''show'', ''dns'', ''all''] m of
        (Inl e, m1) \<Rightarrow> ([], m1) | (Inr output, m1) \<Rightarrow> (output, m1))"

section \<open>The platforms\<close>

text \<open>A method that only runs commands leaves the file system alone.\<close>

definition onMachine :: "('m \<Rightarrow> 'b \<times> 'm) \<Rightarrow> 'm \<times> os \<Rightarrow> 'b \<times> ('m \<times> os)" where
  "onMachine f ms = (case f (fst ms) of (x, m1) \<Rightarrow> (x, m1, snd ms))"

definition darwinPlatform :: "'m runner \<Rightarrow> 'a netip \<Rightarrow> ('a, 'm) platform" where
  "darwinPlatform run lib =
     \<lparr>pl_apply = \<lambda>r as. onMachine (darwin_apply run lib as), pl_restore = \<lambda>r as. onMachine (darwin_restore run as),
      pl_current = onMachine (darwin_current run lib), pl_capture = onMachine (darwin_capture run)\<rparr>"

definition windowsPlatform :: "'m runner \<Rightarrow> 'a netip \<Rightarrow> ('a, 'm) platform" where
  "windowsPlatform run lib =
     \<lparr>pl_apply = \<lambda>r as. onMachine (windows_apply run lib as), pl_restore = \<lambda>r as. onMachine (windows_restore run as),
      pl_current = onMachine (windows_current run lib), pl_capture = onMachine (windows_capture run)\<rparr>"

section \<open>The contract of a platform\<close>

text \<open>\<open>names\<close> are the services whose configuration the platform manages, \<open>setting\<close> the servers fixed for a service, none
  when it takes those of the network.\<close>

locale managed_platform =
  fixes P :: "('a, 'm) platform"
    and ok :: "'m \<Rightarrow> bool"
    and names :: "'m \<Rightarrow> string set"
    and setting :: "'m \<Rightarrow> string \<Rightarrow> 'a list"
    and good :: "'a list \<Rightarrow> bool"
  assumes apply_sets: "ok m \<Longrightarrow> good servers \<Longrightarrow>
      \<exists>m'. pl_apply P r servers (m, s) = (None, m', s) \<and> ok m' \<and> names m' = names m \<and>
           setting m' = (\<lambda>n. if n \<in> names m then servers else setting m n)"
    and restore_resets: "ok m \<Longrightarrow>
      \<exists>m'. pl_restore P r servers (m, s) = (None, m', s) \<and> ok m' \<and> names m' = names m \<and>
           setting m' = (\<lambda>n. if n \<in> names m then [] else setting m n)"
    and current_reads: "ok m \<Longrightarrow> \<exists>c. pl_current P (m, s) = (c, m, s)"
    and capture_reads: "ok m \<Longrightarrow> \<exists>x. pl_capture P (m, s) = (x, m, s) \<and> ascii x"
    and good_not_empty: "good servers \<Longrightarrow> servers \<noteq> []"
begin

lemma apply_effect:
  assumes "ok m" and "good servers"
  shows "\<exists>b m'. gApply P lib now servers r (m, s) =
            (None, r\<lparr>rv_backup := Some b\<rparr>, m', snd (writeBackup (r :: resolver) b s)) \<and>
          ok m' \<and> names m' = names m \<and> setting m' = (\<lambda>n. if n \<in> names m then servers else setting m n) \<and>
          bk_PreviousServers b = map (addrString lib) (case fst (pl_current P (m, s)) of Inl e \<Rightarrow> [] | Inr as \<Rightarrow> as) \<and>
          ascii (bk_PreviousState b) \<and> ascii (bk_AppliedAt b)"
proof -
  obtain c where c: "pl_current P (m, s) = (c, m, s)" using current_reads [OF assms(1)] by blast
  obtain m' where m': "pl_apply P r servers (m, s) = (None, m', s)" "ok m'" "names m' = names m"
    "setting m' = (\<lambda>n. if n \<in> names m then servers else setting m n)"
    using apply_sets [OF assms] by blast
  obtain x where "pl_capture P (m', s) = (x, m', s)" "ascii x" using capture_reads [OF m'(2)] by blast
  with c m' good_not_empty [OF assms(2)] show ?thesis
    by (intro exI [of _ "\<lparr>bk_PreviousServers = map (addrString lib) (case c of Inl e \<Rightarrow> [] | Inr as \<Rightarrow> as),
        bk_PreviousState = x, bk_AppliedAt = Itoa (getCurrentUnixTime now)\<rparr>"] exI [of _ m'])
      (simp add: gApply_def Let_def ascii_Itoa)
qed

lemma apply_then_restore:
  assumes "ok m" and "good servers"
  shows "\<exists>r' m' s' m'' s''. gApply P lib now servers r (m, s) = (None, r', m', s') \<and>
           gRestore P lib fallback r' (m', s') = (None, r'\<lparr>rv_backup := None\<rparr>, m'', s'') \<and>
           (\<forall>n. setting m' n = (if n \<in> names m then servers else setting m n)) \<and>
           (\<forall>n. setting m'' n = (if n \<in> names m then [] else setting m n))"
proof -
  obtain b m' where b: "gApply P lib now servers r (m, s) =
      (None, r\<lparr>rv_backup := Some b\<rparr>, m', snd (writeBackup r b s))" "ok m'" "names m' = names m"
      "setting m' = (\<lambda>n. if n \<in> names m then servers else setting m n)"
    using apply_effect [OF assms] by blast
  let ?r = "r\<lparr>rv_backup := Some b\<rparr>"
  let ?s = "snd (writeBackup r b s)"
  obtain m'' where m'': "pl_restore P ?r (if validServers lib b = [] then [fallback] else validServers lib b) (m', ?s) = (None, m'', ?s)"
      "setting m'' = (\<lambda>n. if n \<in> names m' then [] else setting m' n)"
    using restore_resets [OF b(2), of ?r "if validServers lib b = [] then [fallback] else validServers lib b" ?s] by blast
  from m''(1) have "gRestore P lib fallback ?r (m', ?s) = (None, ?r\<lparr>rv_backup := None\<rparr>, m'', snd (deleteBackup ?r ?s))"
    by (simp add: gRestore_def Let_def)
  moreover have "setting m'' n = (if n \<in> names m then [] else setting m n)" for n using m''(2) b(3,4) by simp
  moreover have "setting m' n = (if n \<in> names m then servers else setting m n)" for n using b(4) by simp
  ultimately show ?thesis using b(1) by blast
qed

text \<open>After a crash, with the marker in place: the outcome depends on whether previous servers were found.\<close>

lemma apply_then_crash:
  assumes "ok m" and "good servers" and "markerReady r s" and "addr_lib lib"
    and "rv_dataDir r2 = rv_dataDir r"
  shows "\<exists>r' m' s' m'' s''. gApply P lib now servers r (m, s) = (None, r', m', s') \<and>
           gRecover P lib r2 (m', s') = (None, m'', s'') \<and> node_at s'' (markerPath r) = None \<and>
           (\<forall>n. setting m' n = (if n \<in> names m then servers else setting m n)) \<and>
           (\<forall>n. setting m'' n =
              (if n \<in> names m \<and> (\<exists>as. fst (pl_current P (m, s)) = Inr as \<and> as \<noteq> []) then [] else setting m' n))"
proof -
  let ?cur = "case fst (pl_current P (m, s)) of Inl e \<Rightarrow> [] | Inr as \<Rightarrow> as"
  obtain b m' where b: "gApply P lib now servers r (m, s) =
      (None, r\<lparr>rv_backup := Some b\<rparr>, m', snd (writeBackup r b s))" "ok m'" "names m' = names m"
      "setting m' = (\<lambda>n. if n \<in> names m then servers else setting m n)"
      "bk_PreviousServers b = map (addrString lib) ?cur" "ascii (bk_PreviousState b)" "ascii (bk_AppliedAt b)"
    using apply_effect [OF assms(1,2)] by blast
  obtain s1 s2 where s1: "writeBackup r b s = (None, s1)" "readBackup r s1 = Inr b"
      and s2: "deleteBackup r s1 = (None, s2)" "node_at s2 (markerPath r) = None"
    using writeBackup_reads [OF assms(3,4) b(5-7)] by blast
  have same: "readBackup r2 s1 = readBackup r s1" "deleteBackup r2 = deleteBackup r" "markerPath r2 = markerPath r"
    using assms(5) by (simp_all add: readBackup_def deleteBackup_def [abs_def] markerPath_def fun_eq_iff)
  have sm: "setting m' n = (if n \<in> names m then servers else setting m n)" for n using b(4) by simp
  have v: "validServers lib b = ?cur" using addr_lib.validServers_printed [OF assms(4) b(5)] .
  show ?thesis
  proof (cases "?cur = []")
    case True
    then have "gRecover P lib r2 (m', s1) = (None, m', s2)" using v s1(2) s2(1) same by (simp add: gRecover_def)
    moreover have "\<nexists>as. fst (pl_current P (m, s)) = Inr as \<and> as \<noteq> []" using True by auto
    ultimately show ?thesis using b(1) s1(1) s2(2) sm by (intro exI conjI) auto
  next
    case False
    then have c: "\<exists>as. fst (pl_current P (m, s)) = Inr as \<and> as \<noteq> []" by (auto split: sum.splits)
    obtain m'' where m'': "pl_restore P r2 ?cur (m', s1) = (None, m'', s1)"
        "setting m'' = (\<lambda>n. if n \<in> names m' then [] else setting m' n)"
      using restore_resets [OF b(2), of r2 ?cur s1] by blast
    then have "gRecover P lib r2 (m', s1) = (None, m'', s2)"
      using s1(2) s2(1) v False same by (simp add: gRecover_def Let_def)
    then show ?thesis using b(1,3) s1(1) s2(2) m''(2) c sm by (intro exI conjI) auto
  qed
qed

end


section \<open>macOS\<close>

text \<open>What the listing of services looks like: a header, then one service a line, the disabled ones starred.\<close>

definition macHeader :: string where
  "macHeader = ''An asterisk (*) denotes that a network service is disabled.''"

definition starred :: "bool \<Rightarrow> string \<Rightarrow> string" where
  "starred off n = (if off then CHR ''*'' # n else n)"

definition macListing :: "(string \<Rightarrow> bool) \<Rightarrow> string list \<Rightarrow> string" where
  "macListing off ns = Join [CHR 0x0A] (macHeader # map (\<lambda>n. starred (off n) n) ns @ [[]])"

definition serviceName :: "string \<Rightarrow> bool" where
  "serviceName n \<longleftrightarrow> n \<noteq> [] \<and> \<not> isSpace (hd n) \<and> \<not> isSpace (last n) \<and> CHR 0x0A \<notin> set n \<and>
     hd n \<noteq> CHR ''*'' \<and> hd n \<noteq> CHR ''('' \<and> n \<noteq> macHeader"

lemma setEach_targets:
  assumes "\<And>n m. J m \<Longrightarrow> \<exists>x m'. run (cmd n) m = (x, m') \<and> J m' \<and>
      setting m' = (case T n of None \<Rightarrow> setting m | Some k \<Rightarrow> (setting m)(k := v))" and "J m"
  shows "J (setEach run cmd ns m) \<and> setting (setEach run cmd ns m) = (\<lambda>k. if Some k \<in> T ` set ns then v else setting m k)"
  using assms(2)
proof (induction ns arbitrary: m)
  case (Cons n ns)
  obtain x m' where m': "run (cmd n) m = (x, m')" "J m'" "setting m' = (case T n of None \<Rightarrow> setting m | Some k \<Rightarrow> (setting m)(k := v))"
    using assms(1) [OF Cons.prems] by blast
  from Cons.IH [OF m'(2)] m' show ?case by (auto simp: fun_eq_iff split: option.splits)
qed simp

lemma setEach_effect:
  assumes "\<And>n m. J m \<Longrightarrow> \<exists>x m'. run (cmd n) m = (x, m') \<and> J m' \<and>
      setting m' = (if n \<in> A then (setting m)(n := v) else setting m)" and "J m"
  shows "J (setEach run cmd ns m) \<and> setting (setEach run cmd ns m) = (\<lambda>k. if k \<in> set ns \<inter> A then v else setting m k)"
proof -
  let ?T = "\<lambda>n. if n \<in> A then Some n else None"
  have "\<exists>x m'. run (cmd n) m = (x, m') \<and> J m' \<and> setting m' = (case ?T n of None \<Rightarrow> setting m | Some k \<Rightarrow> (setting m)(k := v))"
    if "J m" for n m using assms(1) [OF that, of n] by (cases "n \<in> A") auto
  from setEach_targets [where J = J and run = run and cmd = cmd and setting = setting and T = ?T and v = v and ns = ns, OF this assms(2)] show ?thesis
    by (simp add: image_iff fun_eq_iff)
qed

locale mac_tool = addr_lib lib for lib :: "'a netip" +
  fixes run :: "'m runner" and ok :: "'m \<Rightarrow> bool" and services :: "'m \<Rightarrow> string list"
    and disabled :: "'m \<Rightarrow> string \<Rightarrow> bool" and setting :: "'m \<Rightarrow> string \<Rightarrow> 'a list"
  assumes list_services: "ok m \<Longrightarrow>
      run [''networksetup'', ''-listallnetworkservices''] m = (Inr (macListing (disabled m) (services m)), m)"
    and service_names: "ok m \<Longrightarrow> n \<in> set (services m) \<Longrightarrow> serviceName n"
    and set_servers: "ok m \<Longrightarrow> n \<in> set (services m) \<Longrightarrow>
      \<exists>out m'. run (macSetCmd lib servers n) m = (Inr out, m') \<and> ok m' \<and> services m' = services m \<and>
        disabled m' = disabled m \<and> setting m' = (setting m)(n := servers)"
    and set_empty: "ok m \<Longrightarrow> n \<in> set (services m) \<Longrightarrow>
      \<exists>out m'. run (macResetCmd n) m = (Inr out, m') \<and> ok m' \<and> services m' = services m \<and>
        disabled m' = disabled m \<and> setting m' = (setting m)(n := [])"
    and unknown_service: "ok m \<Longrightarrow> n \<notin> set (services m) \<Longrightarrow> verb \<in> {''-setdnsservers'', ''-getdnsservers''} \<Longrightarrow>
      \<exists>e. run ([''networksetup'', verb, n] @ args) m = (Inl e, m)"
    and scutil_reads: "ok m \<Longrightarrow>
      \<exists>x. run [''scutil'', ''-c'', ''show State:/Network/Global/DNS''] m = (x, m) \<and> (\<forall>out. x = Inr out \<longrightarrow> ascii out)"
begin

definition managed :: "'m \<Rightarrow> string set" where
  "managed m = {n \<in> set (services m). \<not> disabled m n \<and> \<not> isPPP n}"

lemma services_parsed:
  assumes "ok m"
  shows "getNetworkServices run m = (Inr (macHeader # map (\<lambda>n. starred (disabled m n) n) (services m)), m)"
proof -
  let ?f = "\<lambda>n. starred (disabled m n) n"
  have star: "\<not> isSpace (CHR ''*'')" by (simp add: isSpace_def)
  have n: "CHR 0x0A \<notin> set (?f n)" "TrimSpace (?f n) = ?f n" "?f n \<noteq> []" "\<not> HasPrefix (?f n) ''(''"
    if "n \<in> set (services m)" for n
    using service_names [OF assms that] star by (auto simp: serviceName_def starred_def HasPrefix_iff intro!: TrimSpace_id)
  have h: "CHR 0x0A \<notin> set macHeader" "TrimSpace macHeader = macHeader" "macHeader \<noteq> []" "\<not> HasPrefix macHeader ''(''"
    by (simp_all add: macHeader_def TrimSpace_def isSpace_def HasPrefix_def)
  have "Split (CHR 0x0A) (macListing (disabled m) (services m)) = macHeader # map ?f (services m) @ [[]]"
    unfolding macListing_def using n h by (intro Split_Join) auto
  moreover have t: "map (TrimSpace \<circ> ?f) (services m) = map ?f (services m)" using n by simp
  have "filter (\<lambda>line. line \<noteq> [] \<and> \<not> HasPrefix line ''('') (map (TrimSpace \<circ> ?f) (services m)) = map ?f (services m)"
    unfolding t using n by (auto simp: filter_id_conv)
  ultimately show ?thesis using h list_services [OF assms]
    by (simp add: getNetworkServices_def TrimSpace_def [of "[]"])
qed

lemma managed_parsed:
  assumes "ok m"
  shows "set (filter (\<lambda>n. \<not> isPPP n) (macHeader # map (\<lambda>n. starred (disabled m n) n) (services m))) \<inter> set (services m) = managed m"
proof -
  have s: "CHR ''*'' # n \<notin> set (services m)" "macHeader \<notin> set (services m)" for n
    using service_names [OF assms, of "CHR ''*'' # n"] service_names [OF assms, of macHeader] by (auto simp: serviceName_def)
  then show ?thesis by (auto simp: managed_def starred_def split: if_splits)
qed

lemma each_service:
  assumes "ok m" and "\<And>m n. ok m \<Longrightarrow> n \<in> set (services m) \<Longrightarrow>
      \<exists>out m'. run (cmd n) m = (Inr out, m') \<and> ok m' \<and> services m' = services m \<and>
        disabled m' = disabled m \<and> setting m' = (setting m)(n := v)"
    and "\<And>m n. ok m \<Longrightarrow> n \<notin> set (services m) \<Longrightarrow> \<exists>e. run (cmd n) m = (Inl e, m)"
  shows "\<exists>m'. setEach run cmd (filter (\<lambda>n. \<not> isPPP n) (macHeader # map (\<lambda>n. starred (disabled m n) n) (services m))) m = m' \<and>
     ok m' \<and> managed m' = managed m \<and> setting m' = (\<lambda>n. if n \<in> managed m then v else setting m n)"
proof -
  let ?J = "\<lambda>m'. ok m' \<and> services m' = services m \<and> disabled m' = disabled m"
  have "\<exists>x m2. run (cmd n) m1 = (x, m2) \<and> ?J m2 \<and>
      setting m2 = (if n \<in> set (services m) then (setting m1)(n := v) else setting m1)" if "?J m1" for n m1
    using that assms(2,3) [of m1 n] by (cases "n \<in> set (services m)") auto
  note e = setEach_effect [of ?J run cmd setting "set (services m)" v m
      "filter (\<lambda>n. \<not> isPPP n) (macHeader # map (\<lambda>n. starred (disabled m n) n) (services m))", OF this]
  from e [unfolded managed_parsed [OF assms(1)]] assms(1) show ?thesis
    by (simp add: managed_def del: filter.simps list.map)
qed

sublocale mac: managed_platform "darwinPlatform run lib" ok managed setting "\<lambda>servers. servers \<noteq> []"
proof
  fix m servers r s
  assume ok: "ok m"
  have u: "ok m \<Longrightarrow> n \<notin> set (services m) \<Longrightarrow> \<exists>e. run (macSetCmd lib servers n) m = (Inl e, m)"
    "ok m \<Longrightarrow> n \<notin> set (services m) \<Longrightarrow> \<exists>e. run (macResetCmd n) m = (Inl e, m)" for n m
    using unknown_service [of m n "''-setdnsservers''"] by (simp_all add: macSetCmd_def macResetCmd_def)
  show "servers \<noteq> [] \<Longrightarrow> \<exists>m'. pl_apply (darwinPlatform run lib) r servers (m, s) = (None, m', s) \<and> ok m' \<and>
      managed m' = managed m \<and> setting m' = (\<lambda>n. if n \<in> managed m then servers else setting m n)"
    using each_service [of m "macSetCmd lib servers" servers, OF ok set_servers u(1)]
    by (simp add: darwinPlatform_def onMachine_def darwin_apply_def services_parsed [OF ok])
  show "\<exists>m'. pl_restore (darwinPlatform run lib) r servers (m, s) = (None, m', s) \<and> ok m' \<and>
      managed m' = managed m \<and> setting m' = (\<lambda>n. if n \<in> managed m then [] else setting m n)"
    using each_service [of m macResetCmd "[]", OF ok set_empty u(2)]
    by (simp add: darwinPlatform_def onMachine_def darwin_restore_def services_parsed [OF ok])
  have "macHeader \<notin> set (services m)" using service_names [OF ok] by (auto simp: serviceName_def)
  then obtain e where "run [''networksetup'', ''-getdnsservers'', macHeader] m = (Inl e, m)"
    using unknown_service [OF ok, of macHeader "''-getdnsservers''" "[]"] by auto
  then show "\<exists>c. pl_current (darwinPlatform run lib) (m, s) = (c, m, s)"
    by (simp add: darwinPlatform_def onMachine_def darwin_current_def services_parsed [OF ok])
  show "\<exists>x. pl_capture (darwinPlatform run lib) (m, s) = (x, m, s) \<and> ascii x"
    using scutil_reads [OF ok] by (auto simp: darwinPlatform_def onMachine_def darwin_capture_def ascii_def split: sum.split)
qed simp

text \<open>The header is taken for the first service, so the current servers are never known.\<close>

lemma current_unknown:
  assumes "ok m"
  shows "\<exists>e. fst (pl_current (darwinPlatform run lib) (m, s)) = Inl e"
proof -
  have "macHeader \<notin> set (services m)" using service_names [OF assms] by (auto simp: serviceName_def)
  then obtain e where "run [''networksetup'', ''-getdnsservers'', macHeader] m = (Inl e, m)"
    using unknown_service [OF assms, of macHeader "''-getdnsservers''" "[]"] by auto
  then show ?thesis by (simp add: darwinPlatform_def onMachine_def darwin_current_def services_parsed [OF assms])
qed

lemma restore_and_crash:
  assumes "ok m" and "servers \<noteq> []" and "markerReady r s" and "rv_dataDir r2 = rv_dataDir r"
  shows "\<exists>r' m' s'. gApply (darwinPlatform run lib) lib now servers r (m, s) = (None, r', m', s') \<and>
     (\<forall>n\<in>set (services m). \<not> disabled m n \<and> \<not> isPPP n \<longrightarrow> setting m' n = servers) \<and>
     (\<exists>m'' s''. gRestore (darwinPlatform run lib) lib fallback r' (m', s') = (None, r'\<lparr>rv_backup := None\<rparr>, m'', s'') \<and>
        (\<forall>n\<in>set (services m). \<not> disabled m n \<and> \<not> isPPP n \<longrightarrow> setting m'' n = [])) \<and>
     (\<exists>m'' s''. gRecover (darwinPlatform run lib) lib r2 (m', s') = (None, m'', s'') \<and>
        node_at s'' (markerPath r) = None \<and> setting m'' = setting m')"
proof -
  obtain r' m' s' m1 s1 where r: "gApply (darwinPlatform run lib) lib now servers r (m, s) = (None, r', m', s')"
      "gRestore (darwinPlatform run lib) lib fallback r' (m', s') = (None, r'\<lparr>rv_backup := None\<rparr>, m1, s1)"
      "\<And>n. setting m' n = (if n \<in> managed m then servers else setting m n)"
      "\<And>n. setting m1 n = (if n \<in> managed m then [] else setting m n)"
    using mac.apply_then_restore [OF assms(1,2), of lib now r s fallback] by blast
  obtain e where "fst (pl_current (darwinPlatform run lib) (m, s)) = Inl e" using current_unknown [OF assms(1)] by blast
  with mac.apply_then_crash [OF assms(1-3) addr_lib_axioms assms(4), of now] r(1) obtain m2 s2 where
    "gRecover (darwinPlatform run lib) lib r2 (m', s') = (None, m2, s2)" "node_at s2 (markerPath r) = None"
    "setting m2 = setting m'"
    by (auto simp: fun_eq_iff)
  then have crash: "\<exists>m'' s''. gRecover (darwinPlatform run lib) lib r2 (m', s') = (None, m'', s'') \<and>
      node_at s'' (markerPath r) = None \<and> setting m'' = setting m'" by blast
  have each: "\<forall>n\<in>set (services m). \<not> disabled m n \<and> \<not> isPPP n \<longrightarrow> setting m' n = servers"
    "\<forall>n\<in>set (services m). \<not> disabled m n \<and> \<not> isPPP n \<longrightarrow> setting m1 n = []"
    using r(3,4) by (auto simp: managed_def)
  show ?thesis using r(1,2) each crash by blast
qed

end

section \<open>Windows\<close>

text \<open>Fields do not depend on the space around a line, and contain none.\<close>

lemma fields_acc_spaces: "\<forall>c\<in>set w. isSpace c \<Longrightarrow> fields_acc acc (s @ w) = fields_acc acc s"
proof (induction acc s rule: fields_acc.induct)
  case (1 acc)
  show ?case using 1 by (induction w arbitrary: acc) simp_all
qed simp_all

lemma Fields_TrimSpace: "Fields (TrimSpace s) = Fields s"
proof -
  have l: "fields_acc [] (dropWhile isSpace t) = fields_acc [] t" for t by (induction t) simp_all
  let ?t = "dropWhile isSpace s"
  have "?t = TrimSpace s @ rev (takeWhile isSpace (rev ?t))"
    unfolding TrimSpace_def rev_append [symmetric] takeWhile_dropWhile_id by simp
  moreover have "\<forall>c\<in>set (rev (takeWhile isSpace (rev ?t))). isSpace c" by (auto dest: set_takeWhileD)
  ultimately have "fields_acc [] ?t = fields_acc [] (TrimSpace s)" by (metis fields_acc_spaces)
  then show ?thesis using l [of s] by (simp add: Fields_def)
qed

lemma fields_acc_plain_words:
  "x \<in> set (fields_acc acc s) \<Longrightarrow> \<forall>c\<in>set acc. \<not> isSpace c \<Longrightarrow> c \<in> set x \<Longrightarrow> \<not> isSpace c"
  by (induction acc s rule: fields_acc.induct) (auto split: if_splits)

lemma Fields_plain: "x \<in> set (Fields s) \<Longrightarrow> c \<in> set x \<Longrightarrow> \<not> isSpace c"
  unfolding Fields_def using fields_acc_plain_words [of x "[]" s c] by simp

lemma Fields_word:
  assumes "n \<noteq> []" and "\<forall>c\<in>set n. \<not> isSpace c"
  shows "Fields n = [n]"
  using fields_acc_plain [of n "[]" "[]"] assms by (simp add: Fields_def)

text \<open>The listing of interfaces: an empty line, a header, a rule, and a row per interface, whose last column is the
  interface's name.\<close>

definition winHeader :: "string list" where
  "winHeader = [[], ''Admin State    State          Type             Interface Name'', replicate 73 (CHR ''-'')]"

definition winListing :: "string list \<Rightarrow> string" where
  "winListing rows = Join [CHR 0x0A] (map (\<lambda>line. line @ [CHR 0x0D]) (winHeader @ rows) @ [[]])"

text \<open>\<open>netsh\<close> takes the name of an interface, in any case, or its index; \<open>target\<close> is the interface that an argument
  addresses. Only addresses for which \<open>v4\<close> holds are accepted, since \<open>interface ip\<close> is the context of IPv4. All interfaces
  are enabled, and a setting is made whatever exit status the command returns with it, since it also checks the server.\<close>

definition isNumber :: "string \<Rightarrow> bool" where
  "isNumber x \<longleftrightarrow> x \<noteq> [] \<and> list_all isDigit x"

locale win_tool = addr_lib lib for lib :: "'a netip" +
  fixes run :: "'m runner" and ok :: "'m \<Rightarrow> bool" and ifaces :: "'m \<Rightarrow> string list"
    and row :: "'m \<Rightarrow> string \<Rightarrow> string" and target :: "'m \<Rightarrow> string \<Rightarrow> string option" and v4 :: "'a \<Rightarrow> bool"
    and setting :: "'m \<Rightarrow> string \<Rightarrow> 'a list"
  assumes list_interfaces: "ok m \<Longrightarrow>
      run [''netsh'', ''interface'', ''show'', ''interface''] m = (Inr (winListing (map (row m) (ifaces m))), m)"
    and some_interface: "ok m \<Longrightarrow> ifaces m \<noteq> []"
    and interface_row: "ok m \<Longrightarrow> n \<in> set (ifaces m) \<Longrightarrow> CHR 0x0A \<notin> set (row m n) \<and> n \<noteq> [] \<and> Fields n \<noteq> [] \<and>
      (\<exists>admin state kind. Fields (row m n) = [admin, state, kind] @ Fields n \<and> admin = ''Enabled'')"
    and target_listed: "ok m \<Longrightarrow> target m x = Some n \<Longrightarrow> n \<in> set (ifaces m)"
    and target_name: "ok m \<Longrightarrow> \<not> isNumber x \<Longrightarrow> x \<in> set (ifaces m) \<Longrightarrow> target m x = Some x"
    and target_word: "ok m \<Longrightarrow> \<not> isNumber x \<Longrightarrow> target m x = Some n \<Longrightarrow> ToLower n = ToLower x"
    and set_server: "ok m \<Longrightarrow> v4 a \<Longrightarrow> target m x = Some n \<Longrightarrow>
      \<exists>y m'. run (winSetCmd lib [a] x) m = (y, m') \<and> ok m' \<and> ifaces m' = ifaces m \<and> target m' = target m \<and>
        setting m' = (setting m)(n := [a])"
    and set_dhcp: "ok m \<Longrightarrow> target m x = Some n \<Longrightarrow>
      \<exists>y m'. run (winResetCmd x) m = (y, m') \<and> ok m' \<and> ifaces m' = ifaces m \<and> target m' = target m \<and>
        setting m' = (setting m)(n := [])"
    and no_interface: "ok m \<Longrightarrow> target m x = None \<Longrightarrow>
      \<exists>e. run ([''netsh'', ''interface'', ''ip'', ''set'', ''dnsservers'', ''name='' @ x, source] @ args) m = (Inl e, m)"
    and show_reads: "ok m \<Longrightarrow>
      \<exists>x. run [''netsh'', ''interface'', ''ip'', ''show'', ''dns'', n] m = (x, m) \<and> (\<forall>out. x = Inr out \<longrightarrow> ascii out)"
begin

definition reached :: "'m \<Rightarrow> string set" where
  "reached m = {n. \<exists>k\<in>set (ifaces m). target m (last (Fields k)) = Some n}"

lemma row_name:
  assumes "ok m" and "n \<in> set (ifaces m)"
  shows "interfaceName (row m n @ [CHR 0x0D]) = Some (last (Fields n))"
proof -
  let ?line = "TrimSpace (row m n @ [CHR 0x0D])"
  obtain admin state kind where f: "Fields (row m n) = [admin, state, kind] @ Fields n" "admin = ''Enabled''"
      "Fields n \<noteq> []"
    using interface_row [OF assms] by blast
  have l: "Fields ?line = [admin, state, kind] @ Fields n"
    unfolding Fields_TrimSpace using f(1) fields_acc_spaces [of "[CHR 0x0D]" "[]" "row m n"] by (simp add: Fields_def isSpace_def)
  have "\<not> HasPrefix ?line ''Admin State''"
  proof
    assume "HasPrefix ?line ''Admin State''"
    then obtain x where "?line = ''Admin'' @ CHR 0x20 # (''State'' @ x)" by (auto simp: HasPrefix_iff)
    then have "hd (Fields ?line) = ''Admin''" by (simp add: Fields_def isSpace_def)
    with l f(2) show False by auto
  qed
  moreover have "?line \<noteq> []" using l by (auto simp: Fields_def)
  moreover have "4 \<le> length (Fields ?line)" using l f(3) by (cases "Fields n") simp_all
  ultimately show ?thesis unfolding interfaceName_def Let_def using l f(3) by simp
qed

lemma interfaces_parsed:
  assumes "ok m"
  shows "getNetworkInterfaces run m = (Inr (map (\<lambda>n. last (Fields n)) (ifaces m)), m)"
proof -
  let ?cr = "\<lambda>line. line @ [CHR 0x0D]"
  have h: "List.map_filter interfaceName (map ?cr winHeader @ xs) = List.map_filter interfaceName xs"
      "\<forall>l\<in>set winHeader. CHR 0x0A \<notin> set l" for xs
  proof -
    have "interfaceName (?cr []) = None" by (simp add: interfaceName_def TrimSpace_def isSpace_def)
    moreover have "interfaceName (?cr ''Admin State    State          Type             Interface Name'') = None"
      by (simp add: interfaceName_def TrimSpace_def isSpace_def Let_def)
    moreover have "interfaceName (?cr (replicate 73 (CHR ''-''))) = None"
    proof -
      let ?d = "replicate 73 (CHR ''-'')"
      have "Fields (TrimSpace (?cr ?d)) = [?d]"
        unfolding Fields_TrimSpace using fields_acc_spaces [of "[CHR 0x0D]" "[]" ?d] Fields_word [of ?d]
        by (simp add: Fields_def isSpace_def)
      then show ?thesis by (simp add: interfaceName_def Let_def)
    qed
    ultimately show "List.map_filter interfaceName (map ?cr winHeader @ xs) = List.map_filter interfaceName xs"
      by (simp add: winHeader_def List.map_filter_def)
  qed (auto simp: winHeader_def)
  have "Split (CHR 0x0A) (winListing (map (row m) (ifaces m))) = map ?cr (winHeader @ map (row m) (ifaces m)) @ [[]]"
    unfolding winListing_def using h(2) interface_row [OF assms] by (intro Split_Join) auto
  moreover have "List.map_filter interfaceName (map ?cr (map (row m) (ifaces m)) @ [[]]) = map (\<lambda>n. last (Fields n)) (ifaces m)"
    using row_name [OF assms] by (simp add: List.map_filter_def comp_def interfaceName_def [of "[]"] TrimSpace_def cong: filter_cong)
  ultimately show ?thesis using list_interfaces [OF assms] h(1) by (simp add: getNetworkInterfaces_def)
qed

lemma each_interface:
  assumes "ok m" and "\<And>m x n. ok m \<Longrightarrow> target m x = Some n \<Longrightarrow>
      \<exists>y m'. run (cmd x) m = (y, m') \<and> ok m' \<and> ifaces m' = ifaces m \<and> target m' = target m \<and> setting m' = (setting m)(n := v)"
    and "\<And>m x. ok m \<Longrightarrow> target m x = None \<Longrightarrow> \<exists>e. run (cmd x) m = (Inl e, m)"
  shows "\<exists>m'. setEach run cmd (map (\<lambda>n. last (Fields n)) (ifaces m)) m = m' \<and>
     ok m' \<and> reached m' = reached m \<and> setting m' = (\<lambda>n. if n \<in> reached m then v else setting m n)"
proof -
  let ?J = "\<lambda>m'. ok m' \<and> ifaces m' = ifaces m \<and> target m' = target m"
  have "\<exists>y m2. run (cmd x) m1 = (y, m2) \<and> ?J m2 \<and>
      setting m2 = (case target m x of None \<Rightarrow> setting m1 | Some k \<Rightarrow> (setting m1)(k := v))" if "?J m1" for x m1
    using that assms(2,3) [of m1 x] by (cases "target m x") auto
  from setEach_targets [where J = ?J and run = run and cmd = cmd and setting = setting and T = "target m" and v = v and m = m
      and ns = "map (\<lambda>n. last (Fields n)) (ifaces m)", OF this] assms(1)
  have e: "?J (setEach run cmd (map (\<lambda>n. last (Fields n)) (ifaces m)) m) \<and>
      setting (setEach run cmd (map (\<lambda>n. last (Fields n)) (ifaces m)) m) =
      (\<lambda>k. if Some k \<in> target m ` set (map (\<lambda>n. last (Fields n)) (ifaces m)) then v else setting m k)" by simp
  have "Some k \<in> target m ` set (map (\<lambda>n. last (Fields n)) (ifaces m)) \<longleftrightarrow> k \<in> reached m" for k
    unfolding reached_def by (auto simp: image_iff) (metis)+
  with e show ?thesis by (simp add: reached_def)
qed

sublocale win: managed_platform "windowsPlatform run lib" ok reached setting "\<lambda>servers. \<exists>a. v4 a \<and> servers = [a]"
proof
  fix m servers r s
  assume ok: "ok m"
  have u: "ok m \<Longrightarrow> target m x = None \<Longrightarrow> \<exists>e. run (winSetCmd lib [a] x) m = (Inl e, m)"
    "ok m \<Longrightarrow> target m x = None \<Longrightarrow> \<exists>e. run (winResetCmd x) m = (Inl e, m)" for x m a
    using no_interface [of m x "''static''" "[addrString lib a]"] no_interface [of m x "''dhcp''" "[]"]
    by (simp_all add: winSetCmd_def winResetCmd_def)
  show "\<exists>m'. pl_apply (windowsPlatform run lib) r servers (m, s) = (None, m', s) \<and> ok m' \<and>
      reached m' = reached m \<and> setting m' = (\<lambda>n. if n \<in> reached m then servers else setting m n)" if "\<exists>a. v4 a \<and> servers = [a]"
  proof -
    from that obtain a where a: "servers = [a]" "v4 a" by blast
    obtain m' where "setEach run (winSetCmd lib [a]) (map (\<lambda>n. last (Fields n)) (ifaces m)) m = m'"
        "ok m' \<and> reached m' = reached m \<and> setting m' = (\<lambda>n. if n \<in> reached m then [a] else setting m n)"
      using each_interface [of m "winSetCmd lib [a]" "[a]", OF ok set_server [OF _ a(2)] u(1)] by blast
    moreover from this have "pl_apply (windowsPlatform run lib) r servers (m, s) = (None, m', s)"
      using some_interface [OF ok] by (simp add: windowsPlatform_def onMachine_def windows_apply_def interfaces_parsed [OF ok] a(1))
    ultimately show ?thesis unfolding a(1) by blast
  qed
  show "\<exists>m'. pl_restore (windowsPlatform run lib) r servers (m, s) = (None, m', s) \<and> ok m' \<and>
      reached m' = reached m \<and> setting m' = (\<lambda>n. if n \<in> reached m then [] else setting m n)"
  proof -
    obtain m' where "setEach run winResetCmd (map (\<lambda>n. last (Fields n)) (ifaces m)) m = m'"
        "ok m' \<and> reached m' = reached m \<and> setting m' = (\<lambda>n. if n \<in> reached m then [] else setting m n)"
      using each_interface [of m winResetCmd "[]", OF ok set_dhcp u(2)] by blast
    moreover from this have "pl_restore (windowsPlatform run lib) r servers (m, s) = (None, m', s)"
      by (simp add: windowsPlatform_def onMachine_def windows_restore_def interfaces_parsed [OF ok])
    ultimately show ?thesis by blast
  qed
  obtain n ns where n: "map (\<lambda>n. last (Fields n)) (ifaces m) = n # ns" using some_interface [OF ok] by (cases "ifaces m") auto
  obtain x where "run [''netsh'', ''interface'', ''ip'', ''show'', ''dns'', n] m = (x, m)" using show_reads [OF ok] by blast
  then show "\<exists>c. pl_current (windowsPlatform run lib) (m, s) = (c, m, s)"
    by (cases x) (simp_all add: windowsPlatform_def onMachine_def windows_current_def interfaces_parsed [OF ok] n Let_def)
  show "\<exists>x. pl_capture (windowsPlatform run lib) (m, s) = (x, m, s) \<and> ascii x"
    using show_reads [OF ok, of "''all''"]
    by (auto simp: windowsPlatform_def onMachine_def windows_capture_def ascii_def split: sum.split)
qed auto

lemma lowerByte_space: "isSpace (lowerByte c) = isSpace c"
proof (cases "65 \<le> (of_char c :: nat) \<and> of_char c \<le> (90 :: nat)")
  case True
  then have "of_char (lowerByte c) = of_char c + (32 :: nat)" by (simp add: lowerByte_def Let_def)
  with True show ?thesis by (simp add: isSpace_def)
qed (auto simp: lowerByte_def Let_def)

lemma ToLower_space:
  assumes "ToLower s = ToLower t" and "c \<in> set s" "isSpace c"
  shows "\<exists>c\<in>set t. isSpace c"
proof -
  have "lowerByte c \<in> set (ToLower t)" using assms(1,2) by (metis ToLower_def image_eqI set_map)
  then obtain d where "d \<in> set t" "lowerByte c = lowerByte d" by (auto simp: ToLower_def)
  with assms(3) show ?thesis using lowerByte_space by metis
qed

text \<open>Interfaces with a word for a name are reached, interfaces with a space are not, numbers apart.\<close>

lemma reached_word:
  assumes "ok m" and "n \<in> set (ifaces m)" and "\<forall>c\<in>set n. \<not> isSpace c" and "\<not> isNumber n"
  shows "n \<in> reached m"
proof -
  have "last (Fields n) = n" using assms(3) Fields_word interface_row [OF assms(1,2)] by simp
  moreover have "target m n = Some n" using target_name [OF assms(1,4)] assms(2) by simp
  ultimately show ?thesis unfolding reached_def using assms(2) by (intro CollectI bexI [of _ n]) simp_all
qed

lemma not_reached:
  assumes "ok m" and "c \<in> set n" "isSpace c" and "\<forall>k\<in>set (ifaces m). \<not> isNumber (last (Fields k))"
  shows "n \<notin> reached m"
proof
  assume "n \<in> reached m"
  then obtain k where k: "k \<in> set (ifaces m)" "target m (last (Fields k)) = Some n" by (auto simp: reached_def)
  with assms(4) target_word [OF assms(1)] have l: "ToLower n = ToLower (last (Fields k))" by blast
  have "last (Fields k) \<in> set (Fields k)" using interface_row [OF assms(1) k(1)] by simp
  then have "\<not> isSpace c'" if "c' \<in> set (last (Fields k))" for c' using Fields_plain that by blast
  with l assms(2,3) show False using ToLower_space by metis
qed

lemma restore_interfaces:
  assumes "ok m" and "v4 a"
  shows "\<exists>r' m' s' m'' s''. gApply (windowsPlatform run lib) lib now [a] r (m, s) = (None, r', m', s') \<and>
     gRestore (windowsPlatform run lib) lib fallback r' (m', s') = (None, r'\<lparr>rv_backup := None\<rparr>, m'', s'') \<and>
     (\<forall>n. if \<exists>k\<in>set (ifaces m). target m (last (Fields k)) = Some n then setting m' n = [a] \<and> setting m'' n = []
          else setting m' n = setting m n \<and> setting m'' n = setting m n) \<and>
     (\<forall>n\<in>set (ifaces m).
        ((\<forall>c\<in>set n. \<not> isSpace c) \<and> \<not> isNumber n \<longrightarrow> setting m' n = [a] \<and> setting m'' n = []) \<and>
        ((\<exists>c\<in>set n. isSpace c) \<and> (\<forall>k\<in>set (ifaces m). \<not> isNumber (last (Fields k))) \<longrightarrow>
           setting m' n = setting m n \<and> setting m'' n = setting m n))"
proof -
  obtain r' m' s' m'' s'' where e: "gApply (windowsPlatform run lib) lib now [a] r (m, s) = (None, r', m', s')"
    "gRestore (windowsPlatform run lib) lib fallback r' (m', s') = (None, r'\<lparr>rv_backup := None\<rparr>, m'', s'')"
    "\<forall>n. setting m' n = (if n \<in> reached m then [a] else setting m n)" "\<forall>n. setting m'' n = (if n \<in> reached m then [] else setting m n)"
    using win.apply_then_restore [OF assms(1), of "[a]" lib now r s fallback] assms(2) by blast
  have "(\<exists>k\<in>set (ifaces m). target m (last (Fields k)) = Some n) = (n \<in> reached m)" for n by (simp add: reached_def)
  with e reached_word [OF assms(1)] not_reached [OF assms(1)] show ?thesis
    by (intro exI [of _ r'] exI [of _ m'] exI [of _ s'] exI [of _ m''] exI [of _ s'']) auto
qed

end

section \<open>Machines\<close>

text \<open>Executable machines on which the laws hold: the settings as a map, the tools as functions on it.\<close>

record machine =
  ma_names :: "string list"
  ma_off :: "string list"
  ma_dns :: "(string, ipv4 list) gomap"

definition ma_setting :: "machine \<Rightarrow> string \<Rightarrow> ipv4 list" where
  "ma_setting m n = (case get (ma_dns m) n of None \<Rightarrow> [] | Some as \<Rightarrow> as)"

definition ma_set :: "string \<Rightarrow> string list \<Rightarrow> machine \<Rightarrow> machine" where
  "ma_set n texts m = m\<lparr>ma_dns := put n (List.map_filter ParseIPv4 texts) (ma_dns m)\<rparr>"

definition macRun :: "machine runner" where
  "macRun cmd m =
     (case cmd of
        [_, _] \<Rightarrow> (Inr (macListing (\<lambda>n. n \<in> set (ma_off m)) (ma_names m)), m)
      | _ # verb # n # texts \<Rightarrow>
          if verb = ''-c'' then (Inr [], m)
          else if n \<notin> set (ma_names m) then (Inl (Errorf ''exit status 4''), m)
          else if verb = ''-setdnsservers'' then (Inr [], ma_set n texts m) else (Inr [], m)
      | _ \<Rightarrow> (Inl (Errorf ''exit status 1''), m))"

definition macOk :: "machine \<Rightarrow> bool" where
  "macOk m \<longleftrightarrow> list_all serviceName (ma_names m)"

definition winRow :: "string \<Rightarrow> string" where
  "winRow n = ''Enabled        Connected      Dedicated        '' @ n"

text \<open>Indices count from one; a name wins over an index.\<close>

definition winTarget :: "machine \<Rightarrow> string \<Rightarrow> string option" where
  "winTarget m x =
     (if x \<in> set (ma_names m) then Some x
      else if isNumber x \<and> 1 \<le> digitsVal x \<and> digitsVal x \<le> length (ma_names m) then Some (ma_names m ! (digitsVal x - 1))
      else None)"

definition winRun :: "machine runner" where
  "winRun cmd m =
     (case cmd of
        [_, _, _, _] \<Rightarrow> (Inr (winListing (map winRow (ma_names m))), m)
      | [_, _, _, _, _, _] \<Rightarrow> (Inr [], m)
      | _ # _ # _ # _ # _ # n # source # texts \<Rightarrow>
          (case winTarget m (drop 5 n) of None \<Rightarrow> (Inl (Errorf ''exit status 1''), m) | Some k \<Rightarrow> (Inr [], ma_set k texts m))
      | _ \<Rightarrow> (Inl (Errorf ''exit status 1''), m))"

definition winOk :: "machine \<Rightarrow> bool" where
  "winOk m \<longleftrightarrow> ma_names m \<noteq> [] \<and> list_all (\<lambda>n. Fields n \<noteq> [] \<and> n \<noteq> [] \<and> CHR 0x0A \<notin> set n) (ma_names m)"

lemma ma_set_simps [simp]:
  "ma_names (ma_set n texts m) = ma_names m" "ma_off (ma_set n texts m) = ma_off m"
  "ma_setting (ma_set n texts m) = (ma_setting m)(n := List.map_filter ParseIPv4 texts)"
  by (simp_all add: ma_set_def ma_setting_def fun_eq_iff)

lemma ParseIPv4_map: "List.map_filter ParseIPv4 (map (addrString ipv4Lib) as) = as"
  by (induction as) (simp_all add: List.map_filter_simps ipv4Lib_def ParseIPv4_String del: split_paired_Ex)

lemma not_address: "ParseIPv4 ''Empty'' = None"
  by (simp add: ParseIPv4_def parseOctet_def isDigit_def)

interpretation macsim: mac_tool ipv4Lib macRun macOk ma_names "\<lambda>m n. n \<in> set (ma_off m)" ma_setting
proof
  fix m n verb args servers
  assume ok: "macOk m"
  show "macRun [''networksetup'', ''-listallnetworkservices''] m =
      (Inr (macListing (\<lambda>n. n \<in> set (ma_off m)) (ma_names m)), m)" by (simp add: macRun_def)
  show "n \<in> set (ma_names m) \<Longrightarrow> serviceName n" using ok by (simp add: macOk_def list_all_iff)
  show "n \<in> set (ma_names m) \<Longrightarrow> \<exists>out m'. macRun (macSetCmd ipv4Lib servers n) m = (Inr out, m') \<and> macOk m' \<and>
      ma_names m' = ma_names m \<and> (\<lambda>n. n \<in> set (ma_off m')) = (\<lambda>n. n \<in> set (ma_off m)) \<and>
      ma_setting m' = (ma_setting m)(n := servers)"
    using ok by (simp add: macRun_def macSetCmd_def macOk_def ParseIPv4_map)
  show "n \<in> set (ma_names m) \<Longrightarrow> \<exists>out m'. macRun (macResetCmd n) m = (Inr out, m') \<and> macOk m' \<and>
      ma_names m' = ma_names m \<and> (\<lambda>n. n \<in> set (ma_off m')) = (\<lambda>n. n \<in> set (ma_off m)) \<and>
      ma_setting m' = (ma_setting m)(n := [])"
    using ok by (simp add: macRun_def macResetCmd_def macOk_def List.map_filter_simps not_address)
  show "n \<notin> set (ma_names m) \<Longrightarrow> verb \<in> {''-setdnsservers'', ''-getdnsservers''} \<Longrightarrow>
      \<exists>e. macRun ([''networksetup'', verb, n] @ args) m = (Inl e, m)" by (auto simp: macRun_def)
  show "\<exists>x. macRun [''scutil'', ''-c'', ''show State:/Network/Global/DNS''] m = (x, m) \<and> (\<forall>out. x = Inr out \<longrightarrow> ascii out)"
    by (simp add: macRun_def ascii_def)
qed

interpretation winsim: win_tool ipv4Lib winRun winOk ma_names "\<lambda>m. winRow" winTarget "\<lambda>_. True" ma_setting
proof
  fix m n x a args source
  assume ok: "winOk m"
  show "winRun [''netsh'', ''interface'', ''show'', ''interface''] m = (Inr (winListing (map winRow (ma_names m))), m)"
    by (simp add: winRun_def)
  show "ma_names m \<noteq> []" using ok by (simp add: winOk_def)
  have "Fields (winRow n) = [''Enabled'', ''Connected'', ''Dedicated''] @ Fields n"
    by (simp add: winRow_def Fields_def isSpace_def)
  then show "n \<in> set (ma_names m) \<Longrightarrow> CHR 0x0A \<notin> set (winRow n) \<and> n \<noteq> [] \<and> Fields n \<noteq> [] \<and>
      (\<exists>admin state kind. Fields (winRow n) = [admin, state, kind] @ Fields n \<and> admin = ''Enabled'')"
    using ok by (simp add: winOk_def list_all_iff) (simp add: winRow_def)
  show "winTarget m x = Some n \<Longrightarrow> n \<in> set (ma_names m)"
    by (auto simp: winTarget_def split: if_splits)
  show "\<not> isNumber x \<Longrightarrow> x \<in> set (ma_names m) \<Longrightarrow> winTarget m x = Some x" by (simp add: winTarget_def)
  show "\<not> isNumber x \<Longrightarrow> winTarget m x = Some n \<Longrightarrow> ToLower n = ToLower x" by (simp add: winTarget_def split: if_splits)
  have t: "winTarget (ma_set k texts m) = winTarget m" for k texts by (simp add: winTarget_def fun_eq_iff)
  show "winTarget m x = Some n \<Longrightarrow> \<exists>y m'. winRun (winSetCmd ipv4Lib [a] x) m = (y, m') \<and> winOk m' \<and>
      ma_names m' = ma_names m \<and> winTarget m' = winTarget m \<and> ma_setting m' = (ma_setting m)(n := [a])"
    using ok ParseIPv4_map [of "[a]"] by (simp add: winRun_def winSetCmd_def winOk_def t)
  show "winTarget m x = Some n \<Longrightarrow> \<exists>y m'. winRun (winResetCmd x) m = (y, m') \<and> winOk m' \<and>
      ma_names m' = ma_names m \<and> winTarget m' = winTarget m \<and> ma_setting m' = (ma_setting m)(n := [])"
    using ok by (simp add: winRun_def winResetCmd_def winOk_def List.map_filter_def t)
  show "winTarget m x = None \<Longrightarrow>
      \<exists>e. winRun ([''netsh'', ''interface'', ''ip'', ''set'', ''dnsservers'', ''name='' @ x, source] @ args) m = (Inl e, m)"
    by (simp add: winRun_def)
  show "\<exists>x. winRun [''netsh'', ''interface'', ''ip'', ''show'', ''dns'', n] m = (x, m) \<and> (\<forall>out. x = Inr out \<longrightarrow> ascii out)"
    by (simp add: winRun_def ascii_def)
qed

section \<open>Properties\<close>


text \<open>macOS. The file \<open>sysresolver_darwin.go\<close> does not compile, because of a log call with a string for a field and two unused
  imports; this is about the code with these mended. Applying reports success and gives the servers to every service that is enabled and not PPP. Restoring gives all of
  them back to the network, whatever they had before. When the process dies instead, with the data directory in place and no failing call,
  recovery succeeds and removes the marker, but
  changes nothing: the header of the service list is taken for the first service, so no previous servers were ever recorded, and
  without them the services keep the module's servers for good.\<close>

theorem mac_crash_keeps:
  assumes "mac_tool lib run ok services disabled setting" and "ok m" and "servers \<noteq> []" and "markerReady r s"
    and "rv_dataDir r2 = rv_dataDir r"
  shows "\<exists>r' m' s'. gApply (darwinPlatform run lib) lib now servers r (m, s) = (None, r', m', s') \<and>
     (\<forall>n\<in>set (services m). \<not> disabled m n \<and> \<not> isPPP n \<longrightarrow> setting m' n = servers) \<and>
     (\<exists>m'' s''. gRestore (darwinPlatform run lib) lib fallback r' (m', s') = (None, r'\<lparr>rv_backup := None\<rparr>, m'', s'') \<and>
        (\<forall>n\<in>set (services m). \<not> disabled m n \<and> \<not> isPPP n \<longrightarrow> setting m'' n = [])) \<and>
     (\<exists>m'' s''. gRecover (darwinPlatform run lib) lib r2 (m', s') = (None, m'', s'') \<and>
        node_at s'' (markerPath r) = None \<and> setting m'' = setting m')"
  by (rule mac_tool.restore_and_crash [OF assms])

text \<open>Wi-Fi is interface 1. The name \<open>Ethernet 1\<close> is cut to the index of Wi-Fi, and \<open>Office LAN\<close> to no interface.\<close>

definition office :: machine where
  "office = \<lparr>ma_names = [''Wi-Fi'', ''Ethernet 1'', ''Office LAN''], ma_off = [],
     ma_dns = [(''Wi-Fi'', [(9, 9, 9, 9)]), (''Ethernet 1'', [(9, 9, 9, 9)]), (''Office LAN'', [(9, 9, 9, 9)])]\<rparr>"

lemma office_ok: "winOk office" "macOk office"
  by (simp_all add: winOk_def macOk_def office_def Fields_def isSpace_def serviceName_def macHeader_def)

lemma office_targets: "(\<exists>k\<in>set (ma_names office). winTarget office (last (Fields k)) = Some n) \<longleftrightarrow> n = ''Wi-Fi''"
  by (auto simp: office_def Fields_def isSpace_def winTarget_def isNumber_def isDigit_def digitsVal_def digitVal_def)


theorem mac_crash_keeps_witness:
  "\<exists>r' m' s'. gApply (darwinPlatform macRun ipv4Lib) ipv4Lib 0 [(8, 8, 8, 8)] (NewSysResolver ''/v'') (office, resolvOs) = (None, r', m', s') \<and>
     (\<exists>m'' s''. gRecover (darwinPlatform macRun ipv4Lib) ipv4Lib (NewSysResolver ''/v'') (m', s') = (None, m'', s'') \<and>
        node_at s'' (markerPath (NewSysResolver ''/v'')) = None \<and> ma_setting m'' ''Wi-Fi'' = [(8, 8, 8, 8)])"
proof -
  have n: "''Wi-Fi'' \<in> set (ma_names office)" "''Wi-Fi'' \<notin> set (ma_off office)" by (simp_all add: office_def)
  have p: "\<not> isPPP ''Wi-Fi''" by (simp add: isPPP_def ToLower_def lowerByte_def Let_def)
  have ready: "markerReady (NewSysResolver ''/v'') resolvOs" using resolvOs_ready by (simp add: dnsReady_def markerReady_def)
  show ?thesis
    using mac_crash_keeps [OF macsim.mac_tool_axioms office_ok(2) _ ready, of "[(8, 8, 8, 8)]" "NewSysResolver ''/v''" 0 "(1, 1, 1, 1)"] n p
    by fastforce
qed

end
