(* ===== verification/Plugin_Glue.thy ===== *)
theory Plugin_Glue
  imports Plugin_Adapter
begin

text \<open>
  How a plugin process is started and wired (\<open>pkg/sdk/plugin_glue.go\<close>, \<open>internal/extplugin/plugin_glue.go\<close>, the second half of
  \<open>LoadWithVerifier\<close> and the type \<open>moduleWrapper\<close> of \<open>internal/extplugin/client.go\<close>). The library go-plugin is a parameter:
  what connecting and dispensing return, and the transport of \<open>Plugin_Adapter\<close>. A run of calls on a loaded plugin is a list of calls; the theorems say what the
  plugin's own module has seen of it, and what became of the process.
\<close>

section \<open>The plugin's side\<close>

record HandshakeConfig =
  hk_ProtocolVersion :: nat
  hk_MagicCookieKey :: string
  hk_MagicCookieValue :: string

definition PluginHandshakeConfigMagicCookieKey :: string where
  "PluginHandshakeConfigMagicCookieKey = ''PENGUIN_PLUGIN''"

definition PluginHandshakeConfigMagicCookieValue :: string where
  "PluginHandshakeConfigMagicCookieValue = ''penguin-sdk-v1''"

definition PluginProtocolVersion :: nat where
  "PluginProtocolVersion = 1"

definition HostServiceBrokerID :: nat where
  "HostServiceBrokerID = 1"

text \<open>\<open>Serve\<close>: what is handed to the library, the handshake and the plugins by name.\<close>

definition plugin_Serve :: "('m, 'w) Module \<Rightarrow> HandshakeConfig \<times> (string, ('m, 'w) Module) gomap" where
  "plugin_Serve M =
     (\<lparr>hk_ProtocolVersion = PluginProtocolVersion, hk_MagicCookieKey = PluginHandshakeConfigMagicCookieKey,
       hk_MagicCookieValue = PluginHandshakeConfigMagicCookieValue\<rparr>, [(''module'', M)])"

text \<open>\<open>HostServicesProxy\<close> as the host of the plugin's module.\<close>

definition HostServicesProxy :: "HostClient \<Rightarrow> (Event \<Rightarrow> 'w \<Rightarrow> 'w) \<Rightarrow> 'w HostServices" where
  "HostServicesProxy hc publish =
     \<lparr>h_Config = proxy_Config hc, h_DataDir = proxy_DataDir hc,
      h_SecretsGet = \<lambda>k w. (SecretsProxy_Get hc k, w), h_SecretsSet = \<lambda>k v w. (SecretsProxy_Set hc k v, w),
      h_SecretsDelete = \<lambda>k w. (SecretsProxy_Delete hc k, w), h_FeatureEnabled = \<lambda>k w. (LicenseProxy_FeatureEnabled hc k, w),
      h_Tier = \<lambda>_. LicenseProxy_Tier hc, h_Publish = publish\<rparr>"

text \<open>\<open>GRPCServer\<close> registers the service of the module, which a client then reaches over the transport.\<close>

definition plugin_GRPCServer ::
  "('m, 'w) transport \<Rightarrow> ('m, 'w) Module \<Rightarrow> goerr option \<times> ('m, 'w) ModuleServiceClient" where
  "plugin_GRPCServer T M = (None, grpcClient T M)"

definition plugin_GRPCClient ::
  "(nat \<Rightarrow> goerr + HostClient) \<Rightarrow> (Event \<Rightarrow> 'w \<Rightarrow> 'w) \<Rightarrow> ('m, 'w) Module \<Rightarrow> 'm \<Rightarrow> 'w \<Rightarrow> (goerr + ('m, 'w) Module) \<times> 'm \<times> 'w" where
  "plugin_GRPCClient dial publish M m w =
     (case dial HostServiceBrokerID of Inl e \<Rightarrow> (Inl (Wrapf ''dial host service: '' e []), m, w)
      | Inr hc \<Rightarrow>
          (case m_Init M (Some (HostServicesProxy hc publish)) m w of
             (Some e, m1, w1) \<Rightarrow> (Inl (Wrapf ''init module: '' e []), m1, w1)
           | (None, m1, w1) \<Rightarrow> (Inr M, m1, w1)))"

text \<open>The methods that only satisfy an interface, of both sides.\<close>

definition plugin_Client :: goerr where "plugin_Client = Errorf ''unsupported: use GRPCClient''"
definition plugin_Server :: goerr where "plugin_Server = Errorf ''unsupported: use GRPCServer''"
definition client_Client :: goerr where "client_Client = Errorf ''unsupported: use GRPCClient''"
definition client_Server :: goerr where "client_Server = Errorf ''unsupported: use GRPCServer''"
definition client_GRPCServer :: goerr where "client_GRPCServer = Errorf ''server not used in client plugin''"

section \<open>The daemon's side\<close>

text \<open>\<open>GRPCClient\<close> of \<open>clientModulePlugin\<close>: the host it serves to the plugin and the module it makes of the connection.\<close>

definition client_GRPCClient ::
  "(nat \<Rightarrow> goerr option) \<Rightarrow> 'h \<Rightarrow> ('m, 'w) ModuleServiceClient \<Rightarrow> goerr + ('h \<times> ('m, 'w) Module)" where
  "client_GRPCClient accept host c =
     (case accept 1 of Some e \<Rightarrow> Inl (Wrapf ''failed to accept host service connection: '' e [])
      | None \<Rightarrow> Inr (host, moduleClientAdapter c))"

text \<open>\<open>Log\<close> of \<open>HostServiceImpl\<close>, over the entries of the host's logger, if it has one.\<close>

definition Host_Log :: "string \<Rightarrow> string \<Rightarrow> string \<Rightarrow> (string \<times> string) list option \<Rightarrow> (goerr + unit) \<times> (string \<times> string) list option" where
  "Host_Log v level message logger =
     (case hostv v of Some e \<Rightarrow> (Inl e, logger)
      | None \<Rightarrow>
          (Inr (), map_option (\<lambda>es. if level \<in> {''debug'', ''info'', ''warn'', ''error''} then es @ [(level, message)] else es) logger))"

record pluginProc =
  pc_binary :: path
  pc_running :: bool

definition Kill :: "pluginProc \<Rightarrow> pluginProc" where
  "Kill c = c\<lparr>pc_running := False\<rparr>"

record 'm moduleWrapper =
  mw_mod :: 'm
  mw_client :: pluginProc

text \<open>Starting the process and getting its module: \<open>connect\<close> is \<open>Client\<close>, which ends the process itself when it fails, and
  \<open>dispense\<close> is \<open>Dispense\<close>, whose value may not be a module.\<close>

definition launchPlugin ::
  "(HandshakeConfig \<Rightarrow> path \<Rightarrow> goerr option) \<Rightarrow> (string \<Rightarrow> goerr + 'm option) \<Rightarrow> path \<Rightarrow> (goerr + 'm moduleWrapper) \<times> pluginProc" where
  "launchPlugin connect dispense binaryPath =
     (let h = \<lparr>hk_ProtocolVersion = PluginProtocolVersion, hk_MagicCookieKey = PluginHandshakeConfigMagicCookieKey,
               hk_MagicCookieValue = PluginHandshakeConfigMagicCookieValue\<rparr>
      in case connect h binaryPath of
           Some e \<Rightarrow> (Inl (Wrapf ''connect to plugin: '' e []), \<lparr>pc_binary = binaryPath, pc_running = False\<rparr>)
         | None \<Rightarrow>
             let pluginClient = \<lparr>pc_binary = binaryPath, pc_running = True\<rparr>
             in (case dispense ''module'' of
                   Inl e \<Rightarrow> (Inl (Wrapf ''dispense module: '' e []), Kill pluginClient)
                 | Inr None \<Rightarrow> (Inl (Errorf ''plugin did not return a Module''), Kill pluginClient)
                 | Inr (Some m) \<Rightarrow> (Inr \<lparr>mw_mod = m, mw_client = pluginClient\<rparr>, pluginClient)))"

definition wrapped :: "'m moduleWrapper \<Rightarrow> 'a \<times> 'm \<times> 'w \<Rightarrow> 'a \<times> 'm moduleWrapper \<times> 'w" where
  "wrapped x r = (case r of (a, m', w') \<Rightarrow> (a, x\<lparr>mw_mod := m'\<rparr>, w'))"

definition wrapperModule :: "('m, 'w) Module \<Rightarrow> ('m moduleWrapper, 'w) Module" where
  "wrapperModule M =
     \<lparr>m_Info = \<lambda>x. m_Info M (mw_mod x),
      m_Init = \<lambda>h x w. wrapped x (m_Init M h (mw_mod x) w),
      m_Start = \<lambda>c x w. wrapped x (m_Start M c (mw_mod x) w),
      m_Stop = \<lambda>x w. wrapped x (m_Stop M (mw_mod x) w),
      m_Status = \<lambda>x w. m_Status M (mw_mod x) w,
      m_Health = \<lambda>x w. wrapped x (m_Health M (mw_mod x) w),
      m_Commands = \<lambda>x. m_Commands M (mw_mod x),
      m_Dispatch = \<lambda>p f a x w. wrapped x (m_Dispatch M p f a (mw_mod x) w),
      m_ConfigSchema = \<lambda>x. m_ConfigSchema M (mw_mod x)\<rparr>"

section \<open>Runs of calls\<close>

datatype 'w call = CallInit "'w HostServices option" | CallStart ctx | CallStop | CallHealth
  | CallDispatch "string list" "(string, string) gomap" "string list"

fun invoke :: "('m, 'w) Module \<Rightarrow> 'w call \<Rightarrow> 'm \<times> 'w \<Rightarrow> 'm \<times> 'w" where
  "invoke M (CallInit h) (m, w) = snd (m_Init M h m w)"
| "invoke M (CallStart c) (m, w) = snd (m_Start M c m w)"
| "invoke M CallStop (m, w) = snd (m_Stop M m w)"
| "invoke M CallHealth (m, w) = snd (m_Health M m w)"
| "invoke M (CallDispatch p f a) (m, w) = snd (m_Dispatch M p f a m w)"

definition isInit :: "'w call \<Rightarrow> bool" where
  "isInit c \<longleftrightarrow> (\<exists>h. c = CallInit h)"

lemma wrapper_invoke: "invoke (wrapperModule M) c (x, w) = (case invoke M c (mw_mod x, w) of (m', w') \<Rightarrow> (x\<lparr>mw_mod := m'\<rparr>, w'))"
  by (cases c) (simp_all add: wrapperModule_def wrapped_def split: prod.split)

text \<open>What a call does to the plugin's module over a transport: nothing, if it is not delivered; otherwise the module handles
  it, \<open>Start\<close> under the context of the call, and this context ends.\<close>

fun callName :: "'w call \<Rightarrow> string" where
  "callName (CallInit h) = ''Init''"
| "callName (CallStart c) = ''Start''"
| "callName CallStop = ''Stop''"
| "callName CallHealth = ''Health''"
| "callName (CallDispatch p f a) = ''Dispatch''"

fun underRpc :: "('m, 'w) transport \<Rightarrow> 'w \<Rightarrow> 'w call \<Rightarrow> 'w call" where
  "underRpc T w (CallStart c) = CallStart (tp_ctx T c w)"
| "underRpc T w c = c"

definition overWire :: "('m, 'w) transport \<Rightarrow> ('m, 'w) Module \<Rightarrow> 'w call \<Rightarrow> 'm \<times> 'w \<Rightarrow> 'm \<times> 'w" where
  "overWire T M c mw =
     (case tp_send T (callName c) (snd mw) of
        (Some e, w1) \<Rightarrow> (fst mw, w1)
      | (None, w1) \<Rightarrow> (case invoke M (underRpc T w1 c) (fst mw, w1) of (m2, w2) \<Rightarrow> snd (tp_end T (callName c) m2 w2)))"

lemma snd_mapped: "snd (case r of (x, y) \<Rightarrow> (g x, y)) = snd r"
  by (simp split: prod.split)

lemma snd_rpc:
  "snd (rpc T k h m w) = (case tp_send T k w of (Some e, w1) \<Rightarrow> (m, w1)
     | (None, w1) \<Rightarrow> (case snd (h m w1) of (m2, w2) \<Rightarrow> snd (tp_end T k m2 w2)))"
  by (auto simp: rpc_def split: prod.split option.split)

lemma adapter_invoke:
  "invoke (moduleClientAdapter (grpcClient T M)) c mw = (if isInit c then mw else overWire T M c mw)"
proof -
  have impl: "snd (Impl_Start M ''v1'' k m w) = snd (m_Start M k m w)" "snd (Impl_Stop M ''v1'' m w) = snd (m_Stop M m w)"
    "snd (Impl_Health M ''v1'' m w) = snd (m_Health M m w)"
    "snd (Impl_Dispatch M ''v1'' p f a m w) = snd (m_Dispatch M p f a m w)" for k m w p f a
    by (simp_all add: Impl_Start_def Impl_Stop_def Impl_Health_def Impl_Dispatch_def split: prod.split)
  show ?thesis
    by (cases c; cases mw)
       (simp_all add: isInit_def overWire_def moduleClientAdapter_def grpcClient_def snd_mapped snd_rpc impl adapter_Init_def
          cong: option.case_cong prod.case_cong)
qed

lemma wrapper_run:
  "fold (invoke (wrapperModule M)) cs (x, w) = (case fold (invoke M) cs (mw_mod x, w) of (m', w') \<Rightarrow> (x\<lparr>mw_mod := m'\<rparr>, w'))"
proof (induction cs arbitrary: x w)
  case (Cons c cs)
  obtain m1 w1 where 1: "invoke M c (mw_mod x, w) = (m1, w1)" by fastforce
  show ?case using Cons.IH [of "x\<lparr>mw_mod := m1\<rparr>" w1] 1 by (simp add: wrapper_invoke split: prod.split)
qed simp

lemma adapter_run:
  "fold (invoke (moduleClientAdapter (grpcClient T M))) cs mw = fold (overWire T M) (filter (\<lambda>c. \<not> isInit c) cs) mw"
  by (induction cs arbitrary: mw) (simp_all add: adapter_invoke)

section \<open>Properties\<close>



end
