(* ===== verification/Windows.thy ===== *)
theory Windows
  imports ConfigStore Ipc
begin

text \<open>
  The Windows side of start-up and of the local connection: the lock (\<open>internal/daemon/lock_windows.go\<close>), the named pipe
  (\<open>internal/ipc/listen_windows.go\<close>, \<open>dial_windows.go\<close>), and, for comparison, dialling on Unix (\<open>dial_unix.go\<close>). The system
  calls are a parameter, the record \<open>mutexApi\<close>; the locale \<open>mutex_api\<close> states what is documented of them. The locale
  \<open>single_holder\<close> is the contract of a lock on either system; the Unix lock of \<open>ConfigStore\<close> and the Windows lock
  provide it.
\<close>

section \<open>The contract of a lock\<close>

fun attempts :: "(path \<Rightarrow> 's \<Rightarrow> ('e + 'h) \<times> 's) \<Rightarrow> path list \<Rightarrow> 's \<Rightarrow> 's" where
  "attempts acquire [] s = s"
| "attempts acquire (p # ps) s = attempts acquire ps (snd (acquire p s))"

locale single_holder =
  fixes acquire :: "path \<Rightarrow> 's \<Rightarrow> ('e + 'h) \<times> 's"
    and taken :: "path \<Rightarrow> 's \<Rightarrow> bool"
    and ok :: "'s \<Rightarrow> bool"
  assumes acquire_ok: "ok s \<Longrightarrow> ok (snd (acquire p s))"
    and acquire_keeps: "ok s \<Longrightarrow> taken q s \<Longrightarrow> taken q (snd (acquire p s))"
    and acquire_takes: "ok s \<Longrightarrow> acquire p s = (Inr h, s') \<Longrightarrow> \<not> taken p s \<and> taken p s'"
begin

lemma attempts_keep: "ok s \<Longrightarrow> taken p s \<Longrightarrow> ok (attempts acquire ps s) \<and> taken p (attempts acquire ps s)"
  by (induction ps arbitrary: s) (simp_all add: acquire_ok acquire_keeps)

text \<open>Once acquired, a lock is not acquired again, whatever is attempted in between.\<close>

lemma one_holder:
  assumes "ok s" and "acquire p s = (Inr h, s')"
  shows "fst (acquire p (attempts acquire ps s')) \<noteq> Inr h'"
proof
  assume a: "fst (acquire p (attempts acquire ps s')) = Inr h'"
  have "ok s'" using acquire_ok [OF assms(1), of p] assms(2) by simp
  from attempts_keep [OF this] acquire_takes [OF assms]
  have "ok (attempts acquire ps s')" "taken p (attempts acquire ps s')" by blast+
  with acquire_takes a show False by (metis prod.collapse)
qed

end

interpretation unixlock: single_holder AcquireLock "\<lambda>p st. Clean p \<in> set (fst st)" "\<lambda>st. True"
proof
  fix p q :: path and st st' :: "path list \<times> os" and l
  obtain locks s where st: "st = (locks, s)" by fastforce
  show "Clean q \<in> set (fst st) \<Longrightarrow> Clean q \<in> set (fst (snd (AcquireLock p st)))"
    by (auto simp: AcquireLock_def Let_def st split: option.splits)
  show "AcquireLock p st = (Inr l, st') \<Longrightarrow> \<not> Clean p \<in> set (fst st) \<and> Clean p \<in> set (fst st')"
    by (auto simp: AcquireLock_def Let_def st split: option.splits if_splits)
qed simp

section \<open>The lock\<close>

text \<open>Handles are numbers. \<open>CreateMutex\<close> of \<open>golang.org/x/sys/windows\<close> returns a handle together with an error when the
  mutex existed before.\<close>

record 'k mutexApi =
  mx_UTF16 :: "string \<Rightarrow> goerr option"
  mx_Create :: "string \<Rightarrow> 'k \<Rightarrow> (nat \<times> goerr option) \<times> 'k"
  mx_GetLastError :: "'k \<Rightarrow> nat"
  mx_Wait :: "nat \<Rightarrow> 'k \<Rightarrow> (goerr + nat) \<times> 'k"
  mx_Close :: "nat \<Rightarrow> 'k \<Rightarrow> 'k"
  mx_Release :: "nat \<Rightarrow> 'k \<Rightarrow> goerr option \<times> 'k"

abbreviation ERROR_ALREADY_EXISTS :: nat where "ERROR_ALREADY_EXISTS \<equiv> 183"
abbreviation WAIT_TIMEOUT :: nat where "WAIT_TIMEOUT \<equiv> 258"

definition win_AcquireLock :: "'k mutexApi \<Rightarrow> path \<Rightarrow> 'k \<Rightarrow> (goerr + nat) \<times> 'k" where
  "win_AcquireLock A path k =
     (case mx_UTF16 A path of Some e \<Rightarrow> (Inl (Wrapf ''convert mutex name: '' e []), k)
      | None \<Rightarrow>
          (case mx_Create A path k of
             ((handle, Some e), k1) \<Rightarrow> (Inl (Wrapf ''create mutex: '' e []), k1)
           | ((handle, None), k1) \<Rightarrow>
               if mx_GetLastError A k1 = ERROR_ALREADY_EXISTS then
                 (Inl (Errorf (''penguind already running: mutex '' @ Quote path @ '' is already held'')), mx_Close A handle k1)
               else (case mx_Wait A handle k1 of
                       (Inl e, k2) \<Rightarrow> (Inl (Wrapf ''wait for mutex: '' e []), mx_Close A handle k2)
                     | (Inr waitResult, k2) \<Rightarrow>
                         if waitResult = WAIT_TIMEOUT then
                           (Inl (Errorf (''penguind already running: mutex '' @ Quote path @ '' is locked'')), mx_Close A handle k2)
                         else (Inr handle, k2))))"

definition win_ReleaseLock :: "'k mutexApi \<Rightarrow> nat \<Rightarrow> 'k \<Rightarrow> goerr option \<times> 'k" where
  "win_ReleaseLock A handle k =
     (case mx_Release A handle k of
        (Some e, k1) \<Rightarrow> (Some (Wrapf ''release mutex: '' e []), mx_Close A handle k1)
      | (None, k1) \<Rightarrow> (None, mx_Close A handle k1))"

text \<open>A mutex exists while a handle to it is open. Its name may be prefixed by a namespace; apart from that it must not
  contain a backslash.\<close>

definition mutexName :: "string \<Rightarrow> bool" where
  "mutexName n \<longleftrightarrow> CHR 0x5C \<notin> set n \<or>
     (\<exists>r. CHR 0x5C \<notin> set r \<and> (n = ''Global'' @ CHR 0x5C # r \<or> n = ''Local'' @ CHR 0x5C # r))"

locale mutex_api =
  fixes A :: "'k mutexApi"
    and handles :: "'k \<Rightarrow> (nat \<times> string) set"
    and ok :: "'k \<Rightarrow> bool"
  assumes create_ok: "ok k \<Longrightarrow> mx_Create A n k = ((h, e), k') \<Longrightarrow>
      ok k' \<and> (e = None \<longrightarrow> mutexName n \<and> n \<notin> snd ` handles k \<and> handles k' = insert (h, n) (handles k) \<and> h \<notin> fst ` handles k) \<and>
      (e \<noteq> None \<longrightarrow> handles k \<subseteq> handles k')"
    and wait_ok: "ok k \<Longrightarrow> ok (snd (mx_Wait A h k)) \<and> handles (snd (mx_Wait A h k)) = handles k"
    and close_ok: "ok k \<Longrightarrow> ok (mx_Close A h k) \<and> handles (mx_Close A h k) = {x \<in> handles k. fst x \<noteq> h}"
begin

definition existing :: "path \<Rightarrow> 'k \<Rightarrow> bool" where
  "existing n k \<longleftrightarrow> n \<in> snd ` handles k"

text \<open>The cases of an acquisition: it fails before or while creating, it fails later and closes its handle, or it
  succeeds.\<close>

lemma acquire_cases:
  assumes "ok k" and "win_AcquireLock A p k = (r, k')"
  shows "ok k' \<and> ((\<exists>e. r = Inl e) \<and> handles k \<subseteq> handles k' \<or>
     (\<exists>h. r = Inr h \<and> mutexName p \<and> p \<notin> snd ` handles k \<and> handles k' = insert (h, p) (handles k)))"
proof (cases "mx_UTF16 A p")
  case (Some e)
  then show ?thesis using assms by (auto simp: win_AcquireLock_def)
next
  case None
  obtain h e k1 where c: "mx_Create A p k = ((h, e), k1)" by (metis surj_pair)
  note co = create_ok [OF assms(1) c]
  show ?thesis
  proof (cases e)
    case (Some x)
    then show ?thesis using co assms(2) None c by (auto simp: win_AcquireLock_def)
  next
    case N: None
    obtain x k2 where w: "mx_Wait A h k1 = (x, k2)" by fastforce
    have k2: "ok k2" "handles k2 = insert (h, p) (handles k)" using wait_ok [of k1 h] co N w by simp_all
    have shut: "ok (mx_Close A h j) \<and> handles (mx_Close A h j) = handles k" if "ok j" "handles j = insert (h, p) (handles k)" for j
      using close_ok [OF that(1), of h] that(2) co N by force
    from assms(2) None c N w have "k' = mx_Close A h k1 \<and> (\<exists>e. r = Inl e) \<or> k' = mx_Close A h k2 \<and> (\<exists>e. r = Inl e) \<or>
        k' = k2 \<and> r = Inr h"
      by (auto simp: win_AcquireLock_def split: if_splits sum.splits)
    then show ?thesis using shut [of k1] shut [of k2] co N k2 by auto
  qed
qed

sublocale win: single_holder "win_AcquireLock A" existing ok
proof
  fix p q k k' h
  assume k: "ok k"
  obtain r k1 where a: "win_AcquireLock A p k = (r, k1)" by fastforce
  note c = acquire_cases [OF k a]
  show "ok (snd (win_AcquireLock A p k))" using c a by simp
  show "existing q k \<Longrightarrow> existing q (snd (win_AcquireLock A p k))" using c a by (auto simp: existing_def)
  show "win_AcquireLock A p k = (Inr h, k') \<Longrightarrow> \<not> existing p k \<and> existing p k'"
    using acquire_cases [OF k, of p "Inr h" k'] by (auto simp: existing_def)
qed

lemma lock_verdict:
  assumes "ok k" and "win_AcquireLock A p k = (r, k')"
  shows "(CHR 0x5C \<in> set p \<longrightarrow> \<not> HasPrefix p ''Global'' \<longrightarrow> \<not> HasPrefix p ''Local'' \<longrightarrow> (\<exists>e. r = Inl e)) \<and>
     (\<forall>h ps h'. r = Inr h \<longrightarrow> fst (win_AcquireLock A p (attempts (win_AcquireLock A) ps k')) \<noteq> Inr h')"
  using acquire_cases [OF assms] win.one_holder [OF assms(1), of p] assms(2) by (auto simp: mutexName_def HasPrefix_iff)

end

section \<open>The pipe\<close>

record ListenerConfig =
  lc_Path :: string
  lc_AllowedGroup :: string

definition pipePath :: string where
  "pipePath = [CHR 0x5C, CHR 0x5C] @ ''.'' @ [CHR 0x5C] @ ''pipe'' @ [CHR 0x5C] @ ''penguind''"

definition pipeSddl :: string where
  "pipeSddl = ''D:P(A;;GA;;;BA)(A;;GA;;;SY)''"

text \<open>\<open>listenPipe\<close> is \<open>winio.ListenPipe\<close>, of a name and a security descriptor.\<close>

definition win_Listen :: "(string \<Rightarrow> string \<Rightarrow> 'k \<Rightarrow> goerr option \<times> 'k) \<Rightarrow> ListenerConfig \<Rightarrow> 'k \<Rightarrow> goerr option \<times> 'k" where
  "win_Listen listenPipe cfg k =
     (case listenPipe pipePath pipeSddl k of (Some e, k1) \<Rightarrow> (Some (Wrapf ''listen pipe: '' e []), k1) | (None, k1) \<Rightarrow> (None, k1))"

definition win_unaryInterceptor :: "string \<Rightarrow> ('s \<Rightarrow> 'a \<times> 's) \<Rightarrow> 's \<Rightarrow> (authErr + 'a) \<times> 's" where
  "win_unaryInterceptor allowedGroup handler s = apfst Inr (handler s)"

definition win_streamInterceptor :: "string \<Rightarrow> ('s \<Rightarrow> 'a \<times> 's) \<Rightarrow> 's \<Rightarrow> (authErr + 'a) \<times> 's" where
  "win_streamInterceptor allowedGroup handler s = apfst Inr (handler s)"

text \<open>Dialling: the target handed to gRPC and the dialler, which on Windows ignores the address.\<close>

definition win_Dial :: "(string \<Rightarrow> (string \<Rightarrow> goerr + 'conn) \<Rightarrow> goerr + 'cc) \<Rightarrow> (string \<Rightarrow> goerr + 'conn) \<Rightarrow> string \<Rightarrow> goerr + 'cc" where
  "win_Dial dialContext dialPipe path = dialContext (''pipe:'' @ pipePath) (\<lambda>addr. dialPipe pipePath)"

definition unix_Dial :: "(string \<Rightarrow> (string \<Rightarrow> goerr + 'conn) \<Rightarrow> goerr + 'cc) \<Rightarrow> (string \<Rightarrow> string \<Rightarrow> goerr + 'conn) \<Rightarrow> string \<Rightarrow> goerr + 'cc" where
  "unix_Dial newClient dial path = newClient (''passthrough:///'' @ path) (\<lambda>addr. dial ''unix'' addr)"

section \<open>Mutexes\<close>

text \<open>An executable machine with named mutexes: the open handles, the last error and the next handle.\<close>

record mutexes =
  mt_open :: "(nat, string) gomap"
  mt_error :: nat
  mt_next :: nat

definition goodName :: "string \<Rightarrow> bool" where
  "goodName n \<longleftrightarrow> CHR 0x5C \<notin> set n"

definition simCreate :: "string \<Rightarrow> mutexes \<Rightarrow> (nat \<times> goerr option) \<times> mutexes" where
  "simCreate n k =
     (if \<not> goodName n then ((0, Some (Errorf ''The system cannot find the path specified.'')), k\<lparr>mt_error := 3\<rparr>)
      else
        let h = mt_next k; old = n \<in> snd ` set (mt_open k)
        in ((h, if old then Some (Errorf ''Cannot create a file when that file already exists.'') else None),
            k\<lparr>mt_open := (h, n) # mt_open k, mt_error := (if old then ERROR_ALREADY_EXISTS else 0), mt_next := Suc h\<rparr>))"

definition simApi :: "mutexes mutexApi" where
  "simApi =
     \<lparr>mx_UTF16 = \<lambda>n. if CHR 0x00 \<in> set n then Some (Errorf ''invalid argument'') else None,
      mx_Create = simCreate, mx_GetLastError = mt_error, mx_Wait = \<lambda>h k. (Inr 0, k),
      mx_Close = \<lambda>h k. k\<lparr>mt_open := filter (\<lambda>x. fst x \<noteq> h) (mt_open k)\<rparr>, mx_Release = \<lambda>h k. (None, k)\<rparr>"

definition simOk :: "mutexes \<Rightarrow> bool" where
  "simOk k \<longleftrightarrow> list_all (\<lambda>x. fst x < mt_next k) (mt_open k)"

interpretation simmutex: mutex_api simApi "\<lambda>k. set (mt_open k)" simOk
proof
  fix n h e k k'
  assume k: "simOk k"
  show "mx_Create simApi n k = ((h, e), k') \<Longrightarrow> simOk k' \<and>
      (e = None \<longrightarrow> mutexName n \<and> n \<notin> snd ` set (mt_open k) \<and> set (mt_open k') = insert (h, n) (set (mt_open k)) \<and>
         h \<notin> fst ` set (mt_open k)) \<and> (e \<noteq> None \<longrightarrow> set (mt_open k) \<subseteq> set (mt_open k'))"
    using k by (auto simp: simApi_def simCreate_def simOk_def goodName_def mutexName_def Let_def list_all_iff less_Suc_eq split: if_splits) fastforce+
  show "simOk (snd (mx_Wait simApi h k)) \<and> set (mt_open (snd (mx_Wait simApi h k))) = set (mt_open k)"
    using k by (simp add: simApi_def)
  show "simOk (mx_Close simApi h k) \<and> set (mt_open (mx_Close simApi h k)) = {x \<in> set (mt_open k). fst x \<noteq> h}"
    using k by (auto simp: simApi_def simOk_def list_all_iff)
qed

section \<open>Properties\<close>

text \<open>C34: The lock on Windows. A lock that was acquired is not acquired again while its handle is open, whatever other
  acquisitions are attempted. But the mutex is named after the path of the lock file, and a path with a backslash, as every
  absolute path on Windows has, is no name of a mutex: acquiring always fails, and with it the start of the daemon.\<close>

theorem windows_lock:
  assumes "mutex_api A handles ok" and "ok k" and "win_AcquireLock A p k = (r, k')"
  shows "(CHR 0x5C \<in> set p \<longrightarrow> \<not> HasPrefix p ''Global'' \<longrightarrow> \<not> HasPrefix p ''Local'' \<longrightarrow> (\<exists>e. r = Inl e)) \<and>
     (\<forall>h ps h'. r = Inr h \<longrightarrow> fst (win_AcquireLock A p (attempts (win_AcquireLock A) ps k')) \<noteq> Inr h')"
  by (rule mutex_api.lock_verdict [OF assms])

theorem windows_lock_witness:
  "\<exists>h k e. win_AcquireLock simApi ''penguind.lock'' \<lparr>mt_open = [], mt_error = 0, mt_next = 1\<rparr> = (Inr h, k) \<and>
     (\<forall>ps h'. fst (win_AcquireLock simApi ''penguind.lock'' (attempts (win_AcquireLock simApi) ps k)) \<noteq> Inr h') \<and>
     fst (win_AcquireLock simApi (''C:'' @ [CHR 0x5C] @ ''penguind.lock'') k) = Inl e"
proof -
  let ?k0 = "\<lparr>mt_open = [], mt_error = 0, mt_next = 1\<rparr>"
  let ?p = "''C:'' @ [CHR 0x5C] @ ''penguind.lock''"
  obtain k where 1: "win_AcquireLock simApi ''penguind.lock'' ?k0 = (Inr 1, k)" "simOk k"
    by (simp add: win_AcquireLock_def simApi_def simCreate_def goodName_def simOk_def Let_def)
  obtain r k2 where 2: "win_AcquireLock simApi ?p k = (r, k2)" by fastforce
  have "\<exists>e. r = Inl e" using windows_lock [OF simmutex.mutex_api_axioms 1(2) 2] by simp
  with windows_lock [OF simmutex.mutex_api_axioms _ 1(1)] 1 2 show ?thesis by (auto simp: simOk_def)
qed

end
