(* ===== verification/Watch.thy ===== *)
theory Watch
  imports Server
begin

text \<open>
  The handler \<open>WatchEvents\<close> of \<open>internal/daemon/server.go\<close>, with many calls at once: each subscribes, loops over its
  channel until its context ends, its channel is closed or sending fails, and unsubscribes when it returns. The step
  relation interleaves the calls with publishers. The log of published events, the number of calls so far and the
  place in the log where a call began are only there to state what the streams contain.
\<close>

section \<open>One call\<close>

datatype watchEnd = CtxDone | Closed | SendFailed goerr

datatype watchNext = Skipped | Sent PbEvent | Returned watchEnd

definition WatchEvents_open :: "string \<Rightarrow> EventBroker \<Rightarrow> rpcerr + 64 word \<times> EventBroker" where
  "WatchEvents_open apiVersion eb =
     (case checkAPIVersion apiVersion of Some e \<Rightarrow> Inl e | None \<Rightarrow> Inr (Subscribe eb))"

text \<open>An iteration of the loop in which the channel is ready: it blocks (\<open>None\<close>) on an empty open channel.\<close>

definition WatchEvents_iter ::
  "string \<Rightarrow> (PbEvent \<Rightarrow> goerr option) \<Rightarrow> 64 word \<Rightarrow> EventBroker \<Rightarrow> (watchNext \<times> EventBroker) option" where
  "WatchEvents_iter reqModule send subID eb =
     (if get (subscribers eb) subID = None then Some (Returned Closed, eb)
      else case recv subID eb of
             None \<Rightarrow> None
           | Some (ev, eb1) \<Rightarrow>
               if reqModule \<noteq> '''' \<and> pe_Module ev \<noteq> reqModule then Some (Skipped, eb1)
               else case send ev of Some e \<Rightarrow> Some (Returned (SendFailed e), eb1) | None \<Rightarrow> Some (Sent ev, eb1))"

section \<open>Many calls\<close>

record watchCall =
  wt_Module :: string
  wt_sent :: "PbEvent list"
  wt_from :: nat

record watchSys =
  ws_broker :: EventBroker
  ws_calls :: "(64 word, watchCall) gomap"
  ws_ended :: "(watchCall \<times> watchEnd) list"
  ws_log :: "PbEvent list"
  ws_opened :: nat

definition watchStart :: watchSys where
  "watchStart = \<lparr>ws_broker = NewEventBroker, ws_calls = [], ws_ended = [], ws_log = [], ws_opened = 0\<rparr>"

text \<open>Returning runs the deferred \<open>Unsubscribe\<close>.\<close>

definition watchReturn :: "64 word \<Rightarrow> watchCall \<Rightarrow> watchEnd \<Rightarrow> watchSys \<Rightarrow> watchSys" where
  "watchReturn i c r s =
     s\<lparr>ws_broker := Unsubscribe i (ws_broker s), ws_calls := del i (ws_calls s), ws_ended := (c, r) # ws_ended s\<rparr>"

inductive watch_step :: "watchSys \<Rightarrow> watchSys \<Rightarrow> bool" where
  wopen: "WatchEvents_open v (ws_broker s) = Inr (i, eb) \<Longrightarrow>
     watch_step s (s\<lparr>ws_broker := eb, ws_opened := Suc (ws_opened s),
       ws_calls := put i \<lparr>wt_Module = m, wt_sent = [], wt_from = length (ws_log s)\<rparr> (ws_calls s)\<rparr>)"
| wpublish: "watch_step s (s\<lparr>ws_broker := Publish ev (ws_broker s), ws_log := ws_log s @ [protoEvent ev]\<rparr>)"
| wcancel: "get (ws_calls s) i = Some c \<Longrightarrow> watch_step s (watchReturn i c CtxDone s)"
| wskip: "get (ws_calls s) i = Some c \<Longrightarrow> WatchEvents_iter (wt_Module c) send i (ws_broker s) = Some (Skipped, eb) \<Longrightarrow>
     watch_step s (s\<lparr>ws_broker := eb\<rparr>)"
| wsend: "get (ws_calls s) i = Some c \<Longrightarrow> WatchEvents_iter (wt_Module c) send i (ws_broker s) = Some (Sent e, eb) \<Longrightarrow>
     watch_step s (s\<lparr>ws_broker := eb, ws_calls := put i (c\<lparr>wt_sent := wt_sent c @ [e]\<rparr>) (ws_calls s)\<rparr>)"
| wreturn: "get (ws_calls s) i = Some c \<Longrightarrow> WatchEvents_iter (wt_Module c) send i (ws_broker s) = Some (Returned r, eb) \<Longrightarrow>
     watch_step s (watchReturn i c r (s\<lparr>ws_broker := eb\<rparr>))"

section \<open>The invariant\<close>

text \<open>What a call with the queue \<open>q\<close> has sent, given the events \<open>es\<close> published since it began: it has taken \<open>r\<close> from its
  channel and passed on what its filter lets through, and events are lost only when there were more than ten.\<close>

definition stream_ok :: "watchCall \<Rightarrow> PbEvent list \<Rightarrow> PbEvent list \<Rightarrow> bool" where
  "stream_ok c q es \<longleftrightarrow>
     (\<exists>r. wt_sent c = watchFilter (wt_Module c) r \<and> subseq (r @ q) es \<and> (length es \<le> capacity \<longrightarrow> r @ q = es))"

definition watch_inv :: "watchSys \<Rightarrow> bool" where
  "watch_inv s \<longleftrightarrow>
     nextID (ws_broker s) = of_nat (Suc (ws_opened s)) \<and>
     (\<forall>i. get (subscribers (ws_broker s)) i \<noteq> None \<longrightarrow> unat i \<le> ws_opened s) \<and>
     (\<forall>i. (get (ws_calls s) i = None) = (get (subscribers (ws_broker s)) i = None)) \<and>
     (\<forall>i c q. get (ws_calls s) i = Some c \<longrightarrow> get (subscribers (ws_broker s)) i = Some q \<longrightarrow>
        wt_from c \<le> length (ws_log s) \<and> length q \<le> capacity \<and> stream_ok c q (drop (wt_from c) (ws_log s))) \<and>
     (\<forall>c r. (c, r) \<in> set (ws_ended s) \<longrightarrow>
        r \<noteq> Closed \<and> wt_from c \<le> length (ws_log s) \<and> subseq (wt_sent c) (watchFilter (wt_Module c) (drop (wt_from c) (ws_log s))))"

lemma stream_ok_new: "stream_ok \<lparr>wt_Module = m, wt_sent = [], wt_from = n\<rparr> [] []"
  by (auto simp: stream_ok_def watchFilter_def)

lemma stream_ok_publish:
  assumes "stream_ok c q es"
  shows "stream_ok c (trySend e q) (es @ [e])"
proof -
  obtain r where r: "wt_sent c = watchFilter (wt_Module c) r" "subseq (r @ q) es" "length es \<le> capacity \<longrightarrow> r @ q = es"
    using assms by (auto simp: stream_ok_def)
  have "subseq (r @ trySend e q) (es @ [e])"
    using r(2) list_emb_append_mono [OF r(2), of "[e]" "[e]"] by (auto simp: trySend_def list_emb_append2)
  moreover have "r @ trySend e q = es @ [e]" if "length (es @ [e]) \<le> capacity"
  proof -
    have "r @ q = es" using that r(3) by simp
    moreover have "length q \<le> length es" using calculation by auto
    ultimately show ?thesis using that by (simp add: trySend_def)
  qed
  ultimately show ?thesis using r(1) unfolding stream_ok_def by blast
qed

lemma stream_ok_sent:
  assumes "stream_ok c q es"
  shows "subseq (wt_sent c) (watchFilter (wt_Module c) es)"
proof -
  obtain r where r: "wt_sent c = watchFilter (wt_Module c) r" "subseq (r @ q) es" using assms by (auto simp: stream_ok_def)
  then have "subseq r es" by (meson list_emb_prefix subseq_order.order_trans subseq_order.order_refl)
  then show ?thesis by (simp add: r(1) watchFilter_def subseq_filter)
qed

lemma iter_cases:
  assumes "WatchEvents_iter m send i eb = Some (n, eb')"
  obtains (closed) "get (subscribers eb) i = None" "n = Returned Closed" "eb' = eb"
  | (taken) e q where "get (subscribers eb) i = Some (e # q)" "eb' = eb\<lparr>subscribers := put i q (subscribers eb)\<rparr>"
      "n = (if m \<noteq> '''' \<and> pe_Module e \<noteq> m then Skipped
            else case send e of Some er \<Rightarrow> Returned (SendFailed er) | None \<Rightarrow> Sent e)"
  using assms
  by (auto simp: WatchEvents_iter_def recv_def split: if_splits option.splits list.splits)

lemma stream_ok_take:
  assumes "stream_ok c (e # q) es" and "watchFilter (wt_Module c) [e] = xs"
  shows "stream_ok (c\<lparr>wt_sent := wt_sent c @ xs\<rparr>) q es"
proof -
  obtain r where "wt_sent c = watchFilter (wt_Module c) r" "subseq (r @ e # q) es" "length es \<le> capacity \<longrightarrow> r @ e # q = es"
    using assms(1) by (auto simp: stream_ok_def)
  then show ?thesis using assms(2) unfolding stream_ok_def
    by (intro exI [of _ "r @ [e]"]) (simp add: watchFilter_def)
qed

lemma watch_inv_start: "watch_inv watchStart"
  by (simp add: watch_inv_def watchStart_def NewEventBroker_def)

text \<open>The parts of the invariant.\<close>

lemma watch_invD:
  assumes "watch_inv s"
  shows "nextID (ws_broker s) = of_nat (Suc (ws_opened s))"
    and "get (subscribers (ws_broker s)) i \<noteq> None \<Longrightarrow> unat i \<le> ws_opened s"
    and "(get (ws_calls s) i = None) = (get (subscribers (ws_broker s)) i = None)"
    and "get (ws_calls s) i = Some c \<Longrightarrow> get (subscribers (ws_broker s)) i = Some q \<Longrightarrow>
      wt_from c \<le> length (ws_log s) \<and> length q \<le> capacity \<and> stream_ok c q (drop (wt_from c) (ws_log s))"
    and "(c, r) \<in> set (ws_ended s) \<Longrightarrow> r \<noteq> Closed \<and> wt_from c \<le> length (ws_log s) \<and>
      subseq (wt_sent c) (watchFilter (wt_Module c) (drop (wt_from c) (ws_log s)))"
  using assms unfolding watch_inv_def by blast+

text \<open>A call that took an event from its channel.\<close>

lemma watch_inv_take:
  assumes inv: "watch_inv s" and c: "get (ws_calls s) i = Some c" and q: "get (subscribers (ws_broker s)) i = Some (e # q)"
    and calls: "\<And>j. get calls j = (if j = i then Some (c\<lparr>wt_sent := wt_sent c @ watchFilter (wt_Module c) [e]\<rparr>) else get (ws_calls s) j)"
  shows "watch_inv (s\<lparr>ws_broker := (ws_broker s)\<lparr>subscribers := put i q (subscribers (ws_broker s))\<rparr>, ws_calls := calls\<rparr>)"
  using watch_invD(4) [OF inv c q] stream_ok_take [of c e q, OF _ refl] watch_invD [OF inv] q
  unfolding watch_inv_def by (auto simp: calls split: if_splits)

lemma watch_inv_return:
  assumes inv: "watch_inv s" and c: "get (ws_calls s) i = Some c" and r: "r \<noteq> Closed"
    and eb: "nextID eb = nextID (ws_broker s)"
      "\<And>j. j \<noteq> i \<Longrightarrow> get (subscribers eb) j = get (subscribers (ws_broker s)) j" "get (subscribers eb) i \<noteq> None"
  shows "watch_inv (watchReturn i c r (s\<lparr>ws_broker := eb\<rparr>))"
proof -
  obtain q where q: "get (subscribers (ws_broker s)) i = Some q" using watch_invD(3) [OF inv, of i] c by auto
  have "subscribers (Unsubscribe i eb) = del i (subscribers eb)" "nextID (Unsubscribe i eb) = nextID eb"
    using eb(3) by (auto simp: Unsubscribe_def)
  with watch_invD(4) [OF inv c q] stream_ok_sent [of c q] watch_invD [OF inv] r eb
  show ?thesis unfolding watch_inv_def watchReturn_def by (auto split: if_splits)
qed

lemma watch_inv_publish:
  assumes inv: "watch_inv s"
  shows "watch_inv (s\<lparr>ws_broker := Publish ev (ws_broker s), ws_log := ws_log s @ [protoEvent ev]\<rparr>)"
proof -
  have g: "get (subscribers (Publish ev (ws_broker s))) i = map_option (trySend (protoEvent ev)) (get (subscribers (ws_broker s)) i)" for i
    by (simp add: Publish_def get_map_val)
  have n: "nextID (Publish ev (ws_broker s)) = nextID (ws_broker s)" by (simp add: Publish_def)
  have sub: "subseq xs (watchFilter m es) \<Longrightarrow> subseq xs (watchFilter m (es @ [e]))" for xs m es e
    by (simp add: watchFilter_def list_emb_prefix)
  show ?thesis
    using watch_invD [OF inv] stream_ok_publish sub unfolding watch_inv_def
    by (fastforce simp: g n trySend_def)
qed

lemma watch_inv_open:
  assumes inv: "watch_inv s" and o: "WatchEvents_open v (ws_broker s) = Inr (i, eb)" and few: "Suc (ws_opened s) < 2 ^ 64"
  shows "watch_inv (s\<lparr>ws_broker := eb, ws_opened := Suc (ws_opened s),
       ws_calls := put i \<lparr>wt_Module = m, wt_sent = [], wt_from = length (ws_log s)\<rparr> (ws_calls s)\<rparr>)"
proof -
  have i: "i = of_nat (Suc (ws_opened s))" and eb: "nextID eb = of_nat (Suc (Suc (ws_opened s)))"
    "subscribers eb = put i [] (subscribers (ws_broker s))"
    using o watch_invD(1) [OF inv] by (auto simp: WatchEvents_open_def Subscribe_def split: option.splits)
  have u: "unat i = Suc (ws_opened s)" using few by (simp add: i unat_of_nat del: of_nat_Suc)
  show ?thesis
    using watch_invD [OF inv] stream_ok_new eb u unfolding watch_inv_def by (auto simp: le_Suc_eq split: if_splits)
qed

lemma watch_inv_step:
  assumes "watch_step s s'" and "watch_inv s" and "ws_opened s' < 2 ^ 64"
  shows "watch_inv s'"
  using assms(1)
proof (cases rule: watch_step.cases)
  case (wopen v i eb m)
  then show ?thesis using watch_inv_open [OF assms(2)] assms(3) by simp
next
  case (wpublish ev)
  then show ?thesis using watch_inv_publish [OF assms(2)] by simp
next
  case (wcancel i c)
  then show ?thesis using watch_inv_return [OF assms(2), of i c CtxDone "ws_broker s"] watch_invD(3) [OF assms(2), of i] by simp
next
  case (wskip i c send eb)
  from wskip(3) show ?thesis
  proof (cases rule: iter_cases)
    case (taken e q)
    then have "watchFilter (wt_Module c) [e] = []" by (auto simp: watchFilter_def split: if_splits option.splits)
    with watch_inv_take [OF assms(2) wskip(2) taken(1), of "ws_calls s"] wskip taken(2) show ?thesis by simp
  qed simp
next
  case (wsend i c send e eb)
  from wsend(3) show ?thesis
  proof (cases rule: iter_cases)
    case (taken e' q)
    then have "e' = e" "watchFilter (wt_Module c) [e] = [e]" by (auto simp: watchFilter_def split: if_splits option.splits)
    with watch_inv_take [OF assms(2) wsend(2) taken(1)] wsend taken(2) show ?thesis by simp
  qed simp
next
  case (wreturn i c send r eb)
  from wreturn(3) show ?thesis
  proof (cases rule: iter_cases)
    case closed
    with watch_invD(3) [OF assms(2), of i] wreturn(2) show ?thesis by simp
  next
    case (taken e q)
    then have "r \<noteq> Closed" by (auto split: if_splits option.splits)
    with watch_inv_return [OF assms(2) wreturn(2), of r eb] taken wreturn(1) show ?thesis by simp
  qed
qed

lemma watch_opened_mono: "watch_step s s' \<Longrightarrow> ws_opened s \<le> ws_opened s'"
  by (erule watch_step.cases) (simp_all add: watchReturn_def)

lemma watch_inv_reachable: "watch_step\<^sup>*\<^sup>* watchStart s \<Longrightarrow> ws_opened s < 2 ^ 64 \<Longrightarrow> watch_inv s"
proof (induction rule: rtranclp_induct)
  case base
  show ?case by (rule watch_inv_start)
next
  case (step s s')
  then show ?case using watch_inv_step watch_opened_mono le_less_trans by blast
qed

section \<open>Properties\<close>

text \<open>C17: What watching clients see. For any number of calls of \<open>WatchEvents\<close> interleaved with publishers, each of whose calls is one
  step, up to the overflow of the subscription counter: the broker holds exactly one subscription for each call in progress, so a call that ends
  leaves nothing behind, however it ends; no call ever finds its channel closed under it; and what a call has sent is a subsequence of the
  events published since it began that its module filter lets through. As long as no more than ten events were published since
  then, sending and waiting events together are all of them.\<close>

theorem watch_streams:
  assumes "watch_step\<^sup>*\<^sup>* watchStart s" and "ws_opened s < 2 ^ 64"
  shows "fst ` set (subscribers (ws_broker s)) = fst ` set (ws_calls s) \<and>
    (\<forall>c. (\<exists>i. get (ws_calls s) i = Some c) \<or> (\<exists>r. (c, r) \<in> set (ws_ended s)) \<longrightarrow>
       subseq (wt_sent c) (watchFilter (wt_Module c) (drop (wt_from c) (ws_log s)))) \<and>
    (\<forall>i c q. get (ws_calls s) i = Some c \<longrightarrow> get (subscribers (ws_broker s)) i = Some q \<longrightarrow>
       length (drop (wt_from c) (ws_log s)) \<le> capacity \<longrightarrow>
       wt_sent c @ watchFilter (wt_Module c) q = watchFilter (wt_Module c) (drop (wt_from c) (ws_log s))) \<and>
    (\<forall>c r. (c, r) \<in> set (ws_ended s) \<longrightarrow> r \<noteq> Closed)"
proof (intro conjI allI impI)
  note inv = watch_invD [OF watch_inv_reachable [OF assms]]
  show "fst ` set (subscribers (ws_broker s)) = fst ` set (ws_calls s)"
    using inv(3) by (auto simp: get_None_iff)
  show "r \<noteq> Closed" if "(c, r) \<in> set (ws_ended s)" for c r using inv(5) [OF that] by simp
  show "subseq (wt_sent c) (watchFilter (wt_Module c) (drop (wt_from c) (ws_log s)))"
    if "(\<exists>i. get (ws_calls s) i = Some c) \<or> (\<exists>r. (c, r) \<in> set (ws_ended s))" for c
    using that inv(3,4,5) stream_ok_sent by (metis not_None_eq)
  show "wt_sent c @ watchFilter (wt_Module c) q = watchFilter (wt_Module c) (drop (wt_from c) (ws_log s))"
    if "get (ws_calls s) i = Some c" "get (subscribers (ws_broker s)) i = Some q" "length (drop (wt_from c) (ws_log s)) \<le> capacity"
    for i c q
    using inv(4) [OF that(1,2)] that(3) unfolding stream_ok_def watchFilter_def by (metis filter_append)
qed

text \<open>A client that watches one module, an event of it and one of another, and the end of the client's context.\<close>

theorem watch_streams_witness:
  "\<exists>s c. watch_step\<^sup>*\<^sup>* watchStart s \<and> (c, CtxDone) \<in> set (ws_ended s) \<and> length (ws_log s) = 2 \<and>
     wt_sent c = [protoEvent ev0] \<and> subseq (wt_sent c) (watchFilter ''squawk'' (ws_log s)) \<and> fst ` set (subscribers (ws_broker s)) = {}"
proof -
  let ?ev1 = "ev0\<lparr>ev_Module := ''tobogganing''\<rparr>" and ?c = "\<lparr>wt_Module = ''squawk'', wt_sent = [], wt_from = 0\<rparr>"
  let ?q = "[protoEvent ?ev1, protoEvent ev0]"
  let ?b = "\<lambda>q. \<lparr>subscribers = [(1, q)], nextID = 2\<rparr>"
  define s2 where "s2 = \<lparr>ws_broker = ?b [], ws_calls = [(1, ?c)], ws_ended = [], ws_log = [], ws_opened = 1\<rparr>"
  define s4 where "s4 = s2\<lparr>ws_broker := ?b ?q, ws_log := ?q\<rparr>"
  define s5 where "s5 = s4\<lparr>ws_broker := ?b [protoEvent ev0]\<rparr>"
  define s6 where "s6 = s5\<lparr>ws_broker := ?b [], ws_calls := [(1, ?c\<lparr>wt_sent := [protoEvent ev0]\<rparr>)]\<rparr>"
  define s7 where "s7 = watchReturn 1 (?c\<lparr>wt_sent := [protoEvent ev0]\<rparr>) CtxDone s6"
  note ds = s7_def s6_def s5_def s4_def s2_def
  have "watch_step watchStart s2"
    using watch_step.wopen [of "''v1''" watchStart 1 "?b []" "''squawk''"]
    by (simp add: s2_def watchStart_def WatchEvents_open_def checkAPIVersion_def Subscribe_def NewEventBroker_def)
  moreover have "watch_step s2 (s2\<lparr>ws_broker := ?b [protoEvent ?ev1], ws_log := [protoEvent ?ev1]\<rparr>)" (is "watch_step s2 ?s3")
    using watch_step.wpublish [of s2 ?ev1] by (simp add: ds Publish_def trySend_def)
  moreover have "watch_step ?s3 s4"
    using watch_step.wpublish [of ?s3 ev0] by (simp add: ds Publish_def trySend_def)
  moreover have "watch_step s4 s5"
    by (rule watch_step.wskip [where i = 1 and c = ?c and send = "\<lambda>_. None" and s = s4 and eb = "?b [protoEvent ev0]", folded s5_def])
      (simp_all add: ds WatchEvents_iter_def recv_def protoEvent_def)
  moreover have "watch_step s5 s6"
    using watch_step.wsend [of s5 1 ?c "\<lambda>_. None" "protoEvent ev0" "?b []"]
    by (simp add: ds WatchEvents_iter_def recv_def protoEvent_def ev0_def)
  moreover have "watch_step s6 s7" unfolding s7_def by (rule watch_step.wcancel) (simp add: ds)
  ultimately have r: "watch_step\<^sup>*\<^sup>* watchStart s7" by (meson converse_rtranclp_into_rtranclp rtranclp.rtrancl_refl)
  obtain c where c: "c = ?c\<lparr>wt_sent := [protoEvent ev0]\<rparr>" by blast
  then have e: "(c, CtxDone) \<in> set (ws_ended s7)" "ws_opened s7 < 2 ^ 64" "length (ws_log s7) = 2"
      "wt_Module c = ''squawk''" "wt_from c = 0" "wt_sent c = [protoEvent ev0]"
    by (simp_all add: ds watchReturn_def)
  have n: "ws_calls s7 = []" by (simp add: ds watchReturn_def)
  note w = watch_streams [OF r e(2)]
  from w [THEN conjunct1] have "fst ` set (subscribers (ws_broker s7)) = {}" by (simp add: n)
  moreover from w [THEN conjunct2, THEN conjunct1, rule_format, of c] e(1)
  have "subseq (wt_sent c) (watchFilter ''squawk'' (ws_log s7))" by (auto simp only: e(4,5) drop_0)
  ultimately show ?thesis using r e by blast
qed

end
