(* ===== verification/Spec2Isabelle.thy ===== *)
theory Spec2Isabelle
  imports Supervisor_Props Server Broker Extplugin Plugin_Adapter Secrets ConfigStore Ipc Cli Licensing
    Update Resolver Squawk Auth Tobogganing Daemon Penguin Supervisor_Runs Supervisor_Disk Penguind Tray Wireguard
    Resolver_Platforms Plugin_Glue Windows Daemon_Disk Watch
begin

text \<open>
  A verification development of the penguin endpoint agent: a privileged daemon (\<open>penguind\<close>) that supervises
  product modules, and unprivileged clients that reach it over a local socket. Everything below is under \<open>src/\<close>.

  \<^bold>\<open>Parts and theories.\<close>

  \<^item> \<open>Prelude\<close>: Go maps as association lists (\<open>gomap\<close>), collections of rules, generic lemmas. \<open>Go_Strings\<close>: the
    parts of \<open>strings\<close>, \<open>strconv\<close> and \<open>path/filepath\<close> in use. \<open>Json\<close>: \<open>encoding/json\<close>, printing and parsing
    with a round-trip theorem, and the decoding of structs. \<open>Os_Model\<close>: a file system with modes, owners,
    injected faults per operation and path, fixed for a run, and the trace of all its states. \<open>Http\<close>: requests and responses. \<open>World\<close>:
    file system, clock and random source.
  \<^item> \<open>Sdk\<close> (\<open>pkg/sdk\<close>): the contract between daemon and modules; \<open>Hello\<close> (\<open>examples/plugin-hello\<close>).
  \<^item> \<open>Atomic\<close>, \<open>State\<close> (\<open>internal/daemon/state.go\<close>): the file with the enabled modules. The locale
    \<open>durable_file\<close> of \<open>Atomic\<close> is the contract of a file that is replaced atomically; the state file and the licence
    cache interpret it.
  \<^item> \<open>Backoff\<close>, \<open>Supervisor\<close>, \<open>Supervisor_Steps\<close>, \<open>Supervisor_Props\<close> (\<open>internal/daemon/supervisor.go\<close>,
    \<open>dispatch.go\<close>): the supervisor, one definition per critical section; the step relation \<open>sup_step\<close> in
    which they interleave with restart timers and module activity; invariant and effects. \<open>Supervisor_Runs\<close>: whole runs,
    labelled with what the supervisor does, for what depends on the past; \<open>Supervisor_Disk\<close>: the state file in the course of a run.
  \<^item> \<open>Broker\<close>, \<open>Server\<close>, \<open>Watch\<close> (\<open>internal/daemon/server.go\<close>): event broker, RPC handlers, and the event streams in progress.
  \<^item> \<open>Extplugin\<close>, \<open>Plugin_Adapter\<close>, \<open>Plugin_Glue\<close> (\<open>internal/extplugin\<close>, \<open>pkg/sdk/serve.go\<close>, \<open>pkg/sdk/plugin_glue.go\<close>): verification
    and loading of external plugins; a module seen through both sides of the plugin protocol, over a transport that is a parameter;
    the connections between them, and runs of calls.
  \<^item> \<open>Secrets\<close> (\<open>internal/secrets/store.go\<close>), \<open>ConfigStore\<close> (\<open>internal/daemon/configstore.go\<close>, \<open>lock_unix.go\<close>),
    \<open>Ipc\<close> (\<open>internal/ipc/listen_unix.go\<close>), \<open>Licensing\<close> (\<open>internal/licensing/client.go\<close>), \<open>Update\<close>
    (\<open>internal/update/updater.go\<close>), \<open>Cli\<close> (\<open>internal/cli/builder.go\<close>, \<open>internal/tray/model.go\<close>).
  \<^item> \<open>Resolver\<close>, \<open>Squawk\<close> (\<open>internal/modules/squawk\<close>): the DNS module and the system's resolver configuration, its operations over
    the methods of any platform, and those of Linux. \<open>Resolver_Platforms\<close> (\<open>sysresolver_windows.go\<close>, \<open>sysresolver_darwin.go\<close>): the
    other systems, over a runner of commands; the file for macOS does not compile and is modelled as it is meant.
    \<open>Auth\<close>, \<open>Tobogganing\<close>, \<open>Wireguard\<close> (\<open>internal/modules/tobogganing\<close>): the VPN module, and both of its WireGuard controllers.
  \<^item> \<open>Windows\<close> (\<open>lock_windows.go\<close>, \<open>listen_windows.go\<close>, \<open>internal/ipc/dial_*.go\<close>): the lock and the pipe on Windows, dialling.
  \<^item> \<open>Daemon\<close> (\<open>internal/daemon/host.go\<close>, \<open>internal/registry\<close>, \<open>cmd/penguind/service.go\<close>): the hosts, the built-in
    modules, start-up and shutdown, and the step relation \<open>daemon_step\<close> of the running daemon; \<open>Daemon_Disk\<close>: the state file in
    the life of a daemon, among its other files. \<open>Penguin\<close> (\<open>cmd/penguin/main.go\<close>, \<open>cmd/penguind/service_commands.go\<close>): the
    client and the service subcommands. \<open>Flags\<close>, \<open>Penguind\<close> (\<open>cmd/penguind/main.go\<close>, \<open>internal/telemetry\<close>): command-line flags, and the daemon's
    program from its arguments to its exit code. \<open>Tray\<close> (\<open>cmd/penguin-tray/main.go\<close>): the tray program with its poll loop and event stream.

  \<^bold>\<open>How the code is modelled.\<close> Structs are records, stateful methods take and return the state, errors are
  values: the datatype \<open>goerr\<close> with wrapping, \<open>oserr\<close> for the file system, and one datatype per component where
  the code tells errors apart. A panic is an error value of its own. Module instances and hosts act on a world record that
  components extend. What a mutex protects is one definition, so runs are sequences of definitions; where
  the code drops a lock in the middle (\<open>scheduleRestart\<close>, \<open>establishTunnel\<close>) each critical section is separate. Go's \<open>int\<close> is a
  64-bit word where its width matters, \<open>int32\<close> a 32-bit word; durations are integers of nanoseconds. Libraries
  outside the repository are arguments: gRPC, for
  instance, is a transport that gives each call a context of its own, may fail it before or after the handler, and ends
  its context (\<open>Plugin_Adapter\<close>). What the code relies on is stated as locales, each interpreted on
  executable definitions: \<open>durable_file\<close> (a file replaced atomically: the state file, the licence cache), \<open>secret_store\<close> and
  \<open>keyring\<close>, \<open>bounded_sink\<close> (the broker), \<open>addr_lib\<close>, \<open>metrics_registry\<close>, \<open>wg_controller\<close>, \<open>managed_platform\<close> with
  \<open>mac_tool\<close> and \<open>win_tool\<close>, \<open>single_holder\<close> with \<open>mutex_api\<close> (a lock with one holder).

  \<^bold>\<open>What is shown.\<close> For the supervisor: the invariant of all interleavings, what loading, unloading, boot, shutdown
  and failures do, that a restart of the daemon brings its modules back, that automatic restarts are bounded and come to
  an end. For persistence: a crash at any point of a save, of a run of the supervisor and of the life of the whole daemon leaves a
  complete state file, whatever set of calls fails throughout, and the file agrees with the supervisor from the boot on as long as no
  call fails; the same for the
  licence cache. For security: which peers reach a handler, that only verified plugins and updates run, that modules are
  isolated in their secrets and data directories and see only validated configuration from one file, one daemon per
  state directory on Unix and Windows. For the modules: DNS settings are restored after stop and crash on Linux, and what Windows
  does instead; tokens and tunnels are established as the manager grants them. For the clients: commands mirror the specifications,
  command lines are parsed as written, streams contain what was published, the tray's view is well-typed. For the composition: a daemon that is
  stopped and started again has the modules it had, a second one on the same state directory does nothing, a module seen through the
  plugin protocol behaves as the module, how the daemon's program ends, and how errors travel from a module to the user. Some
  theorems state behaviour the code does not intend; they are the findings of this development: the event stream
  that no event reaches and the tray that shows an old state because of it, licence errors for configuration mistakes,
  metrics that cannot be registered twice, a tunnel that comes up after the module has stopped or never leaves the test double, modules revived
  after being parked, resolvers that forget the settings they replaced.

  \<^bold>\<open>Bounds.\<close> The parser of \<open>Json\<close> takes the length of its input as fuel, which bounds its nesting; the round trip
  shows that it is enough for everything the program writes. \<open>CreateTemp\<close> tries 10000 names, as the
  library does. Broker queues hold ten events, socket paths 103 bytes, as in the code.

  \<^bold>\<open>Not modelled.\<close> Logging, and metric values that the program never reads back; generated protocol code, whose
  messages are records of the fields in use; what cobra and the tray library draw. A call of the file system that succeeds and later
  fails in the same run, and changes made by others in the middle of a step, except between the two readings of a module's
  configuration, are not covered. Data races are out of reach of a model of critical sections, as are
  timeouts of single calls: a call that its context cancels is a call that fails, in whatever way the parameter it calls fails.

  \<^bold>\<open>Plan.\<close> Every component of the program's own code is modelled. Left are refinements: the agreement of the state file with the
  supervisor in the life of the whole daemon, which so far is shown for the supervisor, and contexts as values, so that
  cancellation in the middle of a call is a step of its own.
\<close>

end
